theory Spec2Isabelle
  imports Main "HOL-Library.Word" "HOL-Library.Signed_Division"
begin

section \<open>The UI state manager of GammaRay (src/ui/uistatemanager.cpp)\<close>

text \<open>
  The manager observes a root widget with its splitters and header views, writes their
  state to a settings store when the root widget is hidden and restores it (or applies
  registered default sizes) when the root widget is shown or resized.

  The widgets, the settings store and the strings belong to the toolkit. They are
  modelled by the attributes the manager reads and by the effect of the calls the
  manager makes:
  \<^item> a widget is a record of what the manager reads (object name, orientation, extent,
    count, the dynamic property \<open>customized\<close>) and of what it sets: the pane sizes
    given to \<open>setSizes\<close>, the section sizes given to \<open>resizeSection\<close>, and the
    serialised state, which \<open>saveState()\<close> returns and \<open>restoreState\<close> installs.
    How the toolkit relates a serialised state to pane sizes, and how it lays panes
    out after \<open>setSizes\<close>, is not modelled;
  \<^item> widgets are found by their position in \<open>findChildren\<close>: a pointer to a splitter
    or a header is its index;
  \<^item> the C++ \<open>int\<close> is a 32-bit word: \<open>+\<close>, \<open>-\<close> and \<open>*\<close> wrap around, as the
    compiled code does on overflow, and \<open>/\<close> is \<open>intDiv\<close>, the signed division that
    truncates towards zero;
  \<^item> \<open>QString::toInt\<close> and \<open>QString::toLower\<close> are parameters (the record \<open>Qt\<close>);
  \<^item> \<open>Q_ASSERT\<close> is modelled as it behaves in a debug build: a failed assertion ends
    the run with an error;
  \<^item> \<open>qWarning\<close> appends to a list of warnings.
\<close>

subsection \<open>Toolkit data\<close>

type_synonym QString = string
type_synonym QByteArray = "8 word list"

text \<open>The C++ \<open>int\<close>, and its operator \<open>/\<close>. The divisors that occur are 100, 2 and a
  count that the manager has tested to be positive, never zero.\<close>

type_synonym int32 = "32 word"

definition intDiv :: "int32 \<Rightarrow> int32 \<Rightarrow> int32" where
  "intDiv a b = word_of_int (sint a sdiv sint b)"

datatype Orientation = Horizontal | Vertical

datatype ResizeMode = Interactive | Stretch | Fixed | ResizeToContents

text \<open>An entry of a \<open>UISizeVector\<close>: a \<open>QVariant\<close> of type int (pixels), of type
  string (percent) or of any other type.\<close>

datatype QVariant = VInt int32 | VString QString | VOther

type_synonym UISizeVector = "QVariant list"

text \<open>The two assertions of the restore functions: \<open>Q_ASSERT(defaultSizes.count() ==
  splitter->count())\<close> (and the same for a header), and \<open>Q_ASSERT(false)\<close> for an
  entry that is neither an int nor a string.\<close>

datatype error = SizesCountMismatch | UnexpectedVariantType

datatype WidgetRef = RootWidget | SplitterRef nat | HeaderRef nat

datatype Warning = WidgetWithNoName WidgetRef | DuplicateWidgetName QString

record Qt =
  qt_toInt :: "QString \<Rightarrow> int32"
  qt_toLower :: "QString \<Rightarrow> QString"

record QRect =
  x1 :: int32
  y1 :: int32
  x2 :: int32
  y2 :: int32

record QWidget =
  w_objectName :: QString
  w_isMainWindow :: bool
  w_rect :: QRect
  w_geometry :: QByteArray
  w_state :: QByteArray

record QSplitter =
  sp_objectName :: QString
  sp_orientation :: Orientation
  sp_width :: int32
  sp_height :: int32
  sp_handleWidth :: int32
  sp_count :: nat
  sp_customized :: bool
  sp_sizes :: "int32 list"
  sp_state :: QByteArray

record QAbstractItemView =
  av_width :: int32
  av_height :: int32

record QHeaderView =
  hv_objectName :: QString
  hv_orientation :: Orientation
  hv_view :: nat
  hv_count :: nat
  hv_isHeaderView :: bool
  hv_customized :: bool
  hv_sectionResizeMode :: "nat \<Rightarrow> ResizeMode"
  hv_sectionSizeHint :: "nat \<Rightarrow> int32"
  hv_sectionSize :: "nat \<Rightarrow> int32"
  hv_state :: QByteArray

text \<open>The settings store: the values by full key, and the stack of open groups
  (innermost first). A key is looked up and written under the open groups.\<close>

record QSettings =
  qs_values :: "QString \<rightharpoonup> QByteArray"
  qs_groupStack :: "QString list"

definition groupPrefix :: "QString list \<Rightarrow> QString" where
  "groupPrefix gs = concat (map (\<lambda>g. g @ ''/'') (rev gs))"

definition fullKey :: "QSettings \<Rightarrow> QString \<Rightarrow> QString" where
  "fullKey s key = groupPrefix (qs_groupStack s) @ key"

definition beginGroup :: "QString \<Rightarrow> QSettings \<Rightarrow> QSettings" where
  "beginGroup g s = s\<lparr>qs_groupStack := g # qs_groupStack s\<rparr>"

text \<open>\<open>endGroup\<close> without an open group changes nothing (the toolkit only warns).\<close>

definition endGroup :: "QSettings \<Rightarrow> QSettings" where
  "endGroup s = s\<lparr>qs_groupStack := tl (qs_groupStack s)\<rparr>"

text \<open>\<open>value(key).toByteArray()\<close>: a missing key reads as the empty byte array.\<close>

definition settingsValue :: "QSettings \<Rightarrow> QString \<Rightarrow> QByteArray" where
  "settingsValue s key = (case qs_values s (fullKey s key) of None \<Rightarrow> [] | Some b \<Rightarrow> b)"

definition setValue :: "QString \<Rightarrow> QByteArray \<Rightarrow> QSettings \<Rightarrow> QSettings" where
  "setValue key v s = s\<lparr>qs_values := (qs_values s)(fullKey s key \<mapsto> v)\<rparr>"

subsection \<open>The manager and its widgets\<close>

text \<open>
  \<open>splitters\<close> and \<open>headers\<close> are the lists that \<open>findChildren\<close> returns; \<open>views\<close>
  gives the item view that owns a header (what \<open>headerView\<close> finds by walking up
  the parents); \<open>screen\<close> is the available geometry of the screen under the pointer.
  \<open>splitterConnected\<close> and \<open>headerConnected\<close> are the widgets whose signals are
  connected to the manager's slots, \<open>viewFilters\<close> the views on which the manager
  is installed as event filter (the root widget always is, by the constructor).
\<close>

record UIState =
  m_widget :: QWidget
  splitters :: "QSplitter list"
  headers :: "QHeaderView list"
  views :: "nat \<Rightarrow> QAbstractItemView"
  screen :: QRect
  m_stateSettings :: QSettings
  m_initialized :: bool
  m_resizing :: bool
  m_defaultSplitterSizes :: "QString \<rightharpoonup> UISizeVector"
  m_defaultHeaderSizes :: "QString \<rightharpoonup> UISizeVector"
  splitterConnected :: "nat set"
  headerConnected :: "nat set"
  viewFilters :: "nat set"
  warnings :: "Warning list"

text \<open>The constructor: the manager of the root widget \<open>widget\<close>, with the splitters,
  headers and views found under it, the screen and the values of the settings store as
  they are. Installing the event filter on the root widget is part of \<open>filterInstalled\<close>
  below.\<close>

definition newManager ::
  "QWidget \<Rightarrow> QSplitter list \<Rightarrow> QHeaderView list \<Rightarrow> (nat \<Rightarrow> QAbstractItemView) \<Rightarrow> QRect
     \<Rightarrow> (QString \<rightharpoonup> QByteArray) \<Rightarrow> UIState" where
  "newManager widget ss hs vs sc store =
     \<lparr>m_widget = widget, splitters = ss, headers = hs, views = vs, screen = sc,
      m_stateSettings = \<lparr>qs_values = store, qs_groupStack = []\<rparr>,
      m_initialized = False, m_resizing = False,
      m_defaultSplitterSizes = Map.empty, m_defaultHeaderSizes = Map.empty,
      splitterConnected = {}, headerConnected = {}, viewFilters = {}, warnings = []\<rparr>"

definition objectName :: "UIState \<Rightarrow> WidgetRef \<Rightarrow> QString" where
  "objectName st w =
     (case w of
        RootWidget \<Rightarrow> w_objectName (m_widget st)
      | SplitterRef i \<Rightarrow> sp_objectName (splitters st ! i)
      | HeaderRef i \<Rightarrow> hv_objectName (headers st ! i))"

definition qWarning :: "Warning \<Rightarrow> UIState \<Rightarrow> UIState" where
  "qWarning w st = st\<lparr>warnings := warnings st @ [w]\<rparr>"

text \<open>A loop whose body may fail an assertion: the first failure ends it.\<close>

fun foldE :: "('a \<Rightarrow> 's \<Rightarrow> error + 's) \<Rightarrow> 'a list \<Rightarrow> 's \<Rightarrow> error + 's" where
  "foldE f [] s = Inr s"
| "foldE f (x # xs) s = (case f x s of Inl e \<Rightarrow> Inl e | Inr s' \<Rightarrow> foldE f xs s')"

subsection \<open>distributeSpace\<close>

text \<open>
  The first loop collects the positions holding \<open>-1\<close> and sums the other entries; the
  second writes the share to each collected position.
\<close>

definition distributeSpace :: "int32 list \<Rightarrow> int32 \<Rightarrow> int32 \<Rightarrow> int32 list" where
  "distributeSpace sizes totalSize handleSize =
     (let its = filter (\<lambda>i. sizes ! i = - 1) [0..<length sizes];
          usedSpace = sum_list (filter (\<lambda>x. x \<noteq> - 1) sizes)
      in if its \<noteq> [] then
           let freeSpace = totalSize - usedSpace - (of_nat (length sizes) * handleSize) - handleSize;
               space = intDiv freeSpace (of_nat (length its))
           in fold (\<lambda>i xs. xs[i := space]) its sizes
         else sizes)"

subsection \<open>Names, keys, default sizes\<close>

definition checkWidget :: "WidgetRef \<Rightarrow> UIState \<Rightarrow> bool \<times> UIState" where
  "checkWidget w st =
     (if objectName st w = [] then (False, qWarning (WidgetWithNoName w) st)
      else (True, st))"

definition widgetGeometryKey :: "UIState \<Rightarrow> WidgetRef \<Rightarrow> QString" where
  "widgetGeometryKey st w = objectName st w @ ''Geometry''"

definition widgetStateKey :: "UIState \<Rightarrow> WidgetRef \<Rightarrow> QString" where
  "widgetStateKey st w = objectName st w @ ''State''"

text \<open>\<open>size.left(size.length() - 1).toInt()\<close>: the string without its last character.\<close>

definition percentToInt :: "Qt \<Rightarrow> QString \<Rightarrow> int32" where
  "percentToInt qt sizeText = qt_toInt qt (take (length sizeText - 1) sizeText)"

definition hashValue :: "(QString \<rightharpoonup> UISizeVector) \<Rightarrow> QString \<Rightarrow> UISizeVector" where
  "hashValue m k = (case m k of None \<Rightarrow> [] | Some v \<Rightarrow> v)"

definition defaultSizesSplitter :: "nat \<Rightarrow> UIState \<Rightarrow> UISizeVector \<times> UIState" where
  "defaultSizesSplitter i st =
     (let (ok, st1) = checkWidget (SplitterRef i) st
      in (if ok then hashValue (m_defaultSplitterSizes st1) (objectName st1 (SplitterRef i))
          else [], st1))"

definition setDefaultSizesSplitter :: "nat \<Rightarrow> UISizeVector \<Rightarrow> UIState \<Rightarrow> UIState" where
  "setDefaultSizesSplitter i defaultSizes st =
     (let (ok, st1) = checkWidget (SplitterRef i) st
      in if ok then st1\<lparr>m_defaultSplitterSizes :=
                        (m_defaultSplitterSizes st1)(objectName st1 (SplitterRef i) \<mapsto> defaultSizes)\<rparr>
         else st1)"

definition defaultSizesHeader :: "nat \<Rightarrow> UIState \<Rightarrow> UISizeVector \<times> UIState" where
  "defaultSizesHeader i st =
     (let (ok, st1) = checkWidget (HeaderRef i) st
      in (if ok then hashValue (m_defaultHeaderSizes st1) (objectName st1 (HeaderRef i))
          else [], st1))"

definition setDefaultSizesHeader :: "nat \<Rightarrow> UISizeVector \<Rightarrow> UIState \<Rightarrow> UIState" where
  "setDefaultSizesHeader i defaultSizes st =
     (let (ok, st1) = checkWidget (HeaderRef i) st
      in if ok then st1\<lparr>m_defaultHeaderSizes :=
                        (m_defaultHeaderSizes st1)(objectName st1 (HeaderRef i) \<mapsto> defaultSizes)\<rparr>
         else st1)"

subsection \<open>Restoring and saving splitters\<close>

definition splitterExtent :: "QSplitter \<Rightarrow> int32" where
  "splitterExtent sp = (if sp_orientation sp = Horizontal then sp_width sp else sp_height sp)"

text \<open>One entry of the default sizes of a splitter, in pixels; \<open>-1\<close> marks a share of
  the free space. An entry that is neither an int nor a string fails the assertion.\<close>

definition splitterEntry :: "Qt \<Rightarrow> QSplitter \<Rightarrow> QVariant \<Rightarrow> error + int32" where
  "splitterEntry qt sp entry =
     (case entry of
        VInt n \<Rightarrow> Inr n
      | VString s \<Rightarrow>
          (let v = percentToInt qt s
           in if v = - 1 then Inr v
              else if sp_orientation sp = Horizontal then Inr (intDiv (sp_width sp * v) 100)
              else Inr (intDiv (sp_height sp * v) 100))
      | VOther \<Rightarrow> Inl UnexpectedVariantType)"

fun splitterEntries :: "Qt \<Rightarrow> QSplitter \<Rightarrow> UISizeVector \<Rightarrow> error + int32 list" where
  "splitterEntries qt sp [] = Inr []"
| "splitterEntries qt sp (entry # rest) =
     (case splitterEntry qt sp entry of
        Inl e \<Rightarrow> Inl e
      | Inr n \<Rightarrow> (case splitterEntries qt sp rest of Inl e \<Rightarrow> Inl e | Inr ns \<Rightarrow> Inr (n # ns)))"

definition setSplitter :: "nat \<Rightarrow> QSplitter \<Rightarrow> UIState \<Rightarrow> UIState" where
  "setSplitter i sp st = st\<lparr>splitters := (splitters st)[i := sp]\<rparr>"

text \<open>The body of the loop of \<open>restoreSplitterState\<close>, for the splitter at \<open>i\<close>.\<close>

definition restoreSplitter :: "Qt \<Rightarrow> nat \<Rightarrow> UIState \<Rightarrow> error + UIState" where
  "restoreSplitter qt i st =
     (let (ok, st1) = checkWidget (SplitterRef i) st
      in if \<not> ok then Inr st1
         else
           let sp = splitters st1 ! i;
               state = settingsValue (m_stateSettings st1) (widgetStateKey st1 (SplitterRef i))
           in if state = [] then
                let (defaultSizes, st2) = defaultSizesSplitter i st1
                in if defaultSizes \<noteq> [] then
                     if length defaultSizes \<noteq> sp_count sp then Inl SizesCountMismatch
                     else
                       (case splitterEntries qt sp defaultSizes of
                          Inl e \<Rightarrow> Inl e
                        | Inr sizes \<Rightarrow>
                            Inr (setSplitter i
                                   (sp\<lparr>sp_sizes := distributeSpace sizes (splitterExtent sp)
                                                       (sp_handleWidth sp)\<rparr>) st2))
                   else Inr st2
              else if \<not> m_resizing st1 then
                Inr (setSplitter i (sp\<lparr>sp_state := state, sp_customized := True\<rparr>) st1)
              else Inr st1)"

text \<open>The argument \<open>splitter\<close> is a pointer: \<open>None\<close> is the null pointer (all
  splitters), \<open>Some i\<close> the splitter at \<open>i\<close>.\<close>

definition splitterTargets :: "nat option \<Rightarrow> UIState \<Rightarrow> nat list" where
  "splitterTargets splitter st =
     (case splitter of
        Some i \<Rightarrow> (if i < length (splitters st) then [i] else [])
      | None \<Rightarrow> [0..<length (splitters st)])"

definition restoreSplitterState :: "Qt \<Rightarrow> nat option \<Rightarrow> UIState \<Rightarrow> error + UIState" where
  "restoreSplitterState qt splitter st =
     foldE (restoreSplitter qt) (splitterTargets splitter st) st"

definition saveSplitter :: "nat \<Rightarrow> UIState \<Rightarrow> UIState" where
  "saveSplitter i st =
     (let (ok, st1) = checkWidget (SplitterRef i) st
      in if \<not> ok \<or> \<not> sp_customized (splitters st1 ! i) then st1
         else st1\<lparr>m_stateSettings :=
                    setValue (widgetStateKey st1 (SplitterRef i)) (sp_state (splitters st1 ! i))
                      (m_stateSettings st1)\<rparr>)"

definition saveSplitterState :: "nat option \<Rightarrow> UIState \<Rightarrow> UIState" where
  "saveSplitterState splitter st = fold saveSplitter (splitterTargets splitter st) st"

subsection \<open>Restoring and saving headers\<close>

text \<open>\<open>resizeSection\<close> sets the size of a section; the toolkit ignores a section that
  does not exist.\<close>

definition resizeSection :: "nat \<Rightarrow> int32 \<Rightarrow> QHeaderView \<Rightarrow> QHeaderView" where
  "resizeSection i n header =
     (if i < hv_count header then header\<lparr>hv_sectionSize := (hv_sectionSize header)(i := n)\<rparr>
      else header)"

definition headerEntry :: "Qt \<Rightarrow> QAbstractItemView \<Rightarrow> QHeaderView \<Rightarrow> QVariant \<Rightarrow> error + int32" where
  "headerEntry qt view header entry =
     (case entry of
        VInt n \<Rightarrow> Inr n
      | VString s \<Rightarrow>
          (let v = percentToInt qt s
           in if v = - 1 then Inr v
              else if hv_orientation header = Horizontal then Inr (intDiv (av_width view * v) 100)
              else Inr (intDiv (av_height view * v) 100))
      | VOther \<Rightarrow> Inl UnexpectedVariantType)"

text \<open>The second switch of the loop over the default sizes: the section \<open>i\<close> is resized
  when its resize mode is interactive or fixed, and left alone in any other mode.\<close>

definition applySection :: "nat \<Rightarrow> int32 \<Rightarrow> QHeaderView \<Rightarrow> QHeaderView" where
  "applySection i n header =
     (case hv_sectionResizeMode header i of
        Interactive \<Rightarrow> resizeSection i (if n = - 1 then hv_sectionSizeHint header i else n) header
      | Fixed \<Rightarrow> resizeSection i (if n = - 1 then hv_sectionSizeHint header i else n) header
      | _ \<Rightarrow> header)"

text \<open>The loop over the default sizes of a header, from the section \<open>i\<close> on.\<close>

fun applyHeaderDefaults ::
  "Qt \<Rightarrow> QAbstractItemView \<Rightarrow> UISizeVector \<Rightarrow> nat \<Rightarrow> QHeaderView \<Rightarrow> error + QHeaderView" where
  "applyHeaderDefaults qt view [] i header = Inr header"
| "applyHeaderDefaults qt view (entry # rest) i header =
     (case headerEntry qt view header entry of
        Inl e \<Rightarrow> Inl e
      | Inr n \<Rightarrow> applyHeaderDefaults qt view rest (Suc i) (applySection i n header))"

definition setHeader :: "nat \<Rightarrow> QHeaderView \<Rightarrow> UIState \<Rightarrow> UIState" where
  "setHeader i header st = st\<lparr>headers := (headers st)[i := header]\<rparr>"

text \<open>The body of the loop of \<open>restoreHeaderState\<close>, for the header at \<open>i\<close>.\<close>

definition restoreHeader :: "Qt \<Rightarrow> nat \<Rightarrow> UIState \<Rightarrow> error + UIState" where
  "restoreHeader qt i st =
     (let (ok, st1) = checkWidget (HeaderRef i) st
      in if \<not> ok \<or> hv_count (headers st1 ! i) = 0 then Inr st1
         else
           let header = headers st1 ! i;
               state = settingsValue (m_stateSettings st1) (widgetStateKey st1 (HeaderRef i))
           in if state = [] then
                let (defaultSizes, st2) = defaultSizesHeader i st1;
                    view = views st2 (hv_view header)
                in if defaultSizes \<noteq> [] then
                     if length defaultSizes \<noteq> hv_count header then Inl SizesCountMismatch
                     else
                       (case applyHeaderDefaults qt view defaultSizes 0 header of
                          Inl e \<Rightarrow> Inl e
                        | Inr header' \<Rightarrow> Inr (setHeader i header' st2))
                   else Inr st2
              else if \<not> m_resizing st1 then
                Inr (setHeader i (header\<lparr>hv_state := state, hv_customized := True\<rparr>) st1)
              else Inr st1)"

definition headerTargets :: "nat option \<Rightarrow> UIState \<Rightarrow> nat list" where
  "headerTargets header st =
     (case header of
        Some i \<Rightarrow> (if i < length (headers st) then [i] else [])
      | None \<Rightarrow> [0..<length (headers st)])"

definition restoreHeaderState :: "Qt \<Rightarrow> nat option \<Rightarrow> UIState \<Rightarrow> error + UIState" where
  "restoreHeaderState qt header st =
     foldE (restoreHeader qt) (headerTargets header st) st"

definition saveHeader :: "nat \<Rightarrow> UIState \<Rightarrow> UIState" where
  "saveHeader i st =
     (let (ok, st1) = checkWidget (HeaderRef i) st
      in if \<not> ok \<or> hv_count (headers st1 ! i) = 0 \<or> \<not> hv_customized (headers st1 ! i) then st1
         else st1\<lparr>m_stateSettings :=
                    setValue (widgetStateKey st1 (HeaderRef i)) (hv_state (headers st1 ! i))
                      (m_stateSettings st1)\<rparr>)"

definition saveHeaderState :: "nat option \<Rightarrow> UIState \<Rightarrow> UIState" where
  "saveHeaderState header st = fold saveHeader (headerTargets header st) st"

subsection \<open>The window\<close>

text \<open>\<open>QRect::center\<close> adds in 64 bits: \<open>int((qint64(x1) + x2) / 2)\<close>; \<open>moveCenter\<close>
  computes in \<open>int\<close>.\<close>

definition center :: "QRect \<Rightarrow> int32 \<times> int32" where
  "center r = (word_of_int ((sint (x1 r) + sint (x2 r)) sdiv 2),
               word_of_int ((sint (y1 r) + sint (y2 r)) sdiv 2))"

definition moveCenter :: "int32 \<times> int32 \<Rightarrow> QRect \<Rightarrow> QRect" where
  "moveCenter p r =
     (let w = x2 r - x1 r; h = y2 r - y1 r;
          nx = fst p - intDiv w 2; ny = snd p - intDiv h 2
      in \<lparr>x1 = nx, y1 = ny, x2 = nx + w, y2 = ny + h\<rparr>)"

text \<open>\<open>QRect(QPoint(), QSize(1024, 768))\<close>\<close>

definition defaultRect :: QRect where
  "defaultRect = \<lparr>x1 = 0, y1 = 0, x2 = 1023, y2 = 767\<rparr>"

definition restoreWindowState :: "UIState \<Rightarrow> UIState" where
  "restoreWindowState st =
     (if w_isMainWindow (m_widget st) then
        let geometry = settingsValue (m_stateSettings st) (widgetGeometryKey st RootWidget);
            state = settingsValue (m_stateSettings st) (widgetStateKey st RootWidget)
        in if geometry = [] then
             st\<lparr>m_widget := (m_widget st)\<lparr>w_rect := moveCenter (center (screen st)) defaultRect\<rparr>\<rparr>
           else if \<not> m_resizing st then
             st\<lparr>m_widget := (m_widget st)\<lparr>w_geometry := geometry, w_state := state\<rparr>\<rparr>
           else st
      else st)"

definition saveWindowState :: "UIState \<Rightarrow> UIState" where
  "saveWindowState st =
     (if w_isMainWindow (m_widget st) then
        let s1 = setValue (widgetGeometryKey st RootWidget) (w_geometry (m_widget st))
                   (m_stateSettings st);
            s2 = setValue (widgetStateKey st RootWidget) (w_state (m_widget st)) s1
        in st\<lparr>m_stateSettings := s2\<rparr>
      else st)"

subsection \<open>Restoring and saving everything; setup and reset\<close>

definition restoreState :: "Qt \<Rightarrow> UIState \<Rightarrow> error + UIState" where
  "restoreState qt st =
     (case restoreSplitterState qt None (restoreWindowState st) of
        Inl e \<Rightarrow> Inl e
      | Inr st1 \<Rightarrow> restoreHeaderState qt None st1)"

definition saveState :: "UIState \<Rightarrow> UIState" where
  "saveState st = saveHeaderState None (saveSplitterState None (saveWindowState st))"

text \<open>The bodies of the two loops of \<open>setup\<close>; the set of known names runs through
  both.\<close>

fun setupSplitter :: "Qt \<Rightarrow> nat \<Rightarrow> QString set \<times> UIState \<Rightarrow> QString set \<times> UIState" where
  "setupSplitter qt i (knownNames, st) =
     (let (ok, st1) = checkWidget (SplitterRef i) st
      in if \<not> ok then (knownNames, st1)
         else
           let name = qt_toLower qt (objectName st1 (SplitterRef i))
           in if name \<in> knownNames then (knownNames, qWarning (DuplicateWidgetName name) st1)
              else (insert name knownNames,
                    st1\<lparr>splitterConnected := insert i (splitterConnected st1)\<rparr>))"

fun setupHeader :: "Qt \<Rightarrow> nat \<Rightarrow> QString set \<times> UIState \<Rightarrow> QString set \<times> UIState" where
  "setupHeader qt i (knownNames, st) =
     (let (ok, st1) = checkWidget (HeaderRef i) st
      in if \<not> ok then (knownNames, st1)
         else
           let name = qt_toLower qt (objectName st1 (HeaderRef i))
           in if name \<in> knownNames then (knownNames, qWarning (DuplicateWidgetName name) st1)
              else
                let view = hv_view (headers st1 ! i)
                in (insert name knownNames,
                    st1\<lparr>headerConnected := insert i (headerConnected st1),
                        viewFilters := insert view (viewFilters st1 - {view})\<rparr>))"

definition setupManager :: "Qt \<Rightarrow> UIState \<Rightarrow> error + UIState" where
  "setupManager qt st =
     (let (ok, st1) = checkWidget RootWidget st
      in if \<not> ok then Inr st1
         else
           let st2 = st1\<lparr>m_initialized := True,
                         m_stateSettings :=
                           beginGroup (''UiState/'' @ objectName st1 RootWidget) (m_stateSettings st1)\<rparr>;
               knownNames = {qt_toLower qt (objectName st2 RootWidget)};
               (knownNames1, st3) =
                 fold (setupSplitter qt) [0..<length (splitters st2)] (knownNames, st2);
               (knownNames2, st4) =
                 fold (setupHeader qt) [0..<length (headers st3)] (knownNames1, st3)
           in restoreState qt st4)"

definition reset :: "Qt \<Rightarrow> UIState \<Rightarrow> error + UIState" where
  "reset qt st =
     setupManager qt (st\<lparr>m_initialized := False, m_stateSettings := endGroup (m_stateSettings st)\<rparr>)"

subsection \<open>Events and slots\<close>

datatype QObject = RootObject | ViewObject nat

datatype QEvent = Hide | Show | Resize | OtherEvent

definition headersOfView :: "nat \<Rightarrow> UIState \<Rightarrow> nat list" where
  "headersOfView v st = filter (\<lambda>i. hv_view (headers st ! i) = v) [0..<length (headers st)]"

text \<open>Modelled from the spec: \<open>Util::SetTempValue\<close> (common/settempvalue.h is not among
  the sources), the guard object of \<open>widgetResized\<close>. The flag is set for the duration
  of the programmatic resize; when the guard goes out of scope the flag has its
  previous value again.\<close>

definition setTempValue :: "UIState \<Rightarrow> bool \<times> UIState" where
  "setTempValue st = (m_resizing st, st\<lparr>m_resizing := True\<rparr>)"

definition releaseTempValue :: "bool \<Rightarrow> UIState \<Rightarrow> UIState" where
  "releaseTempValue oldValue st = st\<lparr>m_resizing := oldValue\<rparr>"

text \<open>What \<open>widgetResized\<close> does while the guard is set.\<close>

definition widgetResizedBody :: "Qt \<Rightarrow> QObject \<Rightarrow> UIState \<Rightarrow> error + UIState" where
  "widgetResizedBody qt widget st =
     (case widget of
        RootObject \<Rightarrow>
          (case restoreSplitterState qt None st of
             Inl e \<Rightarrow> Inl e
           | Inr st1 \<Rightarrow> restoreHeaderState qt None st1)
      | ViewObject v \<Rightarrow>
          foldE (\<lambda>h. restoreHeaderState qt (Some h)) (headersOfView v st) st)"

definition widgetResized :: "Qt \<Rightarrow> QObject \<Rightarrow> UIState \<Rightarrow> error + UIState" where
  "widgetResized qt widget st =
     (let (oldValue, st1) = setTempValue st
      in case widgetResizedBody qt widget st1 of
           Inl e \<Rightarrow> Inl e
         | Inr st2 \<Rightarrow> Inr (releaseTempValue oldValue st2))"

definition eventFilter :: "Qt \<Rightarrow> QObject \<Rightarrow> QEvent \<Rightarrow> UIState \<Rightarrow> error + UIState" where
  "eventFilter qt object event st =
     (let st1 = (if object = RootObject \<and> event = Hide \<and> m_initialized st then saveState st
                 else st)
      in case (if object = RootObject \<and> event = Show \<and> \<not> m_initialized st1 then setupManager qt st1
               else Inr st1) of
           Inl e \<Rightarrow> Inl e
         | Inr st2 \<Rightarrow>
             if event = Resize \<and> m_initialized st2 \<and> \<not> m_resizing st2
             then widgetResized qt object st2
             else Inr st2)"

text \<open>Modelled from the spec: \<open>HeaderView::isState\<close> (deferredtreeview.h is not among
  the sources) tells whether the section is resized by a direct interactive drag. The
  answer comes with the sender of the signal, as the second argument of \<open>HeaderSender\<close>.\<close>

datatype Sender = SplitterSender nat | HeaderSender nat bool

definition widgetCustomized :: "Sender \<Rightarrow> UIState \<Rightarrow> UIState" where
  "widgetCustomized sender st =
     (case sender of
        SplitterSender i \<Rightarrow>
          saveSplitterState (Some i)
            (setSplitter i ((splitters st ! i)\<lparr>sp_customized := True\<rparr>) st)
      | HeaderSender i isResizeSection \<Rightarrow>
          if hv_isHeaderView (headers st ! i) then
            if isResizeSection then
              saveHeaderState (Some i)
                (setHeader i ((headers st ! i)\<lparr>hv_customized := True\<rparr>) st)
            else st
          else st)"

definition headerSectionCountChanged :: "Qt \<Rightarrow> nat \<Rightarrow> UIState \<Rightarrow> error + UIState" where
  "headerSectionCountChanged qt sender st = restoreHeaderState qt (Some sender) st"

text \<open>
  What reaches the manager: an event of an object on which it is installed as event
  filter, a signal of a widget that \<open>setup\<close> connected, and the calls of its interface.
\<close>

datatype Action =
    Event QObject QEvent
  | SplitterMoved nat
  | SectionResized nat bool
  | SectionCountChanged nat
  | Reset
  | SetDefaultSplitterSizes nat UISizeVector
  | SetDefaultHeaderSizes nat UISizeVector

definition filterInstalled :: "UIState \<Rightarrow> QObject \<Rightarrow> bool" where
  "filterInstalled st object =
     (case object of RootObject \<Rightarrow> True | ViewObject v \<Rightarrow> v \<in> viewFilters st)"

definition step :: "Qt \<Rightarrow> Action \<Rightarrow> UIState \<Rightarrow> error + UIState" where
  "step qt a st =
     (case a of
        Event object event \<Rightarrow>
          if filterInstalled st object then eventFilter qt object event st else Inr st
      | SplitterMoved i \<Rightarrow>
          if i < length (splitters st) \<and> i \<in> splitterConnected st
          then Inr (widgetCustomized (SplitterSender i) st) else Inr st
      | SectionResized i isResizeSection \<Rightarrow>
          if i < length (headers st) \<and> i \<in> headerConnected st
          then Inr (widgetCustomized (HeaderSender i isResizeSection) st) else Inr st
      | SectionCountChanged i \<Rightarrow>
          if i < length (headers st) \<and> i \<in> headerConnected st
          then headerSectionCountChanged qt i st else Inr st
      | Reset \<Rightarrow> reset qt st
      | SetDefaultSplitterSizes i v \<Rightarrow>
          if i < length (splitters st) then Inr (setDefaultSizesSplitter i v st) else Inr st
      | SetDefaultHeaderSizes i v \<Rightarrow>
          if i < length (headers st) then Inr (setDefaultSizesHeader i v st) else Inr st)"

definition run :: "Qt \<Rightarrow> Action list \<Rightarrow> UIState \<Rightarrow> error + UIState" where
  "run qt as st = foldE (step qt) as st"

subsection \<open>What a loop body does to its widget\<close>

text \<open>
  The body of the loop of \<open>restoreSplitterState\<close> reads the settings, the registered
  default sizes and the guard flag, and changes its own splitter only. This is its
  effect on that splitter, used to state what the loops do.
\<close>

definition splitterRestored ::
  "Qt \<Rightarrow> QSettings \<Rightarrow> (QString \<rightharpoonup> UISizeVector) \<Rightarrow> bool \<Rightarrow> QSplitter \<Rightarrow> error + QSplitter" where
  "splitterRestored qt settings defaults resizing sp =
     (if sp_objectName sp = [] then Inr sp
      else
        let state = settingsValue settings (sp_objectName sp @ ''State'')
        in if state = [] then
             let defaultSizes = hashValue defaults (sp_objectName sp)
             in if defaultSizes \<noteq> [] then
                  if length defaultSizes \<noteq> sp_count sp then Inl SizesCountMismatch
                  else
                    (case splitterEntries qt sp defaultSizes of
                       Inl e \<Rightarrow> Inl e
                     | Inr sizes \<Rightarrow>
                         Inr (sp\<lparr>sp_sizes := distributeSpace sizes (splitterExtent sp)
                                                 (sp_handleWidth sp)\<rparr>))
                else Inr sp
           else if \<not> resizing then Inr (sp\<lparr>sp_state := state, sp_customized := True\<rparr>)
           else Inr sp)"

text \<open>The same for the body of the loop of \<open>restoreHeaderState\<close>, which also reads
  the extent of the view of the header.\<close>

definition headerRestored ::
  "Qt \<Rightarrow> QSettings \<Rightarrow> (QString \<rightharpoonup> UISizeVector) \<Rightarrow> bool \<Rightarrow> (nat \<Rightarrow> QAbstractItemView)
     \<Rightarrow> QHeaderView \<Rightarrow> error + QHeaderView" where
  "headerRestored qt settings defaults resizing vs header =
     (if hv_objectName header = [] \<or> hv_count header = 0 then Inr header
      else
        let state = settingsValue settings (hv_objectName header @ ''State'')
        in if state = [] then
             let defaultSizes = hashValue defaults (hv_objectName header)
             in if defaultSizes \<noteq> [] then
                  if length defaultSizes \<noteq> hv_count header then Inl SizesCountMismatch
                  else applyHeaderDefaults qt (vs (hv_view header)) defaultSizes 0 header
                else Inr header
           else if \<not> resizing then Inr (header\<lparr>hv_state := state, hv_customized := True\<rparr>)
           else Inr header)"

text \<open>What the bodies of the loops of \<open>saveSplitterState\<close> and \<open>saveHeaderState\<close> do
  to the settings.\<close>

definition splitterSaved :: "QSplitter \<Rightarrow> QSettings \<Rightarrow> QSettings" where
  "splitterSaved sp s =
     (if sp_objectName sp \<noteq> [] \<and> sp_customized sp
      then setValue (sp_objectName sp @ ''State'') (sp_state sp) s else s)"

definition headerSaved :: "QHeaderView \<Rightarrow> QSettings \<Rightarrow> QSettings" where
  "headerSaved header s =
     (if hv_objectName header \<noteq> [] \<and> hv_count header \<noteq> 0 \<and> hv_customized header
      then setValue (hv_objectName header @ ''State'') (hv_state header) s else s)"

text \<open>The size that the default entry \<open>entry\<close> gives to the section \<open>c\<close> of a header:
  the pixels, the percentage of the extent of the view, or the size hint of the section
  for \<open>-1\<close>.\<close>

definition sectionDefault :: "Qt \<Rightarrow> QAbstractItemView \<Rightarrow> QHeaderView \<Rightarrow> QVariant \<Rightarrow> nat \<Rightarrow> int32" where
  "sectionDefault qt view header entry c =
     (case headerEntry qt view header entry of
        Inl e \<Rightarrow> 0
      | Inr n \<Rightarrow> if n = - 1 then hv_sectionSizeHint header c else n)"

definition resizableSection :: "QHeaderView \<Rightarrow> nat \<Rightarrow> bool" where
  "resizableSection header c =
     (hv_sectionResizeMode header c = Interactive \<or> hv_sectionResizeMode header c = Fixed)"

text \<open>The default sizes that the restore functions apply to the splitter or to the header
  at \<open>i\<close>, if any: the registered vector, when the widget has a name (and, for a header,
  sections), the settings hold no state for it and the vector is not empty.\<close>

definition appliedSplitterDefaults :: "UIState \<Rightarrow> nat \<Rightarrow> UISizeVector option" where
  "appliedSplitterDefaults st i =
     (let sp = splitters st ! i;
          d = hashValue (m_defaultSplitterSizes st) (sp_objectName sp)
      in if sp_objectName sp \<noteq> []
            \<and> settingsValue (m_stateSettings st) (widgetStateKey st (SplitterRef i)) = []
            \<and> d \<noteq> []
         then Some d else None)"

definition appliedHeaderDefaults :: "UIState \<Rightarrow> nat \<Rightarrow> UISizeVector option" where
  "appliedHeaderDefaults st i =
     (let h = headers st ! i;
          d = hashValue (m_defaultHeaderSizes st) (hv_objectName h)
      in if hv_objectName h \<noteq> [] \<and> hv_count h \<noteq> 0
            \<and> settingsValue (m_stateSettings st) (widgetStateKey st (HeaderRef i)) = []
            \<and> d \<noteq> []
         then Some d else None)"

text \<open>A manager that is not initialised, has no signal connected and observes a root
  widget without a name; and two states with the same widgets and the same values in the
  settings.\<close>

definition inert :: "UIState \<Rightarrow> bool" where
  "inert st \<longleftrightarrow> w_objectName (m_widget st) = [] \<and> \<not> m_initialized st
     \<and> splitterConnected st = {} \<and> headerConnected st = {}"

definition sameWidgetsAndValues :: "UIState \<Rightarrow> UIState \<Rightarrow> bool" where
  "sameWidgetsAndValues st st' \<longleftrightarrow>
     qs_values (m_stateSettings st') = qs_values (m_stateSettings st)
     \<and> splitters st' = splitters st \<and> headers st' = headers st \<and> m_widget st' = m_widget st"

text \<open>A splitter or header whose name is, in lower case, the name of the root widget or
  of a named widget that \<open>setup\<close> visits before it (the splitters come before the
  headers).\<close>

definition duplicateSplitterName :: "Qt \<Rightarrow> UIState \<Rightarrow> nat \<Rightarrow> bool" where
  "duplicateSplitterName qt st j \<longleftrightarrow>
     sp_objectName (splitters st ! j) \<noteq> []
     \<and> (qt_toLower qt (sp_objectName (splitters st ! j)) = qt_toLower qt (w_objectName (m_widget st))
        \<or> (\<exists>i<j. sp_objectName (splitters st ! i) \<noteq> []
              \<and> qt_toLower qt (sp_objectName (splitters st ! i))
                  = qt_toLower qt (sp_objectName (splitters st ! j))))"

definition duplicateHeaderName :: "Qt \<Rightarrow> UIState \<Rightarrow> nat \<Rightarrow> bool" where
  "duplicateHeaderName qt st j \<longleftrightarrow>
     hv_objectName (headers st ! j) \<noteq> []
     \<and> (qt_toLower qt (hv_objectName (headers st ! j)) = qt_toLower qt (w_objectName (m_widget st))
        \<or> (\<exists>i<length (splitters st). sp_objectName (splitters st ! i) \<noteq> []
              \<and> qt_toLower qt (sp_objectName (splitters st ! i))
                  = qt_toLower qt (hv_objectName (headers st ! j)))
        \<or> (\<exists>i<j. hv_objectName (headers st ! i) \<noteq> []
              \<and> qt_toLower qt (hv_objectName (headers st ! i))
                  = qt_toLower qt (hv_objectName (headers st ! j))))"

text \<open>What \<open>restoreWindowState\<close> does to the root widget.\<close>

definition windowRestored :: "QSettings \<Rightarrow> QRect \<Rightarrow> bool \<Rightarrow> QWidget \<Rightarrow> QWidget" where
  "windowRestored settings sc resizing w =
     (if w_isMainWindow w then
        let geometry = settingsValue settings (w_objectName w @ ''Geometry'');
            state = settingsValue settings (w_objectName w @ ''State'')
        in if geometry = [] then w\<lparr>w_rect := moveCenter (center sc) defaultRect\<rparr>
           else if \<not> resizing then w\<lparr>w_geometry := geometry, w_state := state\<rparr>
           else w
      else w)"

definition noNameWarning :: "WidgetRef \<Rightarrow> QString \<Rightarrow> Warning list" where
  "noNameWarning w name = (if name = [] then [WidgetWithNoName w] else [])"

text \<open>The sum of the entries of \<open>rs\<close> other than the one at \<open>w\<close>.\<close>

definition fixedSum :: "int32 list \<Rightarrow> nat \<Rightarrow> int32" where
  "fixedSum rs w = sum_list (take w rs) + sum_list (drop (Suc w) rs)"

subsection \<open>An instance of the toolkit and of the widgets\<close>

text \<open>Base-10 parsing that yields 0 for anything but an optional minus sign followed
  by digits, and for a number that does not fit an \<open>int\<close>; and lowering of the ASCII
  letters.\<close>

definition digitValue :: "char \<Rightarrow> nat option" where
  "digitValue c =
     (let n = (of_char c :: nat) in if 48 \<le> n \<and> n \<le> 57 then Some (n - 48) else None)"

fun digitsValue :: "nat \<Rightarrow> QString \<Rightarrow> nat option" where
  "digitsValue acc [] = Some acc"
| "digitsValue acc (c # cs) =
     (case digitValue c of None \<Rightarrow> None | Some d \<Rightarrow> digitsValue (10 * acc + d) cs)"

definition decimalToInt :: "QString \<Rightarrow> int32" where
  "decimalToInt s =
     (case s of
        [] \<Rightarrow> 0
      | c # cs \<Rightarrow>
          if c = CHR ''-'' then
            (case cs of
               [] \<Rightarrow> 0
             | _ \<Rightarrow> (case digitsValue 0 cs of
                       None \<Rightarrow> 0
                     | Some n \<Rightarrow> if n \<le> 2147483648 then - of_nat n else 0))
          else (case digitsValue 0 s of
                  None \<Rightarrow> 0
                | Some n \<Rightarrow> if n \<le> 2147483647 then of_nat n else 0))"

definition asciiToLower :: "QString \<Rightarrow> QString" where
  "asciiToLower s =
     map (\<lambda>c. case map_of (zip ''ABCDEFGHIJKLMNOPQRSTUVWXYZ'' ''abcdefghijklmnopqrstuvwxyz'') c of
                None \<Rightarrow> c | Some l \<Rightarrow> l) s"

definition exampleQt :: Qt where
  "exampleQt = \<lparr>qt_toInt = decimalToInt, qt_toLower = asciiToLower\<rparr>"

definition exampleRoot :: QWidget where
  "exampleRoot =
     \<lparr>w_objectName = ''MainWindow'', w_isMainWindow = True, w_rect = defaultRect,
      w_geometry = [], w_state = []\<rparr>"

definition exampleSplitter :: QSplitter where
  "exampleSplitter =
     \<lparr>sp_objectName = ''mainSplitter'', sp_orientation = Horizontal, sp_width = 1000,
      sp_height = 600, sp_handleWidth = 5, sp_count = 3, sp_customized = False,
      sp_sizes = [], sp_state = [1, 2, 3]\<rparr>"

definition exampleHeader :: QHeaderView where
  "exampleHeader =
     \<lparr>hv_objectName = ''treeHeader'', hv_orientation = Horizontal, hv_view = 0, hv_count = 3,
      hv_isHeaderView = True, hv_customized = False,
      hv_sectionResizeMode = (\<lambda>c. if c = 1 then Stretch else Interactive),
      hv_sectionSizeHint = (\<lambda>c. 80), hv_sectionSize = (\<lambda>c. 100), hv_state = [4, 5]\<rparr>"

definition exampleSplitterSizes :: UISizeVector where
  "exampleSplitterSizes = [VInt 200, VString ''-1%'', VString ''30%'']"

definition exampleHeaderSizes :: UISizeVector where
  "exampleHeaderSizes = [VString ''50%'', VInt 120, VInt (- 1)]"

text \<open>The state after the constructor and two calls of \<open>setDefaultSizes\<close>, with an
  empty settings store.\<close>

definition exampleState :: UIState where
  "exampleState =
     \<lparr>m_widget = exampleRoot, splitters = [exampleSplitter], headers = [exampleHeader],
      views = (\<lambda>v. \<lparr>av_width = 400, av_height = 300\<rparr>),
      screen = \<lparr>x1 = 0, y1 = 0, x2 = 1919, y2 = 1079\<rparr>,
      m_stateSettings = \<lparr>qs_values = Map.empty, qs_groupStack = []\<rparr>,
      m_initialized = False, m_resizing = False,
      m_defaultSplitterSizes = [''mainSplitter'' \<mapsto> exampleSplitterSizes],
      m_defaultHeaderSizes = [''treeHeader'' \<mapsto> exampleHeaderSizes],
      splitterConnected = {}, headerConnected = {}, viewFilters = {}, warnings = []\<rparr>"

text \<open>The example after the root widget was shown and the user moved the splitter: the
  defaults are applied, the splitter is marked customized and its state is saved.\<close>

definition exampleMoved :: UIState where
  "exampleMoved =
     exampleState
       \<lparr>m_widget := exampleRoot\<lparr>w_rect := \<lparr>x1 = 448, y1 = 156, x2 = 1471, y2 = 923\<rparr>\<rparr>,
        splitters := [exampleSplitter\<lparr>sp_sizes := [200, 480, 300], sp_customized := True\<rparr>],
        headers := [exampleHeader\<lparr>hv_sectionSize := (\<lambda>c. 100)(0 := 200, 2 := 80)\<rparr>],
        m_stateSettings :=
          \<lparr>qs_values = [''UiState/MainWindow/mainSplitterState'' \<mapsto> [1, 2, 3]],
           qs_groupStack = [''UiState/MainWindow'']\<rparr>,
        m_initialized := True, splitterConnected := {0}, headerConnected := {0},
        viewFilters := {0}\<rparr>"

text \<open>The example with a vertical splitter, and with default sizes whose sum does not
  fit an \<open>int\<close>.\<close>

definition exampleVertical :: UIState where
  "exampleVertical = exampleState\<lparr>splitters := [exampleSplitter\<lparr>sp_orientation := Vertical\<rparr>]\<rparr>"

definition exampleOverflow :: UIState where
  "exampleOverflow =
     exampleState
       \<lparr>splitters := [exampleSplitter\<lparr>sp_width := 0, sp_handleWidth := 0\<rparr>],
        m_defaultSplitterSizes :=
          [''mainSplitter'' \<mapsto> [VInt 2147483647, VInt 2147483647, VInt (- 1)]]\<rparr>"

text \<open>The example with an initialised manager and a splitter that is 2000 wide and has
  not been laid out yet; and the same after a resize event of the root widget.\<close>

definition exampleWide :: UIState where
  "exampleWide =
     exampleState
       \<lparr>splitters := [exampleSplitter\<lparr>sp_width := 2000\<rparr>],
        m_stateSettings := \<lparr>qs_values = Map.empty, qs_groupStack = [''UiState/MainWindow'']\<rparr>,
        m_initialized := True\<rparr>"

definition exampleWideResized :: UIState where
  "exampleWideResized =
     exampleWide
       \<lparr>splitters := [exampleSplitter\<lparr>sp_width := 2000, sp_sizes := [200, 1180, 600]\<rparr>],
        headers := [exampleHeader\<lparr>hv_sectionSize := (\<lambda>c. 100)(0 := 200, 2 := 80)\<rparr>]\<rparr>"

text \<open>The example after a first setup on an empty store and a widening of the splitter;
  and the example after the user moved the splitter, widened likewise.\<close>

definition exampleWidened :: UIState where
  "exampleWidened =
     exampleWide\<lparr>splitters := [exampleSplitter\<lparr>sp_width := 2000, sp_sizes := [200, 480, 300]\<rparr>]\<rparr>"

definition exampleMovedWidened :: UIState where
  "exampleMovedWidened =
     setSplitter 0 ((splitters exampleMoved ! 0)\<lparr>sp_width := 2000\<rparr>) exampleMoved"

text \<open>The example with a second splitter of the same name, and with a header that has
  no name.\<close>

definition exampleDuplicate :: UIState where
  "exampleDuplicate =
     exampleState
       \<lparr>splitters := [exampleSplitter, exampleSplitter\<lparr>sp_state := [7]\<rparr>],
        headers := [exampleHeader\<lparr>hv_objectName := [], hv_customized := True\<rparr>]\<rparr>"

text \<open>Three runs of the examples. The splitter is customized and saved, the toolkit then
  gives it another state, and a resize event of the root widget arrives.\<close>

definition exampleResizedAfterSave :: "error + UIState" where
  "exampleResizedAfterSave =
     eventFilter exampleQt RootObject Resize
       (setSplitter 0 ((splitters exampleMoved ! 0)\<lparr>sp_state := [9]\<rparr>) (saveState exampleMoved))"

text \<open>With two splitters of the same name: the root widget is shown, the user moves the
  first splitter, the root widget is hidden, and \<open>reset\<close> is called.\<close>

definition exampleDuplicateRun :: "error + UIState" where
  "exampleDuplicateRun =
     run exampleQt [Event RootObject Show, SplitterMoved 0, Event RootObject Hide, Reset]
       exampleDuplicate"

text \<open>The splitter is customized and saved, the window is made wider, and \<open>reset\<close> is
  called; and the first run of the same widgets, as wide, on an empty store.\<close>

definition exampleResetRun :: "error + UIState" where
  "exampleResetRun =
     reset exampleQt
       (setSplitter 0 ((splitters exampleMoved ! 0)\<lparr>sp_width := 2000\<rparr>) exampleMoved)"

definition exampleFirstRun :: "error + UIState" where
  "exampleFirstRun =
     setupManager exampleQt (setSplitter 0 (exampleSplitter\<lparr>sp_width := 2000\<rparr>) exampleState)"

section \<open>Auxiliary facts\<close>

subsection \<open>The restore loop over the splitters, and distributeSpace\<close>

lemma intDiv_one: "intDiv k 1 = k"
  by (simp add: intDiv_def signed_divide_int_def mult_sgn_abs)

lemma objectName_simps:
  "objectName st RootWidget = w_objectName (m_widget st)"
  "objectName st (SplitterRef i) = sp_objectName (splitters st ! i)"
  "objectName st (HeaderRef i) = hv_objectName (headers st ! i)"
  by (simp_all add: objectName_def)

lemma restoreSplitter_eq:
  "restoreSplitter qt i st =
     (case splitterRestored qt (m_stateSettings st) (m_defaultSplitterSizes st) (m_resizing st)
             (splitters st ! i) of
        Inl e \<Rightarrow> Inl e
      | Inr sp' \<Rightarrow>
          Inr (st\<lparr>splitters := (splitters st)[i := sp'],
                  warnings := warnings st @ noNameWarning (SplitterRef i) (sp_objectName (splitters st ! i))\<rparr>))"
  by (simp add: restoreSplitter_def splitterRestored_def checkWidget_def qWarning_def
      objectName_simps widgetStateKey_def defaultSizesSplitter_def setSplitter_def Let_def
      noNameWarning_def split: sum.splits)

lemma foldE_restoreSplitter:
  "foldE (restoreSplitter qt) is st = Inr st' \<Longrightarrow> distinct is \<Longrightarrow>
     \<exists>ss ws. st' = st\<lparr>splitters := ss, warnings := ws\<rparr>
     \<and> length ss = length (splitters st)
     \<and> (\<forall>j. j \<notin> set is \<longrightarrow> ss ! j = splitters st ! j)
     \<and> (\<forall>j. j \<in> set is \<longrightarrow> j < length (splitters st) \<longrightarrow>
            splitterRestored qt (m_stateSettings st) (m_defaultSplitterSizes st) (m_resizing st)
              (splitters st ! j) = Inr (ss ! j))"
proof (induction "is" arbitrary: st)
  case Nil
  from Nil have "st' = st" by simp
  then show ?case
    by (intro exI [of _ "splitters st"] exI [of _ "warnings st"]) simp
next
  case (Cons a rest)
  from Cons.prems(1) obtain s1 where s1: "restoreSplitter qt a st = Inr s1"
    and rest: "foldE (restoreSplitter qt) rest s1 = Inr st'"
    by (auto split: sum.splits)
  from s1 obtain sp' where sp': "splitterRestored qt (m_stateSettings st) (m_defaultSplitterSizes st)
        (m_resizing st) (splitters st ! a) = Inr sp'"
    and s1_eq: "s1 = st\<lparr>splitters := (splitters st)[a := sp'],
                  warnings := warnings st @ noNameWarning (SplitterRef a) (sp_objectName (splitters st ! a))\<rparr>"
    by (auto simp: restoreSplitter_eq split: sum.splits)
  from Cons.prems(2) have d: "distinct rest" and a: "a \<notin> set rest" by auto
  from Cons.IH [OF rest d] obtain ss ws where
    e: "st' = s1\<lparr>splitters := ss, warnings := ws\<rparr>"
    and l: "length ss = length (splitters s1)"
    and o: "\<forall>j. j \<notin> set rest \<longrightarrow> ss ! j = splitters s1 ! j"
    and r: "\<forall>j. j \<in> set rest \<longrightarrow> j < length (splitters s1) \<longrightarrow>
            splitterRestored qt (m_stateSettings s1) (m_defaultSplitterSizes s1) (m_resizing s1)
              (splitters s1 ! j) = Inr (ss ! j)"
    by blast
  have e': "st' = st\<lparr>splitters := ss, warnings := ws\<rparr>"
    by (simp add: e s1_eq)
  have l': "length ss = length (splitters st)"
    by (simp add: l s1_eq)
  have o': "\<forall>j. j \<notin> set (a # rest) \<longrightarrow> ss ! j = splitters st ! j"
    using o by (simp add: s1_eq)
  have r': "\<forall>j. j \<in> set (a # rest) \<longrightarrow> j < length (splitters st) \<longrightarrow>
            splitterRestored qt (m_stateSettings st) (m_defaultSplitterSizes st) (m_resizing st)
              (splitters st ! j) = Inr (ss ! j)"
  proof (intro allI impI)
    fix j assume j: "j \<in> set (a # rest)" and jl: "j < length (splitters st)"
    show "splitterRestored qt (m_stateSettings st) (m_defaultSplitterSizes st) (m_resizing st)
              (splitters st ! j) = Inr (ss ! j)"
    proof (cases "j = a")
      case True
      with a o have "ss ! j = splitters s1 ! j" by simp
      with True jl sp' show ?thesis by (simp add: s1_eq)
    next
      case False
      with j have "j \<in> set rest" by simp
      with r jl have "splitterRestored qt (m_stateSettings s1) (m_defaultSplitterSizes s1) (m_resizing s1)
              (splitters s1 ! j) = Inr (ss ! j)" by (simp add: s1_eq)
      with False show ?thesis by (simp add: s1_eq)
    qed
  qed
  from e' l' o' r' show ?case by blast
qed

lemma filter_upt_single:
  assumes "w < n" "P w" "\<forall>j<n. j \<noteq> w \<longrightarrow> \<not> P j"
  shows "filter P [0..<n] = [w]"
proof -
  have a: "[0..<n] = [0..<w] @ [w..<n]"
    using upt_add_eq_append [of 0 w "n - w"] assms(1) by simp
  have b: "[w..<n] = w # [Suc w..<n]"
    using assms(1) by (simp add: upt_conv_Cons)
  have c: "filter P [0..<w] = []"
    using assms by (simp add: filter_empty_conv)
  have d: "filter P [Suc w..<n] = []"
    using assms by (simp add: filter_empty_conv)
  show ?thesis
    by (simp add: a b c d assms(2))
qed

lemma filter_fixed:
  assumes "w < length rs" "rs ! w = - 1" "\<forall>j<length rs. j \<noteq> w \<longrightarrow> rs ! j \<noteq> - 1"
  shows "filter (\<lambda>x. x \<noteq> - 1) rs = take w rs @ drop (Suc w) (rs :: int32 list)"
proof -
  have t: "\<forall>x\<in>set (take w rs). x \<noteq> - 1"
    using assms by (auto simp: in_set_conv_nth)
  have d: "\<forall>x\<in>set (drop (Suc w) rs). x \<noteq> - 1"
    using assms by (auto simp: in_set_conv_nth)
  have "filter (\<lambda>x. x \<noteq> - 1) rs
        = filter (\<lambda>x. x \<noteq> - 1) (take w rs @ rs ! w # drop (Suc w) rs)"
    using id_take_nth_drop [OF assms(1)] by simp
  also have "\<dots> = take w rs @ drop (Suc w) rs"
    using t d assms(2) by simp
  finally show ?thesis .
qed

lemma distributeSpace_one:
  assumes "w < length rs" "rs ! w = - 1" "\<forall>j<length rs. j \<noteq> w \<longrightarrow> rs ! j \<noteq> - 1"
  shows "distributeSpace rs extent hw =
           rs[w := extent - fixedSum rs w - (of_nat (length rs) + 1) * hw]"
  using assms
  by (simp add: distributeSpace_def filter_upt_single [of w "length rs"] filter_fixed [of w rs]
      intDiv_one fixedSum_def algebra_simps)

lemma sum_list_update_one:
  "w < length rs \<Longrightarrow> sum_list (rs[w := v]) = fixedSum rs w + (v::int32)"
  by (simp add: upd_conv_take_nth_drop fixedSum_def)

lemma splitterEntries_length:
  "splitterEntries qt sp spec = Inr rs \<Longrightarrow> length rs = length spec"
  by (induction spec arbitrary: rs) (auto split: sum.splits)

lemma sint_word_of_int_range:
  "- 2147483648 \<le> k \<Longrightarrow> k \<le> 2147483647 \<Longrightarrow> sint (word_of_int k :: int32) = k"
  by (simp add: sint_sbintrunc' signed_take_bit_int_eq_self)

lemma word_of_int_sum_list_sint:
  "word_of_int (sum_list (map sint xs)) = sum_list (xs :: int32 list)"
  by (induction xs) simp_all

lemma splitterEntries_map:
  "VOther \<notin> set spec \<Longrightarrow>
     splitterEntries qt sp spec =
       Inr (map (\<lambda>entry. case entry of
                   VInt n \<Rightarrow> n
                 | VString s \<Rightarrow>
                     if percentToInt qt s = - 1 then - 1
                     else intDiv ((if sp_orientation sp = Horizontal then sp_width sp
                                   else sp_height sp) * percentToInt qt s) 100
                 | VOther \<Rightarrow> 0) spec)"
  by (induction spec) (auto simp: splitterEntry_def Let_def split: QVariant.splits)

lemma sum_list_sint_update_one:
  "w < length rs \<Longrightarrow>
     sum_list (map sint (rs[w := v])) = sum_list (map sint (take w rs @ drop (Suc w) rs)) + sint v"
  by (simp add: upd_conv_take_nth_drop)

lemma splitterTargets_distinct: "distinct (splitterTargets sel st)"
  by (simp add: splitterTargets_def split: option.splits)

lemma exampleSplitter_entries: "splitterEntries exampleQt exampleSplitter exampleSplitterSizes = Inr [200, - 1, 300]"
  by (simp add: exampleSplitterSizes_def splitterEntry_def percentToInt_def exampleQt_def
      decimalToInt_def digitValue_def exampleSplitter_def intDiv_def)

lemma foldE_restoreSplitter_fails:
  "foldE (restoreSplitter qt) is st = Inl e \<Longrightarrow> distinct is \<Longrightarrow>
     \<exists>j\<in>set is. splitterRestored qt (m_stateSettings st) (m_defaultSplitterSizes st)
                   (m_resizing st) (splitters st ! j) = Inl e"
proof (induction "is" arbitrary: st)
  case Nil
  then show ?case by simp
next
  case (Cons a rest)
  show ?case
  proof (cases "restoreSplitter qt a st")
    case (Inl e')
    with Cons.prems(1) have "e' = e" by simp
    with Inl show ?thesis
      by (auto simp: restoreSplitter_eq split: sum.splits)
  next
    case (Inr s1)
    with Cons.prems(1) have rest: "foldE (restoreSplitter qt) rest s1 = Inl e" by simp
    from Inr obtain sp' where
      s1_eq: "s1 = st\<lparr>splitters := (splitters st)[a := sp'],
                  warnings := warnings st @ noNameWarning (SplitterRef a) (sp_objectName (splitters st ! a))\<rparr>"
      by (auto simp: restoreSplitter_eq split: sum.splits)
    from Cons.prems(2) have d: "distinct rest" and a: "a \<notin> set rest" by auto
    from Cons.IH [OF rest d] obtain j where j: "j \<in> set rest"
      and f: "splitterRestored qt (m_stateSettings s1) (m_defaultSplitterSizes s1)
                   (m_resizing s1) (splitters s1 ! j) = Inl e" by blast
    from j a have "j \<noteq> a" by auto
    with f have "splitterRestored qt (m_stateSettings st) (m_defaultSplitterSizes st)
                   (m_resizing st) (splitters st ! j) = Inl e"
      by (simp add: s1_eq)
    with j show ?thesis by auto
  qed
qed

subsection \<open>The restore loop over the headers\<close>

lemma restoreHeader_eq:
  "restoreHeader qt i st =
     (case headerRestored qt (m_stateSettings st) (m_defaultHeaderSizes st) (m_resizing st)
             (views st) (headers st ! i) of
        Inl e \<Rightarrow> Inl e
      | Inr h' \<Rightarrow>
          Inr (st\<lparr>headers := (headers st)[i := h'],
                  warnings := warnings st @ noNameWarning (HeaderRef i) (hv_objectName (headers st ! i))\<rparr>))"
  by (simp add: restoreHeader_def headerRestored_def checkWidget_def qWarning_def
      objectName_simps widgetStateKey_def defaultSizesHeader_def setHeader_def Let_def
      noNameWarning_def split: sum.splits)

lemma foldE_restoreHeader:
  "foldE (restoreHeader qt) is st = Inr st' \<Longrightarrow> distinct is \<Longrightarrow>
     \<exists>hs ws. st' = st\<lparr>headers := hs, warnings := ws\<rparr>
     \<and> length hs = length (headers st)
     \<and> (\<forall>j. j \<notin> set is \<longrightarrow> hs ! j = headers st ! j)
     \<and> (\<forall>j. j \<in> set is \<longrightarrow> j < length (headers st) \<longrightarrow>
            headerRestored qt (m_stateSettings st) (m_defaultHeaderSizes st) (m_resizing st)
              (views st) (headers st ! j) = Inr (hs ! j))"
proof (induction "is" arbitrary: st)
  case Nil
  from Nil have "st' = st" by simp
  then show ?case
    by (intro exI [of _ "headers st"] exI [of _ "warnings st"]) simp
next
  case (Cons a rest)
  from Cons.prems(1) obtain s1 where s1: "restoreHeader qt a st = Inr s1"
    and rest: "foldE (restoreHeader qt) rest s1 = Inr st'"
    by (auto split: sum.splits)
  from s1 obtain h' where h': "headerRestored qt (m_stateSettings st) (m_defaultHeaderSizes st)
        (m_resizing st) (views st) (headers st ! a) = Inr h'"
    and s1_eq: "s1 = st\<lparr>headers := (headers st)[a := h'],
                  warnings := warnings st @ noNameWarning (HeaderRef a) (hv_objectName (headers st ! a))\<rparr>"
    by (auto simp: restoreHeader_eq split: sum.splits)
  from Cons.prems(2) have d: "distinct rest" and a: "a \<notin> set rest" by auto
  from Cons.IH [OF rest d] obtain hs ws where
    e: "st' = s1\<lparr>headers := hs, warnings := ws\<rparr>"
    and l: "length hs = length (headers s1)"
    and o: "\<forall>j. j \<notin> set rest \<longrightarrow> hs ! j = headers s1 ! j"
    and r: "\<forall>j. j \<in> set rest \<longrightarrow> j < length (headers s1) \<longrightarrow>
            headerRestored qt (m_stateSettings s1) (m_defaultHeaderSizes s1) (m_resizing s1)
              (views s1) (headers s1 ! j) = Inr (hs ! j)"
    by blast
  have e': "st' = st\<lparr>headers := hs, warnings := ws\<rparr>"
    by (simp add: e s1_eq)
  have l': "length hs = length (headers st)"
    by (simp add: l s1_eq)
  have o': "\<forall>j. j \<notin> set (a # rest) \<longrightarrow> hs ! j = headers st ! j"
    using o by (simp add: s1_eq)
  have r': "\<forall>j. j \<in> set (a # rest) \<longrightarrow> j < length (headers st) \<longrightarrow>
            headerRestored qt (m_stateSettings st) (m_defaultHeaderSizes st) (m_resizing st)
              (views st) (headers st ! j) = Inr (hs ! j)"
  proof (intro allI impI)
    fix j assume j: "j \<in> set (a # rest)" and jl: "j < length (headers st)"
    show "headerRestored qt (m_stateSettings st) (m_defaultHeaderSizes st) (m_resizing st)
              (views st) (headers st ! j) = Inr (hs ! j)"
    proof (cases "j = a")
      case True
      with a o have "hs ! j = headers s1 ! j" by simp
      with True jl h' show ?thesis by (simp add: s1_eq)
    next
      case False
      with j have "j \<in> set rest" by simp
      with r jl have "headerRestored qt (m_stateSettings s1) (m_defaultHeaderSizes s1) (m_resizing s1)
              (views s1) (headers s1 ! j) = Inr (hs ! j)" by (simp add: s1_eq)
      with False show ?thesis by (simp add: s1_eq)
    qed
  qed
  from e' l' o' r' show ?case by blast
qed

lemma foldE_restoreHeader_fails:
  "foldE (restoreHeader qt) is st = Inl e \<Longrightarrow> distinct is \<Longrightarrow>
     \<exists>j\<in>set is. headerRestored qt (m_stateSettings st) (m_defaultHeaderSizes st)
                   (m_resizing st) (views st) (headers st ! j) = Inl e"
proof (induction "is" arbitrary: st)
  case Nil
  then show ?case by simp
next
  case (Cons a rest)
  show ?case
  proof (cases "restoreHeader qt a st")
    case (Inl e')
    with Cons.prems(1) have "e' = e" by simp
    with Inl show ?thesis
      by (auto simp: restoreHeader_eq split: sum.splits)
  next
    case (Inr s1)
    with Cons.prems(1) have rest: "foldE (restoreHeader qt) rest s1 = Inl e" by simp
    from Inr obtain h' where
      s1_eq: "s1 = st\<lparr>headers := (headers st)[a := h'],
                  warnings := warnings st @ noNameWarning (HeaderRef a) (hv_objectName (headers st ! a))\<rparr>"
      by (auto simp: restoreHeader_eq split: sum.splits)
    from Cons.prems(2) have d: "distinct rest" and a: "a \<notin> set rest" by auto
    from Cons.IH [OF rest d] obtain j where j: "j \<in> set rest"
      and f: "headerRestored qt (m_stateSettings s1) (m_defaultHeaderSizes s1)
                   (m_resizing s1) (views s1) (headers s1 ! j) = Inl e" by blast
    from j a have "j \<noteq> a" by auto
    with f have "headerRestored qt (m_stateSettings st) (m_defaultHeaderSizes st)
                   (m_resizing st) (views st) (headers st ! j) = Inl e"
      by (simp add: s1_eq)
    with j show ?thesis by auto
  qed
qed

lemma headerTargets_distinct: "distinct (headerTargets sel st)"
  by (simp add: headerTargets_def split: option.splits)

subsection \<open>The save loops\<close>

lemma saveSplitter_eq:
  "saveSplitter i st =
     st\<lparr>m_stateSettings := splitterSaved (splitters st ! i) (m_stateSettings st),
        warnings := warnings st @ noNameWarning (SplitterRef i) (sp_objectName (splitters st ! i))\<rparr>"
  by (simp add: saveSplitter_def splitterSaved_def checkWidget_def qWarning_def objectName_simps
      widgetStateKey_def noNameWarning_def)

lemma fold_saveSplitter:
  "fold saveSplitter is st =
     st\<lparr>m_stateSettings := fold (\<lambda>i. splitterSaved (splitters st ! i)) is (m_stateSettings st),
        warnings := warnings st
          @ concat (map (\<lambda>i. noNameWarning (SplitterRef i) (sp_objectName (splitters st ! i))) is)\<rparr>"
  by (induction "is" arbitrary: st) (simp_all add: saveSplitter_eq)

lemma saveHeader_eq:
  "saveHeader i st =
     st\<lparr>m_stateSettings := headerSaved (headers st ! i) (m_stateSettings st),
        warnings := warnings st @ noNameWarning (HeaderRef i) (hv_objectName (headers st ! i))\<rparr>"
  by (simp add: saveHeader_def headerSaved_def checkWidget_def qWarning_def objectName_simps
      widgetStateKey_def noNameWarning_def)

lemma fold_saveHeader:
  "fold saveHeader is st =
     st\<lparr>m_stateSettings := fold (\<lambda>i. headerSaved (headers st ! i)) is (m_stateSettings st),
        warnings := warnings st
          @ concat (map (\<lambda>i. noNameWarning (HeaderRef i) (hv_objectName (headers st ! i))) is)\<rparr>"
  by (induction "is" arbitrary: st) (simp_all add: saveHeader_eq)

lemma splitterSaved_group: "qs_groupStack (splitterSaved sp s) = qs_groupStack s"
  by (simp add: splitterSaved_def setValue_def)

lemma headerSaved_group: "qs_groupStack (headerSaved h s) = qs_groupStack s"
  by (simp add: headerSaved_def setValue_def)

lemma fold_splitterSaved_group:
  "qs_groupStack (fold (\<lambda>i. splitterSaved (ss ! i)) is s) = qs_groupStack s"
  by (induction "is" arbitrary: s) (simp_all add: splitterSaved_group)

lemma fold_headerSaved_group:
  "qs_groupStack (fold (\<lambda>i. headerSaved (hs ! i)) is s) = qs_groupStack s"
  by (induction "is" arbitrary: s) (simp_all add: headerSaved_group)

text \<open>A key whose value a save loop changes is the state key of a named, customized
  widget of the loop.\<close>

lemma fold_splitterSaved_changes:
  "qs_values (fold (\<lambda>i. splitterSaved (ss ! i)) is s) k \<noteq> qs_values s k \<Longrightarrow>
     \<exists>i\<in>set is. sp_objectName (ss ! i) \<noteq> [] \<and> sp_customized (ss ! i)
        \<and> k = fullKey s (sp_objectName (ss ! i) @ ''State'')"
proof (induction "is" arbitrary: s)
  case Nil
  then show ?case by simp
next
  case (Cons a rest)
  let ?s1 = "splitterSaved (ss ! a) s"
  show ?case
  proof (cases "qs_values (fold (\<lambda>i. splitterSaved (ss ! i)) rest ?s1) k = qs_values ?s1 k")
    case True
    with Cons.prems have "qs_values ?s1 k \<noteq> qs_values s k" by simp
    then show ?thesis
      by (auto simp: splitterSaved_def setValue_def split: if_splits)
  next
    case False
    from Cons.IH [OF False] obtain i where "i \<in> set rest" "sp_objectName (ss ! i) \<noteq> []"
      "sp_customized (ss ! i)" "k = fullKey ?s1 (sp_objectName (ss ! i) @ ''State'')"
      by blast
    then show ?thesis
      by (auto simp: fullKey_def splitterSaved_group)
  qed
qed

lemma fold_headerSaved_changes:
  "qs_values (fold (\<lambda>i. headerSaved (hs ! i)) is s) k \<noteq> qs_values s k \<Longrightarrow>
     \<exists>i\<in>set is. hv_objectName (hs ! i) \<noteq> [] \<and> hv_count (hs ! i) \<noteq> 0 \<and> hv_customized (hs ! i)
        \<and> k = fullKey s (hv_objectName (hs ! i) @ ''State'')"
proof (induction "is" arbitrary: s)
  case Nil
  then show ?case by simp
next
  case (Cons a rest)
  let ?s1 = "headerSaved (hs ! a) s"
  show ?case
  proof (cases "qs_values (fold (\<lambda>i. headerSaved (hs ! i)) rest ?s1) k = qs_values ?s1 k")
    case True
    with Cons.prems have "qs_values ?s1 k \<noteq> qs_values s k" by simp
    then show ?thesis
      by (auto simp: headerSaved_def setValue_def split: if_splits)
  next
    case False
    from Cons.IH [OF False] obtain i where "i \<in> set rest" "hv_objectName (hs ! i) \<noteq> []"
      "hv_count (hs ! i) \<noteq> 0"
      "hv_customized (hs ! i)" "k = fullKey ?s1 (hv_objectName (hs ! i) @ ''State'')"
      by blast
    then show ?thesis
      by (auto simp: fullKey_def headerSaved_group)
  qed
qed

subsection \<open>What the restore functions leave alone\<close>

lemma foldE_preserves:
  assumes "\<And>x s s'. f x s = Inr s' \<Longrightarrow> g s' = g s"
  shows "foldE f xs s = Inr s' \<Longrightarrow> g s' = g s"
proof (induction xs arbitrary: s)
  case Nil
  then show ?case by simp
next
  case (Cons x xs)
  from Cons.prems obtain s1 where a: "f x s = Inr s1" and b: "foldE f xs s1 = Inr s'"
    by (auto split: sum.splits)
  from Cons.IH [OF b] assms [OF a] show ?case by simp
qed

lemma restoreSplitterState_frame:
  "restoreSplitterState qt sel st = Inr st' \<Longrightarrow>
     \<exists>ss ws. st' = st\<lparr>splitters := ss, warnings := ws\<rparr> \<and> length ss = length (splitters st)"
  using foldE_restoreSplitter [OF _ splitterTargets_distinct]
  unfolding restoreSplitterState_def by blast

lemma restoreHeaderState_frame:
  "restoreHeaderState qt sel st = Inr st' \<Longrightarrow>
     \<exists>hs ws. st' = st\<lparr>headers := hs, warnings := ws\<rparr> \<and> length hs = length (headers st)"
  using foldE_restoreHeader [OF _ headerTargets_distinct]
  unfolding restoreHeaderState_def by blast

lemma restoreSplitterState_flags:
  "restoreSplitterState qt sel st = Inr st' \<Longrightarrow>
     m_resizing st' = m_resizing st \<and> m_initialized st' = m_initialized st"
  by (drule restoreSplitterState_frame) auto

lemma restoreHeaderState_flags:
  "restoreHeaderState qt sel st = Inr st' \<Longrightarrow>
     m_resizing st' = m_resizing st \<and> m_initialized st' = m_initialized st"
  by (drule restoreHeaderState_frame) auto

lemma widgetResizedBody_flags:
  assumes "widgetResizedBody qt object s = Inr s'"
  shows "m_resizing s' = m_resizing s \<and> m_initialized s' = m_initialized s"
proof (cases object)
  case RootObject
  with assms obtain s1 where a: "restoreSplitterState qt None s = Inr s1"
    and b: "restoreHeaderState qt None s1 = Inr s'"
    by (auto simp: widgetResizedBody_def split: sum.splits)
  from restoreSplitterState_flags [OF a] restoreHeaderState_flags [OF b] show ?thesis by simp
next
  case (ViewObject v)
  with assms have f: "foldE (\<lambda>h. restoreHeaderState qt (Some h)) (headersOfView v s) s = Inr s'"
    by (simp add: widgetResizedBody_def)
  have "(m_resizing s', m_initialized s') = (m_resizing s, m_initialized s)"
    by (rule foldE_preserves [OF _ f, where g = "\<lambda>s. (m_resizing s, m_initialized s)"])
       (simp add: restoreHeaderState_flags)
  then show ?thesis by simp
qed

subsection \<open>Evaluating the examples\<close>

lemmas model_defs =
  groupPrefix_def fullKey_def beginGroup_def endGroup_def settingsValue_def setValue_def
  objectName_def qWarning_def distributeSpace_def checkWidget_def widgetGeometryKey_def
  widgetStateKey_def percentToInt_def hashValue_def defaultSizesSplitter_def
  setDefaultSizesSplitter_def defaultSizesHeader_def setDefaultSizesHeader_def
  splitterExtent_def splitterEntry_def setSplitter_def restoreSplitter_def splitterTargets_def
  restoreSplitterState_def saveSplitter_def saveSplitterState_def resizeSection_def
  headerEntry_def applySection_def setHeader_def restoreHeader_def headerTargets_def
  restoreHeaderState_def saveHeader_def saveHeaderState_def center_def moveCenter_def
  defaultRect_def restoreWindowState_def saveWindowState_def restoreState_def saveState_def
  setupManager_def reset_def headersOfView_def setTempValue_def releaseTempValue_def
  widgetResizedBody_def widgetResized_def eventFilter_def widgetCustomized_def
  headerSectionCountChanged_def filterInstalled_def step_def run_def
  intDiv_def Let_def

lemmas example_defs =
  digitValue_def decimalToInt_def asciiToLower_def exampleQt_def exampleRoot_def
  exampleSplitter_def exampleHeader_def exampleSplitterSizes_def exampleHeaderSizes_def
  exampleState_def

lemma exampleState_constructed:
  "exampleState =
     setDefaultSizesHeader 0 exampleHeaderSizes
       (setDefaultSizesSplitter 0 exampleSplitterSizes
          (newManager exampleRoot [exampleSplitter] [exampleHeader]
             (\<lambda>v. \<lparr>av_width = 400, av_height = 300\<rparr>)
             \<lparr>x1 = 0, y1 = 0, x2 = 1919, y2 = 1079\<rparr> Map.empty))"
  by (simp add: exampleState_def newManager_def setDefaultSizesHeader_def
      setDefaultSizesSplitter_def checkWidget_def objectName_def exampleSplitter_def
      exampleHeader_def)

lemma newManager_inert:
  "w_objectName widget = [] \<Longrightarrow> inert (newManager widget ss hs vs sc store)"
  by (simp add: inert_def newManager_def)

subsection \<open>A save cycle\<close>

lemma saveWindowState_eq:
  "saveWindowState st =
     st\<lparr>m_stateSettings :=
          (if w_isMainWindow (m_widget st)
           then setValue (w_objectName (m_widget st) @ ''State'') (w_state (m_widget st))
                  (setValue (w_objectName (m_widget st) @ ''Geometry'') (w_geometry (m_widget st))
                     (m_stateSettings st))
           else m_stateSettings st)\<rparr>"
  by (simp add: saveWindowState_def widgetGeometryKey_def widgetStateKey_def objectName_simps)

lemma saveWindowState_group:
  "qs_groupStack (m_stateSettings (saveWindowState st)) = qs_groupStack (m_stateSettings st)"
  by (simp add: saveWindowState_eq setValue_def)

lemma saveWindowState_changes:
  "qs_values (m_stateSettings (saveWindowState st)) k \<noteq> qs_values (m_stateSettings st) k \<Longrightarrow>
     w_isMainWindow (m_widget st)
     \<and> (k = fullKey (m_stateSettings st) (w_objectName (m_widget st) @ ''Geometry'')
        \<or> k = fullKey (m_stateSettings st) (w_objectName (m_widget st) @ ''State''))"
  by (auto simp: saveWindowState_eq setValue_def fullKey_def split: if_splits)

lemma saveSplitterState_eq:
  "saveSplitterState sel st =
     st\<lparr>m_stateSettings :=
          fold (\<lambda>i. splitterSaved (splitters st ! i)) (splitterTargets sel st) (m_stateSettings st),
        warnings := warnings st
          @ concat (map (\<lambda>i. noNameWarning (SplitterRef i) (sp_objectName (splitters st ! i)))
                      (splitterTargets sel st))\<rparr>"
  by (simp add: saveSplitterState_def fold_saveSplitter)

lemma saveHeaderState_eq:
  "saveHeaderState sel st =
     st\<lparr>m_stateSettings :=
          fold (\<lambda>i. headerSaved (headers st ! i)) (headerTargets sel st) (m_stateSettings st),
        warnings := warnings st
          @ concat (map (\<lambda>i. noNameWarning (HeaderRef i) (hv_objectName (headers st ! i)))
                      (headerTargets sel st))\<rparr>"
  by (simp add: saveHeaderState_def fold_saveHeader)

lemma splitterTargets_simps:
  "splitterTargets sel (st\<lparr>m_stateSettings := s\<rparr>) = splitterTargets sel st"
  "splitterTargets sel (st\<lparr>warnings := ws\<rparr>) = splitterTargets sel st"
  "splitterTargets sel (st\<lparr>headers := hs\<rparr>) = splitterTargets sel st"
  "splitterTargets sel (st\<lparr>m_widget := w\<rparr>) = splitterTargets sel st"
  by (simp_all add: splitterTargets_def split: option.splits)

lemma headerTargets_simps:
  "headerTargets sel (st\<lparr>m_stateSettings := s\<rparr>) = headerTargets sel st"
  "headerTargets sel (st\<lparr>warnings := ws\<rparr>) = headerTargets sel st"
  "headerTargets sel (st\<lparr>splitters := ss\<rparr>) = headerTargets sel st"
  "headerTargets sel (st\<lparr>m_widget := w\<rparr>) = headerTargets sel st"
  by (simp_all add: headerTargets_def split: option.splits)

lemma saveState_settings:
  "m_stateSettings (saveState st) =
     fold (\<lambda>i. headerSaved (headers st ! i)) [0..<length (headers st)]
       (fold (\<lambda>i. splitterSaved (splitters st ! i)) [0..<length (splitters st)]
          (m_stateSettings (saveWindowState st)))"
  by (simp add: saveState_def saveHeaderState_eq saveSplitterState_eq saveWindowState_eq
      headerTargets_def splitterTargets_def)

lemma saveState_widgets:
  "splitters (saveState st) = splitters st" "headers (saveState st) = headers st"
  "m_widget (saveState st) = m_widget st"
  by (simp_all add: saveState_def saveHeaderState_eq saveSplitterState_eq saveWindowState_eq)

lemma saveState_changes:
  assumes "qs_values (m_stateSettings (saveState st)) k \<noteq> qs_values (m_stateSettings st) k"
  shows "(w_isMainWindow (m_widget st)
          \<and> (k = fullKey (m_stateSettings st) (widgetGeometryKey st RootWidget)
             \<or> k = fullKey (m_stateSettings st) (widgetStateKey st RootWidget)))
       \<or> (\<exists>i<length (splitters st). sp_objectName (splitters st ! i) \<noteq> []
             \<and> sp_customized (splitters st ! i)
             \<and> k = fullKey (m_stateSettings st) (widgetStateKey st (SplitterRef i)))
       \<or> (\<exists>i<length (headers st). hv_objectName (headers st ! i) \<noteq> []
             \<and> hv_count (headers st ! i) \<noteq> 0 \<and> hv_customized (headers st ! i)
             \<and> k = fullKey (m_stateSettings st) (widgetStateKey st (HeaderRef i)))"
proof -
  let ?S = "m_stateSettings st"
  let ?W = "m_stateSettings (saveWindowState st)"
  let ?P = "fold (\<lambda>i. splitterSaved (splitters st ! i)) [0..<length (splitters st)] ?W"
  let ?H = "fold (\<lambda>i. headerSaved (headers st ! i)) [0..<length (headers st)] ?P"
  have gW: "fullKey ?W = fullKey ?S"
    by (rule ext) (simp add: fullKey_def saveWindowState_group)
  have gP: "fullKey ?P = fullKey ?S"
    by (rule ext) (simp add: fullKey_def fold_splitterSaved_group saveWindowState_group)
  from assms have "qs_values ?H k \<noteq> qs_values ?S k" by (simp add: saveState_settings)
  then consider "qs_values ?H k \<noteq> qs_values ?P k" | "qs_values ?P k \<noteq> qs_values ?W k"
    | "qs_values ?W k \<noteq> qs_values ?S k" by metis
  then show ?thesis
  proof cases
    case 1
    from fold_headerSaved_changes [OF 1] gP show ?thesis
      by (auto simp: widgetStateKey_def objectName_simps)
  next
    case 2
    from fold_splitterSaved_changes [OF 2] gW show ?thesis
      by (auto simp: widgetStateKey_def objectName_simps)
  next
    case 3
    from saveWindowState_changes [OF 3] show ?thesis
      by (auto simp: widgetStateKey_def widgetGeometryKey_def objectName_simps)
  qed
qed

subsection \<open>The loop over the default sizes of a header\<close>

lemma applySection_eq:
  "applySection i n h =
     h\<lparr>hv_sectionSize :=
         (if i < hv_count h \<and> resizableSection h i
          then (hv_sectionSize h)(i := if n = - 1 then hv_sectionSizeHint h i else n)
          else hv_sectionSize h)\<rparr>"
  by (cases "hv_sectionResizeMode h i")
     (simp_all add: applySection_def resizeSection_def resizableSection_def)

lemma headerEntry_sectionSize [simp]:
  "headerEntry qt view (h\<lparr>hv_sectionSize := f\<rparr>) e = headerEntry qt view h e"
  by (simp add: headerEntry_def Let_def split: QVariant.splits)

lemma sectionDefault_sectionSize [simp]:
  "sectionDefault qt view (h\<lparr>hv_sectionSize := f\<rparr>) e c = sectionDefault qt view h e c"
  by (simp add: sectionDefault_def split: sum.splits)

lemma resizableSection_sectionSize [simp]:
  "resizableSection (h\<lparr>hv_sectionSize := f\<rparr>) c = resizableSection h c"
  by (simp add: resizableSection_def)

lemma applyHeaderDefaults_eq:
  "applyHeaderDefaults qt view ds i h = Inr h' \<Longrightarrow>
     h' = h\<lparr>hv_sectionSize :=
            (\<lambda>c. if i \<le> c \<and> c < i + length ds \<and> c < hv_count h \<and> resizableSection h c
                 then sectionDefault qt view h (ds ! (c - i)) c
                 else hv_sectionSize h c)\<rparr>"
proof (induction ds arbitrary: i h)
  case Nil
  have "(\<lambda>c. if i \<le> c \<and> c < i + length ([] :: UISizeVector) \<and> c < hv_count h \<and> resizableSection h c
                 then sectionDefault qt view h ([] ! (c - i)) c
                 else hv_sectionSize h c) = hv_sectionSize h"
    by (rule ext) auto
  with Nil show ?case by simp
next
  case (Cons e rest)
  from Cons.prems obtain n where n: "headerEntry qt view h e = Inr n"
    and r: "applyHeaderDefaults qt view rest (Suc i) (applySection i n h) = Inr h'"
    by (auto split: sum.splits)
  let ?h1 = "applySection i n h"
  have sd: "sectionDefault qt view h e i = (if n = - 1 then hv_sectionSizeHint h i else n)"
    using n by (simp add: sectionDefault_def)
  have "(\<lambda>c. if Suc i \<le> c \<and> c < Suc i + length rest \<and> c < hv_count ?h1 \<and> resizableSection ?h1 c
                 then sectionDefault qt view ?h1 (rest ! (c - Suc i)) c
                 else hv_sectionSize ?h1 c)
      = (\<lambda>c. if i \<le> c \<and> c < i + length (e # rest) \<and> c < hv_count h \<and> resizableSection h c
                 then sectionDefault qt view h ((e # rest) ! (c - i)) c
                 else hv_sectionSize h c)"
  proof (rule ext)
    fix c
    show "(if Suc i \<le> c \<and> c < Suc i + length rest \<and> c < hv_count ?h1 \<and> resizableSection ?h1 c
                 then sectionDefault qt view ?h1 (rest ! (c - Suc i)) c
                 else hv_sectionSize ?h1 c)
      = (if i \<le> c \<and> c < i + length (e # rest) \<and> c < hv_count h \<and> resizableSection h c
                 then sectionDefault qt view h ((e # rest) ! (c - i)) c
                 else hv_sectionSize h c)"
    proof (cases "c = i")
      case True
      then show ?thesis by (simp add: applySection_eq sd)
    next
      case False
      then have "i \<le> c \<Longrightarrow> (e # rest) ! (c - i) = rest ! (c - Suc i)"
        by (simp add: nth_Cons')
      with False show ?thesis
        by (auto simp: applySection_eq Suc_le_eq)
    qed
  qed
  with Cons.IH [OF r] show ?case
    by (simp add: applySection_eq)
qed

lemma applyHeaderDefaults_fails:
  "applyHeaderDefaults qt view ds i h = Inl e \<Longrightarrow> \<exists>d\<in>set ds. headerEntry qt view h d = Inl e"
proof (induction ds arbitrary: i h)
  case Nil
  then show ?case by simp
next
  case (Cons d rest)
  show ?case
  proof (cases "headerEntry qt view h d")
    case (Inl e')
    with Cons.prems show ?thesis by simp
  next
    case (Inr n)
    with Cons.prems have "applyHeaderDefaults qt view rest (Suc i) (applySection i n h) = Inl e"
      by simp
    from Cons.IH [OF this] show ?thesis
      by (auto simp: applySection_eq)
  qed
qed

subsection \<open>The widget at an index after a restore\<close>

lemma restoreSplitterState_nth:
  assumes "restoreSplitterState qt sel st = Inr st'" "i < length (splitters st)"
  shows "(i \<in> set (splitterTargets sel st) \<longrightarrow>
            splitterRestored qt (m_stateSettings st) (m_defaultSplitterSizes st) (m_resizing st)
              (splitters st ! i) = Inr (splitters st' ! i))
       \<and> (i \<notin> set (splitterTargets sel st) \<longrightarrow> splitters st' ! i = splitters st ! i)"
proof -
  from assms(1) have "foldE (restoreSplitter qt) (splitterTargets sel st) st = Inr st'"
    by (simp add: restoreSplitterState_def)
  from foldE_restoreSplitter [OF this splitterTargets_distinct] obtain ss ws where
    "st' = st\<lparr>splitters := ss, warnings := ws\<rparr>"
    "\<forall>j. j \<notin> set (splitterTargets sel st) \<longrightarrow> ss ! j = splitters st ! j"
    "\<forall>j. j \<in> set (splitterTargets sel st) \<longrightarrow> j < length (splitters st) \<longrightarrow>
            splitterRestored qt (m_stateSettings st) (m_defaultSplitterSizes st) (m_resizing st)
              (splitters st ! j) = Inr (ss ! j)"
    by blast
  with assms(2) show ?thesis by simp
qed

lemma restoreHeaderState_nth:
  assumes "restoreHeaderState qt sel st = Inr st'" "i < length (headers st)"
  shows "(i \<in> set (headerTargets sel st) \<longrightarrow>
            headerRestored qt (m_stateSettings st) (m_defaultHeaderSizes st) (m_resizing st)
              (views st) (headers st ! i) = Inr (headers st' ! i))
       \<and> (i \<notin> set (headerTargets sel st) \<longrightarrow> headers st' ! i = headers st ! i)"
proof -
  from assms(1) have "foldE (restoreHeader qt) (headerTargets sel st) st = Inr st'"
    by (simp add: restoreHeaderState_def)
  from foldE_restoreHeader [OF this headerTargets_distinct] obtain hs ws where
    "st' = st\<lparr>headers := hs, warnings := ws\<rparr>"
    "\<forall>j. j \<notin> set (headerTargets sel st) \<longrightarrow> hs ! j = headers st ! j"
    "\<forall>j. j \<in> set (headerTargets sel st) \<longrightarrow> j < length (headers st) \<longrightarrow>
            headerRestored qt (m_stateSettings st) (m_defaultHeaderSizes st) (m_resizing st)
              (views st) (headers st ! j) = Inr (hs ! j)"
    by blast
  with assms(2) show ?thesis by simp
qed

lemma splitterRestored_customized:
  "splitterRestored qt S D r sp = Inr sp' \<Longrightarrow>
     settingsValue S (sp_objectName sp @ ''State'') = [] \<Longrightarrow>
     sp_customized sp' = sp_customized sp"
  by (auto simp: splitterRestored_def Let_def split: if_splits sum.splits)

lemma headerRestored_customized:
  "headerRestored qt S D r vs h = Inr h' \<Longrightarrow>
     settingsValue S (hv_objectName h @ ''State'') = [] \<Longrightarrow>
     hv_customized h' = hv_customized h"
  by (auto simp: headerRestored_def Let_def split: if_splits dest!: applyHeaderDefaults_eq)

lemma headerRestored_zero:
  "hv_count h = 0 \<Longrightarrow> headerRestored qt S D r vs h = Inr h"
  by (simp add: headerRestored_def)

lemma headerRestored_default:
  assumes "hv_objectName h \<noteq> []" "hv_count h \<noteq> 0"
    and "settingsValue S (hv_objectName h @ ''State'') = []"
    and "D (hv_objectName h) = Some spec" "length spec = hv_count h"
  shows "headerRestored qt S D r vs h = applyHeaderDefaults qt (vs (hv_view h)) spec 0 h"
  using assms by (auto simp: headerRestored_def hashValue_def)

lemma headerEntry_fails:
  "headerEntry qt view h d = Inl e \<Longrightarrow> d = VOther \<and> e = UnexpectedVariantType"
  by (auto simp: headerEntry_def Let_def split: QVariant.splits if_splits)

lemma splitterEntry_fails:
  "splitterEntry qt sp d = Inl e \<Longrightarrow> d = VOther \<and> e = UnexpectedVariantType"
  by (auto simp: splitterEntry_def Let_def split: QVariant.splits if_splits)

lemma splitterEntries_fails:
  "splitterEntries qt sp ds = Inl e \<Longrightarrow> VOther \<in> set ds \<and> e = UnexpectedVariantType"
  by (induction ds) (auto split: sum.splits dest: splitterEntry_fails)

lemma applyHeaderDefaults_total:
  assumes "\<forall>d\<in>set ds. d \<noteq> VOther"
  shows "\<exists>h'. applyHeaderDefaults qt view ds i h = Inr h'"
proof (cases "applyHeaderDefaults qt view ds i h")
  case (Inl e)
  from applyHeaderDefaults_fails [OF Inl] assms show ?thesis
    by (auto dest: headerEntry_fails)
next
  case (Inr h')
  then show ?thesis by simp
qed

subsection \<open>The assertions\<close>

lemma splitterRestored_mismatch:
  "splitterRestored qt (m_stateSettings st) (m_defaultSplitterSizes st) r (splitters st ! i)
     = Inl SizesCountMismatch
   \<longleftrightarrow> (\<exists>d. appliedSplitterDefaults st i = Some d \<and> length d \<noteq> sp_count (splitters st ! i))"
  by (auto simp: splitterRestored_def appliedSplitterDefaults_def Let_def widgetStateKey_def
      objectName_simps split: sum.splits dest: splitterEntries_fails)

lemma splitterRestored_applied:
  "splitterRestored qt (m_stateSettings st) (m_defaultSplitterSizes st) r (splitters st ! i)
     = Inr sp' \<Longrightarrow> appliedSplitterDefaults st i = Some d \<Longrightarrow>
   length d = sp_count (splitters st ! i)"
  by (auto simp: splitterRestored_def appliedSplitterDefaults_def Let_def widgetStateKey_def
      objectName_simps split: sum.splits if_splits)

lemma headerRestored_mismatch:
  "headerRestored qt (m_stateSettings st) (m_defaultHeaderSizes st) r vs (headers st ! i)
     = Inl SizesCountMismatch
   \<longleftrightarrow> (\<exists>d. appliedHeaderDefaults st i = Some d \<and> length d \<noteq> hv_count (headers st ! i))"
  by (auto simp: headerRestored_def appliedHeaderDefaults_def Let_def widgetStateKey_def
      objectName_simps dest!: applyHeaderDefaults_fails headerEntry_fails)

lemma headerRestored_applied:
  "headerRestored qt (m_stateSettings st) (m_defaultHeaderSizes st) r vs (headers st ! i)
     = Inr h' \<Longrightarrow> appliedHeaderDefaults st i = Some d \<Longrightarrow>
   length d = hv_count (headers st ! i)"
  by (auto simp: headerRestored_def appliedHeaderDefaults_def Let_def widgetStateKey_def
      objectName_simps split: if_splits)

lemma restoreSplitterState_fails:
  assumes "restoreSplitterState qt sel st = Inl e"
  shows "\<exists>i\<in>set (splitterTargets sel st).
           splitterRestored qt (m_stateSettings st) (m_defaultSplitterSizes st) (m_resizing st)
             (splitters st ! i) = Inl e"
  using foldE_restoreSplitter_fails [OF _ splitterTargets_distinct] assms
  unfolding restoreSplitterState_def by blast

lemma restoreHeaderState_fails:
  assumes "restoreHeaderState qt sel st = Inl e"
  shows "\<exists>i\<in>set (headerTargets sel st).
           headerRestored qt (m_stateSettings st) (m_defaultHeaderSizes st) (m_resizing st)
             (views st) (headers st ! i) = Inl e"
  using foldE_restoreHeader_fails [OF _ headerTargets_distinct] assms
  unfolding restoreHeaderState_def by blast

lemma splitterTargets_less: "i \<in> set (splitterTargets sel st) \<Longrightarrow> i < length (splitters st)"
  by (auto simp: splitterTargets_def split: option.splits if_splits)

lemma headerTargets_less: "i \<in> set (headerTargets sel st) \<Longrightarrow> i < length (headers st)"
  by (auto simp: headerTargets_def split: option.splits if_splits)

lemma appliedSplitterDefaults_cong:
  "splitters st' = splitters st \<Longrightarrow> m_stateSettings st' = m_stateSettings st \<Longrightarrow>
   m_defaultSplitterSizes st' = m_defaultSplitterSizes st \<Longrightarrow>
   appliedSplitterDefaults st' i = appliedSplitterDefaults st i"
  by (simp add: appliedSplitterDefaults_def widgetStateKey_def objectName_simps)

lemma appliedHeaderDefaults_cong:
  "headers st' = headers st \<Longrightarrow> m_stateSettings st' = m_stateSettings st \<Longrightarrow>
   m_defaultHeaderSizes st' = m_defaultHeaderSizes st \<Longrightarrow>
   appliedHeaderDefaults st' i = appliedHeaderDefaults st i"
  by (simp add: appliedHeaderDefaults_def widgetStateKey_def objectName_simps)

lemma restoreWindowState_frame:
  "restoreWindowState st = st\<lparr>m_widget := m_widget (restoreWindowState st)\<rparr>"
  by (simp add: restoreWindowState_def Let_def)

lemma restoreWindowState_fields:
  "splitters (restoreWindowState st) = splitters st"
  "headers (restoreWindowState st) = headers st"
  "views (restoreWindowState st) = views st"
  "m_stateSettings (restoreWindowState st) = m_stateSettings st"
  "m_defaultSplitterSizes (restoreWindowState st) = m_defaultSplitterSizes st"
  "m_defaultHeaderSizes (restoreWindowState st) = m_defaultHeaderSizes st"
  "m_resizing (restoreWindowState st) = m_resizing st"
  "m_initialized (restoreWindowState st) = m_initialized st"
  by (simp_all add: restoreWindowState_def Let_def)

subsection \<open>The manager of a root widget without a name\<close>

lemma setupManager_unnamed:
  "w_objectName (m_widget st) = [] \<Longrightarrow>
     setupManager qt st = Inr (qWarning (WidgetWithNoName RootWidget) st)"
  by (simp add: setupManager_def checkWidget_def objectName_simps)

lemma step_inert:
  assumes "inert st"
  shows "\<exists>st'. step qt a st = Inr st' \<and> inert st' \<and> sameWidgetsAndValues st st'"
proof (cases a)
  case (Event object event)
  with assms show ?thesis
    by (auto simp: step_def eventFilter_def setupManager_unnamed inert_def
        sameWidgetsAndValues_def qWarning_def)
next
  case (SplitterMoved i)
  with assms show ?thesis
    by (simp add: step_def inert_def sameWidgetsAndValues_def)
next
  case (SectionResized i b)
  with assms show ?thesis
    by (simp add: step_def inert_def sameWidgetsAndValues_def)
next
  case (SectionCountChanged i)
  with assms show ?thesis
    by (simp add: step_def inert_def sameWidgetsAndValues_def)
next
  case Reset
  with assms show ?thesis
    by (simp add: step_def reset_def setupManager_unnamed inert_def sameWidgetsAndValues_def
        qWarning_def endGroup_def)
next
  case (SetDefaultSplitterSizes i v)
  with assms show ?thesis
    by (simp add: step_def setDefaultSizesSplitter_def checkWidget_def qWarning_def inert_def
        sameWidgetsAndValues_def objectName_simps)
next
  case (SetDefaultHeaderSizes i v)
  with assms show ?thesis
    by (simp add: step_def setDefaultSizesHeader_def checkWidget_def qWarning_def inert_def
        sameWidgetsAndValues_def objectName_simps)
qed

lemma run_inert:
  "inert st \<Longrightarrow> \<exists>st'. run qt as st = Inr st' \<and> inert st' \<and> sameWidgetsAndValues st st'"
proof (induction as arbitrary: st)
  case Nil
  then show ?case by (simp add: run_def sameWidgetsAndValues_def)
next
  case (Cons a as)
  from step_inert [OF Cons.prems, of qt a] obtain s1 where
    s1: "step qt a st = Inr s1" "inert s1" "sameWidgetsAndValues st s1" by blast
  from Cons.IH [OF s1(2)] obtain st' where
    "run qt as s1 = Inr st'" "inert st'" "sameWidgetsAndValues s1 st'" by blast
  with s1 show ?case
    by (auto simp: run_def sameWidgetsAndValues_def)
qed

subsection \<open>The value under the state key of a splitter\<close>

lemma fullKey_state_inject:
  "fullKey S (a @ ''State'') = fullKey S (b @ ''State'') \<longleftrightarrow> a = b"
  by (simp add: fullKey_def)

lemma fold_splitterSaved_other:
  assumes "\<forall>j\<in>set is. sp_objectName (ss ! j) \<noteq> n"
  shows "qs_values (fold (\<lambda>i. splitterSaved (ss ! i)) is S) (fullKey S (n @ ''State''))
           = qs_values S (fullKey S (n @ ''State''))"
proof (rule ccontr)
  assume "\<not> ?thesis"
  from fold_splitterSaved_changes [OF this] assms show False
    by (auto simp: fullKey_state_inject)
qed

lemma fold_headerSaved_other:
  assumes "\<forall>j\<in>set is. hv_objectName (hs ! j) \<noteq> n"
  shows "qs_values (fold (\<lambda>i. headerSaved (hs ! i)) is S) (fullKey S (n @ ''State''))
           = qs_values S (fullKey S (n @ ''State''))"
proof (rule ccontr)
  assume "\<not> ?thesis"
  from fold_headerSaved_changes [OF this] assms show False
    by (auto simp: fullKey_state_inject)
qed

lemma upt_split3: "i < n \<Longrightarrow> [0..<n] = [0..<i] @ i # [Suc i..<n]"
  using upt_add_eq_append [of 0 i "n - i"] by (simp add: upt_conv_Cons)

lemma fold_splitterSaved_own:
  assumes i: "i < length ss" and n: "sp_objectName (ss ! i) \<noteq> []" and c: "sp_customized (ss ! i)"
    and u: "\<forall>j<length ss. j \<noteq> i \<longrightarrow> sp_objectName (ss ! j) \<noteq> sp_objectName (ss ! i)"
  shows "qs_values (fold (\<lambda>i. splitterSaved (ss ! i)) [0..<length ss] S)
           (fullKey S (sp_objectName (ss ! i) @ ''State'')) = Some (sp_state (ss ! i))"
proof -
  let ?n = "sp_objectName (ss ! i)"
  let ?f = "\<lambda>i. splitterSaved (ss ! i)"
  let ?S1 = "fold ?f [0..<i] S"
  let ?S2 = "splitterSaved (ss ! i) ?S1"
  have g1: "fullKey ?S1 = fullKey S"
    by (rule ext) (simp add: fullKey_def fold_splitterSaved_group)
  have g2: "fullKey ?S2 = fullKey S"
    by (rule ext) (simp add: fullKey_def fold_splitterSaved_group splitterSaved_group)
  have v2: "qs_values ?S2 (fullKey S (?n @ ''State'')) = Some (sp_state (ss ! i))"
    using n c g1 by (simp add: splitterSaved_def setValue_def)
  have "\<forall>j\<in>set [Suc i..<length ss]. sp_objectName (ss ! j) \<noteq> ?n"
    using u by auto
  from fold_splitterSaved_other [OF this, of ?S2]
  have "qs_values (fold ?f [Suc i..<length ss] ?S2) (fullKey S (?n @ ''State''))
          = Some (sp_state (ss ! i))"
    by (simp add: g2 v2)
  then show ?thesis
    by (simp add: upt_split3 [OF i])
qed

lemma saveState_own_splitter:
  assumes i: "i < length (splitters st)"
    and n: "sp_objectName (splitters st ! i) \<noteq> []" and c: "sp_customized (splitters st ! i)"
    and u: "\<forall>j<length (splitters st). j \<noteq> i \<longrightarrow>
              sp_objectName (splitters st ! j) \<noteq> sp_objectName (splitters st ! i)"
    and h: "\<forall>j<length (headers st).
              hv_objectName (headers st ! j) \<noteq> sp_objectName (splitters st ! i)"
  shows "settingsValue (m_stateSettings (saveState st)) (widgetStateKey st (SplitterRef i))
           = sp_state (splitters st ! i)"
proof -
  let ?n = "sp_objectName (splitters st ! i)"
  let ?W = "m_stateSettings (saveWindowState st)"
  let ?P = "fold (\<lambda>i. splitterSaved (splitters st ! i)) [0..<length (splitters st)] ?W"
  let ?H = "fold (\<lambda>i. headerSaved (headers st ! i)) [0..<length (headers st)] ?P"
  have gP: "fullKey ?P = fullKey ?W"
    by (rule ext) (simp add: fullKey_def fold_splitterSaved_group)
  have gH: "fullKey ?H = fullKey ?W"
    by (rule ext) (simp add: fullKey_def fold_splitterSaved_group fold_headerSaved_group)
  have "qs_values ?P (fullKey ?W (?n @ ''State'')) = Some (sp_state (splitters st ! i))"
    by (rule fold_splitterSaved_own [OF i n c u])
  moreover have "qs_values ?H (fullKey ?P (?n @ ''State'')) = qs_values ?P (fullKey ?P (?n @ ''State''))"
    by (rule fold_headerSaved_other) (use h in auto)
  ultimately have "qs_values ?H (fullKey ?H (?n @ ''State'')) = Some (sp_state (splitters st ! i))"
    by (simp add: gP gH)
  then show ?thesis
    by (simp add: settingsValue_def saveState_settings widgetStateKey_def objectName_simps)
qed

lemma splitterRestored_blob:
  assumes "sp_objectName sp \<noteq> []" "settingsValue S (sp_objectName sp @ ''State'') = b" "b \<noteq> []"
  shows "splitterRestored qt S D r sp
           = Inr (if r then sp else sp\<lparr>sp_state := b, sp_customized := True\<rparr>)"
  using assms by (simp add: splitterRestored_def)

lemma example_moved:
  "run exampleQt [Event RootObject Show, SplitterMoved 0] exampleState = Inr exampleMoved"
  by (simp add: model_defs example_defs exampleMoved_def fun_eq_iff)

subsection \<open>The warnings of a restore\<close>

lemma foldE_restoreSplitter_warnings:
  "foldE (restoreSplitter qt) is st = Inr st' \<Longrightarrow> distinct is \<Longrightarrow>
     warnings st' = warnings st
       @ concat (map (\<lambda>j. noNameWarning (SplitterRef j) (sp_objectName (splitters st ! j))) is)"
proof (induction "is" arbitrary: st)
  case Nil
  then show ?case by simp
next
  case (Cons a rest)
  from Cons.prems(1) obtain s1 where s1: "restoreSplitter qt a st = Inr s1"
    and rest: "foldE (restoreSplitter qt) rest s1 = Inr st'"
    by (auto split: sum.splits)
  from s1 obtain sp' where
    s1_eq: "s1 = st\<lparr>splitters := (splitters st)[a := sp'],
                  warnings := warnings st @ noNameWarning (SplitterRef a) (sp_objectName (splitters st ! a))\<rparr>"
    by (auto simp: restoreSplitter_eq split: sum.splits)
  from Cons.prems(2) have d: "distinct rest" and a: "a \<notin> set rest" by auto
  have m: "map (\<lambda>j. noNameWarning (SplitterRef j) (sp_objectName (splitters s1 ! j))) rest
      = map (\<lambda>j. noNameWarning (SplitterRef j) (sp_objectName (splitters st ! j))) rest"
  proof (intro map_cong refl)
    fix x assume "x \<in> set rest"
    with a have "a \<noteq> x" by auto
    then show "noNameWarning (SplitterRef x) (sp_objectName (splitters s1 ! x))
      = noNameWarning (SplitterRef x) (sp_objectName (splitters st ! x))"
      by (simp add: s1_eq)
  qed
  from Cons.IH [OF rest d]
  have "warnings st' = warnings s1
      @ concat (map (\<lambda>j. noNameWarning (SplitterRef j) (sp_objectName (splitters st ! j))) rest)"
    unfolding m .
  moreover have "warnings s1 = warnings st
      @ noNameWarning (SplitterRef a) (sp_objectName (splitters st ! a))"
    by (simp add: s1_eq)
  ultimately show ?case by simp
qed

lemma foldE_restoreHeader_warnings:
  "foldE (restoreHeader qt) is st = Inr st' \<Longrightarrow> distinct is \<Longrightarrow>
     warnings st' = warnings st
       @ concat (map (\<lambda>j. noNameWarning (HeaderRef j) (hv_objectName (headers st ! j))) is)"
proof (induction "is" arbitrary: st)
  case Nil
  then show ?case by simp
next
  case (Cons a rest)
  from Cons.prems(1) obtain s1 where s1: "restoreHeader qt a st = Inr s1"
    and rest: "foldE (restoreHeader qt) rest s1 = Inr st'"
    by (auto split: sum.splits)
  from s1 obtain h' where
    s1_eq: "s1 = st\<lparr>headers := (headers st)[a := h'],
                  warnings := warnings st @ noNameWarning (HeaderRef a) (hv_objectName (headers st ! a))\<rparr>"
    by (auto simp: restoreHeader_eq split: sum.splits)
  from Cons.prems(2) have d: "distinct rest" and a: "a \<notin> set rest" by auto
  have m: "map (\<lambda>j. noNameWarning (HeaderRef j) (hv_objectName (headers s1 ! j))) rest
      = map (\<lambda>j. noNameWarning (HeaderRef j) (hv_objectName (headers st ! j))) rest"
  proof (intro map_cong refl)
    fix x assume "x \<in> set rest"
    with a have "a \<noteq> x" by auto
    then show "noNameWarning (HeaderRef x) (hv_objectName (headers s1 ! x))
      = noNameWarning (HeaderRef x) (hv_objectName (headers st ! x))"
      by (simp add: s1_eq)
  qed
  from Cons.IH [OF rest d]
  have "warnings st' = warnings s1
      @ concat (map (\<lambda>j. noNameWarning (HeaderRef j) (hv_objectName (headers st ! j))) rest)"
    unfolding m .
  moreover have "warnings s1 = warnings st
      @ noNameWarning (HeaderRef a) (hv_objectName (headers st ! a))"
    by (simp add: s1_eq)
  ultimately show ?case by simp
qed

lemma restoreSplitterState_warnings:
  assumes "restoreSplitterState qt sel st = Inr st'"
  shows "warnings st' = warnings st
       @ concat (map (\<lambda>j. noNameWarning (SplitterRef j) (sp_objectName (splitters st ! j)))
                   (splitterTargets sel st))"
  using foldE_restoreSplitter_warnings [OF _ splitterTargets_distinct] assms
  unfolding restoreSplitterState_def by blast

lemma restoreHeaderState_warnings:
  assumes "restoreHeaderState qt sel st = Inr st'"
  shows "warnings st' = warnings st
       @ concat (map (\<lambda>j. noNameWarning (HeaderRef j) (hv_objectName (headers st ! j)))
                   (headerTargets sel st))"
  using foldE_restoreHeader_warnings [OF _ headerTargets_distinct] assms
  unfolding restoreHeaderState_def by blast

text \<open>What \<open>restoreState\<close> leaves alone and what it does to the widgets.\<close>

lemma restoreState_parts:
  assumes "restoreState qt st = Inr st'"
  obtains s1 where "restoreSplitterState qt None (restoreWindowState st) = Inr s1"
    and "restoreHeaderState qt None s1 = Inr st'"
    and "headers s1 = headers st" and "splitters st' = splitters s1"
    and "m_widget st' = m_widget (restoreWindowState st)"
    and "m_stateSettings s1 = m_stateSettings st"
    and "m_defaultHeaderSizes s1 = m_defaultHeaderSizes st"
    and "m_resizing s1 = m_resizing st" and "views s1 = views st"
proof -
  from assms obtain s1 where a: "restoreSplitterState qt None (restoreWindowState st) = Inr s1"
    and b: "restoreHeaderState qt None s1 = Inr st'"
    by (auto simp: restoreState_def split: sum.splits)
  from restoreSplitterState_frame [OF a] obtain ss ws where
    s1: "s1 = (restoreWindowState st)\<lparr>splitters := ss, warnings := ws\<rparr>" by blast
  from restoreHeaderState_frame [OF b] obtain hs ws' where
    st': "st' = s1\<lparr>headers := hs, warnings := ws'\<rparr>" by blast
  show ?thesis
    by (rule that [OF a b]) (simp_all add: s1 st' restoreWindowState_fields)
qed

lemma restoreState_frame:
  assumes "restoreState qt st = Inr st'"
  shows "\<exists>w ss hs ws. st' = st\<lparr>m_widget := w, splitters := ss, headers := hs,
                              warnings := warnings st @ ws\<rparr>
           \<and> length ss = length (splitters st) \<and> length hs = length (headers st)"
proof -
  from assms obtain s1 where a: "restoreSplitterState qt None (restoreWindowState st) = Inr s1"
    and b: "restoreHeaderState qt None s1 = Inr st'"
    by (auto simp: restoreState_def split: sum.splits)
  from restoreSplitterState_frame [OF a] obtain ss ws where
    s1: "s1 = (restoreWindowState st)\<lparr>splitters := ss, warnings := ws\<rparr>"
    and ls: "length ss = length (splitters (restoreWindowState st))" by blast
  from restoreHeaderState_frame [OF b] obtain hs ws' where
    st': "st' = s1\<lparr>headers := hs, warnings := ws'\<rparr>"
    and lh: "length hs = length (headers s1)" by blast
  from restoreSplitterState_warnings [OF a] obtain x where
    x: "warnings s1 = warnings st @ x" by (simp add: restoreWindowState_fields restoreWindowState_def Let_def)
  from restoreHeaderState_warnings [OF b] obtain y where
    y: "warnings st' = warnings s1 @ y" by simp
  have w: "ws' = warnings st @ (x @ y)" using x y by (simp add: st')
  have "st' = st\<lparr>m_widget := m_widget (restoreWindowState st), splitters := ss, headers := hs,
                  warnings := warnings st @ (x @ y)\<rparr>"
    using restoreWindowState_frame [of st] by (simp add: st' s1 w)
  with ls lh show ?thesis
    by (auto simp: s1 restoreWindowState_fields)
qed

subsection \<open>The loops of setup\<close>

text \<open>The loops of \<open>setup\<close>: the known names, the connected widgets, the warnings.\<close>

lemma setupSplitter_eq:
  "setupSplitter qt i (K, st) =
     (let n = sp_objectName (splitters st ! i); l = qt_toLower qt n
      in (if n \<noteq> [] then insert l K else K,
          st\<lparr>splitterConnected :=
                (if n \<noteq> [] \<and> l \<notin> K then insert i (splitterConnected st)
                 else splitterConnected st),
              warnings := warnings st
                @ (if n = [] then [WidgetWithNoName (SplitterRef i)]
                   else if l \<in> K then [DuplicateWidgetName l] else [])\<rparr>))"
  by (auto simp: checkWidget_def qWarning_def objectName_simps Let_def)

lemma fold_setupSplitter:
  "fold (setupSplitter qt) is (K, st) = (K', st') \<Longrightarrow>
     K' = K \<union> {qt_toLower qt (sp_objectName (splitters st ! j)) |j.
                  j \<in> set is \<and> sp_objectName (splitters st ! j) \<noteq> []}
     \<and> (\<exists>C ws. st' = st\<lparr>splitterConnected := C, warnings := warnings st @ ws\<rparr>
            \<and> splitterConnected st \<subseteq> C \<and> C \<subseteq> splitterConnected st \<union> set is)"
proof (induction "is" arbitrary: K st)
  case Nil
  then have "K' = K" "st' = st" by simp_all
  then show ?case
    by (intro conjI exI [of _ "splitterConnected st"] exI [of _ "[]"]) simp_all
next
  case (Cons a rest)
  obtain K1 s1 where s1: "setupSplitter qt a (K, st) = (K1, s1)" by (cases "setupSplitter qt a (K, st)")
  define C1 where "C1 = (if sp_objectName (splitters st ! a) \<noteq> []
        \<and> qt_toLower qt (sp_objectName (splitters st ! a)) \<notin> K
      then insert a (splitterConnected st) else splitterConnected st)"
  define w1 where "w1 = (if sp_objectName (splitters st ! a) = []
      then [WidgetWithNoName (SplitterRef a)]
      else if qt_toLower qt (sp_objectName (splitters st ! a)) \<in> K
      then [DuplicateWidgetName (qt_toLower qt (sp_objectName (splitters st ! a)))] else [])"
  from s1 have
    k1: "K1 = (if sp_objectName (splitters st ! a) \<noteq> []
               then insert (qt_toLower qt (sp_objectName (splitters st ! a))) K else K)"
    and e1: "s1 = st\<lparr>splitterConnected := C1, warnings := warnings st @ w1\<rparr>"
    by (simp_all add: setupSplitter_eq Let_def C1_def w1_def del: setupSplitter.simps)
  have c1: "splitterConnected st \<subseteq> C1" "C1 \<subseteq> insert a (splitterConnected st)"
    by (auto simp: C1_def)
  from Cons.prems s1 have "fold (setupSplitter qt) rest (K1, s1) = (K', st')" by simp
  from Cons.IH [OF this] obtain C ws where
    k: "K' = K1 \<union> {qt_toLower qt (sp_objectName (splitters s1 ! j)) |j.
                  j \<in> set rest \<and> sp_objectName (splitters s1 ! j) \<noteq> []}"
    and e: "st' = s1\<lparr>splitterConnected := C, warnings := warnings s1 @ ws\<rparr>"
    and c: "splitterConnected s1 \<subseteq> C" "C \<subseteq> splitterConnected s1 \<union> set rest"
    by blast
  have sp: "splitters s1 = splitters st" by (simp add: e1)
  have K: "K' = K \<union> {qt_toLower qt (sp_objectName (splitters st ! j)) |j.
                  j \<in> set (a # rest) \<and> sp_objectName (splitters st ! j) \<noteq> []}"
    unfolding k sp k1 by auto
  have E: "st' = st\<lparr>splitterConnected := C, warnings := warnings st @ (w1 @ ws)\<rparr>"
    by (simp add: e e1)
  have Cs: "splitterConnected st \<subseteq> C" "C \<subseteq> splitterConnected st \<union> set (a # rest)"
    using c c1 by (auto simp: e1)
  from K E Cs show ?case by blast
qed

lemma setupHeader_eq:
  "setupHeader qt i (K, st) =
     (let n = hv_objectName (headers st ! i); l = qt_toLower qt n
      in (if n \<noteq> [] then insert l K else K,
          st\<lparr>headerConnected :=
                (if n \<noteq> [] \<and> l \<notin> K then insert i (headerConnected st)
                 else headerConnected st),
              viewFilters :=
                (if n \<noteq> [] \<and> l \<notin> K then insert (hv_view (headers st ! i)) (viewFilters st)
                 else viewFilters st),
              warnings := warnings st
                @ (if n = [] then [WidgetWithNoName (HeaderRef i)]
                   else if l \<in> K then [DuplicateWidgetName l] else [])\<rparr>))"
  by (auto simp: checkWidget_def qWarning_def objectName_simps Let_def)

lemma fold_setupHeader:
  "fold (setupHeader qt) is (K, st) = (K', st') \<Longrightarrow>
     K' = K \<union> {qt_toLower qt (hv_objectName (headers st ! j)) |j.
                  j \<in> set is \<and> hv_objectName (headers st ! j) \<noteq> []}
     \<and> (\<exists>C F ws. st' = st\<lparr>headerConnected := C, viewFilters := F,
                            warnings := warnings st @ ws\<rparr>
            \<and> headerConnected st \<subseteq> C \<and> C \<subseteq> headerConnected st \<union> set is)"
proof (induction "is" arbitrary: K st)
  case Nil
  then have "K' = K" "st' = st" by simp_all
  then show ?case
    by (intro conjI exI [of _ "headerConnected st"] exI [of _ "viewFilters st"] exI [of _ "[]"])
       simp_all
next
  case (Cons a rest)
  obtain K1 s1 where s1: "setupHeader qt a (K, st) = (K1, s1)" by (cases "setupHeader qt a (K, st)")
  define C1 where "C1 = (if hv_objectName (headers st ! a) \<noteq> []
        \<and> qt_toLower qt (hv_objectName (headers st ! a)) \<notin> K
      then insert a (headerConnected st) else headerConnected st)"
  define F1 where "F1 = (if hv_objectName (headers st ! a) \<noteq> []
        \<and> qt_toLower qt (hv_objectName (headers st ! a)) \<notin> K
      then insert (hv_view (headers st ! a)) (viewFilters st) else viewFilters st)"
  define w1 where "w1 = (if hv_objectName (headers st ! a) = []
      then [WidgetWithNoName (HeaderRef a)]
      else if qt_toLower qt (hv_objectName (headers st ! a)) \<in> K
      then [DuplicateWidgetName (qt_toLower qt (hv_objectName (headers st ! a)))] else [])"
  from s1 have
    k1: "K1 = (if hv_objectName (headers st ! a) \<noteq> []
               then insert (qt_toLower qt (hv_objectName (headers st ! a))) K else K)"
    and e1: "s1 = st\<lparr>headerConnected := C1, viewFilters := F1, warnings := warnings st @ w1\<rparr>"
    by (simp_all add: setupHeader_eq Let_def C1_def F1_def w1_def del: setupHeader.simps)
  have c1: "headerConnected st \<subseteq> C1" "C1 \<subseteq> insert a (headerConnected st)"
    by (auto simp: C1_def)
  from Cons.prems s1 have "fold (setupHeader qt) rest (K1, s1) = (K', st')" by simp
  from Cons.IH [OF this] obtain C F ws where
    k: "K' = K1 \<union> {qt_toLower qt (hv_objectName (headers s1 ! j)) |j.
                  j \<in> set rest \<and> hv_objectName (headers s1 ! j) \<noteq> []}"
    and e: "st' = s1\<lparr>headerConnected := C, viewFilters := F, warnings := warnings s1 @ ws\<rparr>"
    and c: "headerConnected s1 \<subseteq> C" "C \<subseteq> headerConnected s1 \<union> set rest"
    by blast
  have sp: "headers s1 = headers st" by (simp add: e1)
  have K: "K' = K \<union> {qt_toLower qt (hv_objectName (headers st ! j)) |j.
                  j \<in> set (a # rest) \<and> hv_objectName (headers st ! j) \<noteq> []}"
    unfolding k sp k1 by auto
  have E: "st' = st\<lparr>headerConnected := C, viewFilters := F, warnings := warnings st @ (w1 @ ws)\<rparr>"
    by (simp add: e e1)
  have Cs: "headerConnected st \<subseteq> C" "C \<subseteq> headerConnected st \<union> set (a # rest)"
    using c c1 by (auto simp: e1)
  from K E Cs show ?case by blast
qed

lemma setup_splitters_duplicate:
  assumes f: "fold (setupSplitter qt) [0..<n] (K, st) = (K', st')" and j: "j < n"
    and nm: "sp_objectName (splitters st ! j) \<noteq> []"
    and dup: "qt_toLower qt (sp_objectName (splitters st ! j)) \<in> K
        \<or> (\<exists>i<j. sp_objectName (splitters st ! i) \<noteq> []
              \<and> qt_toLower qt (sp_objectName (splitters st ! i))
                  = qt_toLower qt (sp_objectName (splitters st ! j)))"
  shows "DuplicateWidgetName (qt_toLower qt (sp_objectName (splitters st ! j))) \<in> set (warnings st')
       \<and> (j \<in> splitterConnected st' \<longleftrightarrow> j \<in> splitterConnected st)"
proof -
  let ?l = "qt_toLower qt (sp_objectName (splitters st ! j))"
  obtain K1 s1 where p1: "fold (setupSplitter qt) [0..<j] (K, st) = (K1, s1)"
    by (cases "fold (setupSplitter qt) [0..<j] (K, st)")
  obtain K2 s2 where p2: "setupSplitter qt j (K1, s1) = (K2, s2)"
    by (cases "setupSplitter qt j (K1, s1)")
  from f p1 p2 have p3: "fold (setupSplitter qt) [Suc j..<n] (K2, s2) = (K', st')"
    by (simp add: upt_split3 [OF j])
  from fold_setupSplitter [OF p1] obtain C1 ws1 where
    k1: "K1 = K \<union> {qt_toLower qt (sp_objectName (splitters st ! i)) |i.
                  i \<in> set [0..<j] \<and> sp_objectName (splitters st ! i) \<noteq> []}"
    and e1: "s1 = st\<lparr>splitterConnected := C1, warnings := warnings st @ ws1\<rparr>"
    and c1: "splitterConnected st \<subseteq> C1" "C1 \<subseteq> splitterConnected st \<union> set [0..<j]"
    by blast
  from dup have l: "?l \<in> K1" unfolding k1 by auto
  from p2 l nm have e2: "s2 = s1\<lparr>warnings := warnings s1 @ [DuplicateWidgetName ?l]\<rparr>"
    by (simp add: setupSplitter_eq Let_def e1 del: setupSplitter.simps)
  from fold_setupSplitter [OF p3] obtain C3 ws3 where
    e3: "st' = s2\<lparr>splitterConnected := C3, warnings := warnings s2 @ ws3\<rparr>"
    and c3: "splitterConnected s2 \<subseteq> C3" "C3 \<subseteq> splitterConnected s2 \<union> set [Suc j..<n]"
    by blast
  have w: "DuplicateWidgetName ?l \<in> set (warnings st')"
    by (simp add: e3 e2)
  have c2: "splitterConnected s2 = C1" by (simp add: e2 e1)
  have nj: "j \<notin> set [0..<j]" "j \<notin> set [Suc j..<n]" by simp_all
  from c1 c3 nj have "j \<in> C3 \<longleftrightarrow> j \<in> splitterConnected st"
    unfolding c2 by blast
  then have "j \<in> splitterConnected st' \<longleftrightarrow> j \<in> splitterConnected st" by (simp add: e3)
  with w show ?thesis by simp
qed

lemma setup_headers_duplicate:
  assumes f: "fold (setupHeader qt) [0..<n] (K, st) = (K', st')" and j: "j < n"
    and nm: "hv_objectName (headers st ! j) \<noteq> []"
    and dup: "qt_toLower qt (hv_objectName (headers st ! j)) \<in> K
        \<or> (\<exists>i<j. hv_objectName (headers st ! i) \<noteq> []
              \<and> qt_toLower qt (hv_objectName (headers st ! i))
                  = qt_toLower qt (hv_objectName (headers st ! j)))"
  shows "DuplicateWidgetName (qt_toLower qt (hv_objectName (headers st ! j))) \<in> set (warnings st')
       \<and> (j \<in> headerConnected st' \<longleftrightarrow> j \<in> headerConnected st)"
proof -
  let ?l = "qt_toLower qt (hv_objectName (headers st ! j))"
  obtain K1 s1 where p1: "fold (setupHeader qt) [0..<j] (K, st) = (K1, s1)"
    by (cases "fold (setupHeader qt) [0..<j] (K, st)")
  obtain K2 s2 where p2: "setupHeader qt j (K1, s1) = (K2, s2)"
    by (cases "setupHeader qt j (K1, s1)")
  from f p1 p2 have p3: "fold (setupHeader qt) [Suc j..<n] (K2, s2) = (K', st')"
    by (simp add: upt_split3 [OF j])
  from fold_setupHeader [OF p1] obtain C1 F1 ws1 where
    k1: "K1 = K \<union> {qt_toLower qt (hv_objectName (headers st ! i)) |i.
                  i \<in> set [0..<j] \<and> hv_objectName (headers st ! i) \<noteq> []}"
    and e1: "s1 = st\<lparr>headerConnected := C1, viewFilters := F1, warnings := warnings st @ ws1\<rparr>"
    and c1: "headerConnected st \<subseteq> C1" "C1 \<subseteq> headerConnected st \<union> set [0..<j]"
    by blast
  from dup have l: "?l \<in> K1" unfolding k1 by auto
  from p2 l nm have e2: "s2 = s1\<lparr>warnings := warnings s1 @ [DuplicateWidgetName ?l]\<rparr>"
    by (simp add: setupHeader_eq Let_def e1 del: setupHeader.simps)
  from fold_setupHeader [OF p3] obtain C3 F3 ws3 where
    e3: "st' = s2\<lparr>headerConnected := C3, viewFilters := F3, warnings := warnings s2 @ ws3\<rparr>"
    and c3: "headerConnected s2 \<subseteq> C3" "C3 \<subseteq> headerConnected s2 \<union> set [Suc j..<n]"
    by blast
  have w: "DuplicateWidgetName ?l \<in> set (warnings st')"
    by (simp add: e3 e2)
  have c2: "headerConnected s2 = C1" by (simp add: e2 e1)
  have nj: "j \<notin> set [0..<j]" "j \<notin> set [Suc j..<n]" by simp_all
  from c1 c3 nj have "j \<in> C3 \<longleftrightarrow> j \<in> headerConnected st"
    unfolding c2 by blast
  then have "j \<in> headerConnected st' \<longleftrightarrow> j \<in> headerConnected st" by (simp add: e3)
  with w show ?thesis by simp
qed

lemma setupManager_named:
  assumes "setupManager qt st = Inr st'" "w_objectName (m_widget st) \<noteq> []"
  obtains K1 st3 K2 st4 where
    "fold (setupSplitter qt) [0..<length (splitters st)]
       ({qt_toLower qt (w_objectName (m_widget st))},
        st\<lparr>m_initialized := True,
           m_stateSettings := beginGroup (''UiState/'' @ w_objectName (m_widget st))
                                (m_stateSettings st)\<rparr>) = (K1, st3)"
    and "fold (setupHeader qt) [0..<length (headers st)] (K1, st3) = (K2, st4)"
    and "restoreState qt st4 = Inr st'"
proof -
  let ?st2 = "st\<lparr>m_initialized := True,
           m_stateSettings := beginGroup (''UiState/'' @ w_objectName (m_widget st))
                                (m_stateSettings st)\<rparr>"
  obtain K1 st3 where p1: "fold (setupSplitter qt) [0..<length (splitters st)]
       ({qt_toLower qt (w_objectName (m_widget st))}, ?st2) = (K1, st3)"
    by (cases "fold (setupSplitter qt) [0..<length (splitters st)]
       ({qt_toLower qt (w_objectName (m_widget st))}, ?st2)")
  obtain K2 st4 where p2: "fold (setupHeader qt) [0..<length (headers st)] (K1, st3) = (K2, st4)"
    by (cases "fold (setupHeader qt) [0..<length (headers st)] (K1, st3)")
  from fold_setupSplitter [OF p1] have h3: "headers st3 = headers st" by auto
  from assms p1 p2 h3 have "restoreState qt st4 = Inr st'"
    by (simp add: setupManager_def checkWidget_def objectName_simps Let_def)
  with p1 p2 show ?thesis by (rule that)
qed

subsection \<open>Widgets without a name; duplicates in setup\<close>

lemma saveState_warnings:
  "warnings (saveState st) = warnings st
     @ concat (map (\<lambda>i. noNameWarning (SplitterRef i) (sp_objectName (splitters st ! i)))
                 [0..<length (splitters st)])
     @ concat (map (\<lambda>i. noNameWarning (HeaderRef i) (hv_objectName (headers st ! i)))
                 [0..<length (headers st)])"
  by (simp add: saveState_def saveHeaderState_eq saveSplitterState_eq saveWindowState_eq
      headerTargets_def splitterTargets_def)

lemma noName_in_concat:
  "i < n \<Longrightarrow> name i = [] \<Longrightarrow>
     WidgetWithNoName (ref i) \<in> set (concat (map (\<lambda>i. noNameWarning (ref i) (name i)) [0..<n]))"
  by (auto simp: noNameWarning_def)

lemma saveState_unnamed_key:
  assumes "w_objectName (m_widget st) \<noteq> []"
  shows "qs_values (m_stateSettings (saveState st)) (fullKey (m_stateSettings st) ([] @ ''State''))
           = qs_values (m_stateSettings st) (fullKey (m_stateSettings st) ([] @ ''State''))"
proof (rule ccontr)
  assume "\<not> ?thesis"
  from saveState_changes [OF this] assms show False
    by (auto simp: fullKey_def widgetStateKey_def widgetGeometryKey_def objectName_simps
        append_eq_Cons_conv)
qed

lemma restoreState_unnamed_splitter:
  assumes r: "restoreState qt st = Inr st'" and i: "i < length (splitters st)"
    and n: "sp_objectName (splitters st ! i) = []"
  shows "splitters st' ! i = splitters st ! i
       \<and> WidgetWithNoName (SplitterRef i) \<in> set (warnings st')"
proof -
  let ?w = "restoreWindowState st"
  from restoreState_parts [OF r] obtain s1 where
    a: "restoreSplitterState qt None ?w = Inr s1" and b: "restoreHeaderState qt None s1 = Inr st'"
    and e: "splitters st' = splitters s1" by metis
  have i': "i < length (splitters ?w)" "i \<in> set (splitterTargets None ?w)"
    using i by (simp_all add: restoreWindowState_fields splitterTargets_def)
  from restoreSplitterState_nth [OF a i'(1)] i'(2) n
  have "splitters s1 ! i = splitters st ! i"
    by (simp add: restoreWindowState_fields splitterRestored_def)
  moreover have "WidgetWithNoName (SplitterRef i) \<in> set (warnings s1)"
    using noName_in_concat [of i "length (splitters st)" "\<lambda>i. sp_objectName (splitters st ! i)" SplitterRef]
      i n
    by (simp add: restoreSplitterState_warnings [OF a] restoreWindowState_fields splitterTargets_def)
  moreover have "set (warnings s1) \<subseteq> set (warnings st')"
    by (simp add: restoreHeaderState_warnings [OF b])
  ultimately show ?thesis using e by auto
qed

lemma restoreState_unnamed_header:
  assumes r: "restoreState qt st = Inr st'" and i: "i < length (headers st)"
    and n: "hv_objectName (headers st ! i) = []"
  shows "headers st' ! i = headers st ! i
       \<and> WidgetWithNoName (HeaderRef i) \<in> set (warnings st')"
proof -
  from restoreState_parts [OF r] obtain s1 where
    b: "restoreHeaderState qt None s1 = Inr st'"
    and e: "headers s1 = headers st" by metis
  have i': "i < length (headers s1)" "i \<in> set (headerTargets None s1)"
    using i by (simp_all add: e headerTargets_def)
  from restoreHeaderState_nth [OF b i'(1)] i'(2) n
  have "headers st' ! i = headers st ! i"
    by (simp add: e headerRestored_def)
  moreover have "WidgetWithNoName (HeaderRef i) \<in> set (warnings st')"
    using noName_in_concat [of i "length (headers st)" "\<lambda>i. hv_objectName (headers st ! i)" HeaderRef]
      i n
    by (simp add: restoreHeaderState_warnings [OF b] e headerTargets_def)
  ultimately show ?thesis by simp
qed

lemma setupManager_duplicate_splitter:
  assumes s: "setupManager qt st = Inr st'" and root: "w_objectName (m_widget st) \<noteq> []"
    and j: "j < length (splitters st)" and d: "duplicateSplitterName qt st j"
  shows "DuplicateWidgetName (qt_toLower qt (sp_objectName (splitters st ! j))) \<in> set (warnings st')
       \<and> (j \<in> splitterConnected st' \<longleftrightarrow> j \<in> splitterConnected st)"
proof -
  let ?st2 = "st\<lparr>m_initialized := True,
           m_stateSettings := beginGroup (''UiState/'' @ w_objectName (m_widget st))
                                (m_stateSettings st)\<rparr>"
  from setupManager_named [OF s root] obtain K1 st3 K2 st4 where
    p1: "fold (setupSplitter qt) [0..<length (splitters st)]
           ({qt_toLower qt (w_objectName (m_widget st))}, ?st2) = (K1, st3)"
    and p2: "fold (setupHeader qt) [0..<length (headers st)] (K1, st3) = (K2, st4)"
    and r: "restoreState qt st4 = Inr st'" by metis
  from d have "sp_objectName (splitters ?st2 ! j) \<noteq> []"
    "qt_toLower qt (sp_objectName (splitters ?st2 ! j)) \<in> {qt_toLower qt (w_objectName (m_widget st))}
        \<or> (\<exists>i<j. sp_objectName (splitters ?st2 ! i) \<noteq> []
              \<and> qt_toLower qt (sp_objectName (splitters ?st2 ! i))
                  = qt_toLower qt (sp_objectName (splitters ?st2 ! j)))"
    by (auto simp: duplicateSplitterName_def)
  from setup_splitters_duplicate [OF p1 j this]
  have 3: "DuplicateWidgetName (qt_toLower qt (sp_objectName (splitters st ! j))) \<in> set (warnings st3)"
    "j \<in> splitterConnected st3 \<longleftrightarrow> j \<in> splitterConnected st" by simp_all
  from fold_setupHeader [OF p2] obtain C F ws where
    "st4 = st3\<lparr>headerConnected := C, viewFilters := F, warnings := warnings st3 @ ws\<rparr>" by blast
  with 3 have 4: "DuplicateWidgetName (qt_toLower qt (sp_objectName (splitters st ! j))) \<in> set (warnings st4)"
    "j \<in> splitterConnected st4 \<longleftrightarrow> j \<in> splitterConnected st" by simp_all
  from restoreState_frame [OF r] obtain w ss hs ws' where
    "st' = st4\<lparr>m_widget := w, splitters := ss, headers := hs, warnings := warnings st4 @ ws'\<rparr>"
    by blast
  with 4 show ?thesis by simp
qed

lemma setupManager_duplicate_header:
  assumes s: "setupManager qt st = Inr st'" and root: "w_objectName (m_widget st) \<noteq> []"
    and j: "j < length (headers st)" and d: "duplicateHeaderName qt st j"
  shows "DuplicateWidgetName (qt_toLower qt (hv_objectName (headers st ! j))) \<in> set (warnings st')
       \<and> (j \<in> headerConnected st' \<longleftrightarrow> j \<in> headerConnected st)"
proof -
  let ?st2 = "st\<lparr>m_initialized := True,
           m_stateSettings := beginGroup (''UiState/'' @ w_objectName (m_widget st))
                                (m_stateSettings st)\<rparr>"
  from setupManager_named [OF s root] obtain K1 st3 K2 st4 where
    p1: "fold (setupSplitter qt) [0..<length (splitters st)]
           ({qt_toLower qt (w_objectName (m_widget st))}, ?st2) = (K1, st3)"
    and p2: "fold (setupHeader qt) [0..<length (headers st)] (K1, st3) = (K2, st4)"
    and r: "restoreState qt st4 = Inr st'" by metis
  from fold_setupSplitter [OF p1] obtain C ws where
    k1: "K1 = {qt_toLower qt (w_objectName (m_widget st))}
            \<union> {qt_toLower qt (sp_objectName (splitters ?st2 ! i)) |i.
                  i \<in> set [0..<length (splitters st)] \<and> sp_objectName (splitters ?st2 ! i) \<noteq> []}"
    and e3: "st3 = ?st2\<lparr>splitterConnected := C, warnings := warnings ?st2 @ ws\<rparr>" by blast
  have h3: "headers st3 = headers st" "headerConnected st3 = headerConnected st"
    by (simp_all add: e3)
  from d have "hv_objectName (headers st3 ! j) \<noteq> []"
    "qt_toLower qt (hv_objectName (headers st3 ! j)) \<in> K1
        \<or> (\<exists>i<j. hv_objectName (headers st3 ! i) \<noteq> []
              \<and> qt_toLower qt (hv_objectName (headers st3 ! i))
                  = qt_toLower qt (hv_objectName (headers st3 ! j)))"
    unfolding k1 h3 by (auto simp: duplicateHeaderName_def)
  from setup_headers_duplicate [OF p2 j this]
  have 4: "DuplicateWidgetName (qt_toLower qt (hv_objectName (headers st ! j))) \<in> set (warnings st4)"
    "j \<in> headerConnected st4 \<longleftrightarrow> j \<in> headerConnected st" by (simp_all add: h3)
  from restoreState_frame [OF r] obtain w ss hs ws' where
    "st' = st4\<lparr>m_widget := w, splitters := ss, headers := hs, warnings := warnings st4 @ ws'\<rparr>"
    by blast
  with 4 show ?thesis by simp
qed

subsection \<open>Restoring twice\<close>

lemma splitterEntry_sizes [simp]:
  "splitterEntry qt (sp\<lparr>sp_sizes := x\<rparr>) e = splitterEntry qt sp e"
  by (simp add: splitterEntry_def Let_def split: QVariant.splits)

lemma splitterEntries_sizes [simp]:
  "splitterEntries qt (sp\<lparr>sp_sizes := x\<rparr>) ds = splitterEntries qt sp ds"
  by (induction ds) (simp_all split: sum.splits)

lemma splitterRestored_idem:
  assumes "splitterRestored qt S D r sp = Inr sp'"
  shows "splitterRestored qt S D r sp' = Inr sp'"
proof (cases "sp_objectName sp = []")
  case True
  with assms show ?thesis by (simp add: splitterRestored_def)
next
  case named: False
  show ?thesis
  proof (cases "settingsValue S (sp_objectName sp @ ''State'') = []")
    case blob: False
    show ?thesis
    proof (cases r)
      case True
      with assms named blob show ?thesis by (simp add: splitterRestored_def)
    next
      case False
      with assms named blob
      have "sp' = sp\<lparr>sp_state := settingsValue S (sp_objectName sp @ ''State''),
                       sp_customized := True\<rparr>"
        by (simp add: splitterRestored_def)
      with named blob False show ?thesis by (simp add: splitterRestored_def)
    qed
  next
    case empty: True
    show ?thesis
    proof (cases "hashValue D (sp_objectName sp) = []")
      case True
      with assms named empty show ?thesis by (simp add: splitterRestored_def)
    next
      case False
      with assms named empty obtain sizes where
        l: "length (hashValue D (sp_objectName sp)) = sp_count sp"
        and e: "splitterEntries qt sp (hashValue D (sp_objectName sp)) = Inr sizes"
        and s: "sp' = sp\<lparr>sp_sizes := distributeSpace sizes (splitterExtent sp) (sp_handleWidth sp)\<rparr>"
        by (auto simp: splitterRestored_def Let_def split: if_splits sum.splits)
      have x: "splitterExtent sp' = splitterExtent sp"
        by (simp add: s splitterExtent_def)
      from named empty False l e x show ?thesis
        by (simp add: splitterRestored_def s)
    qed
  qed
qed

lemma applyHeaderDefaults_idem:
  assumes "applyHeaderDefaults qt view ds i h = Inr h'"
  shows "applyHeaderDefaults qt view ds i h' = Inr h'"
proof -
  note e = applyHeaderDefaults_eq [OF assms]
  have "\<exists>h''. applyHeaderDefaults qt view ds i h' = Inr h''"
  proof (cases "applyHeaderDefaults qt view ds i h'")
    case (Inl x)
    from applyHeaderDefaults_fails [OF Inl] obtain d where
      d: "d \<in> set ds" "headerEntry qt view h' d = Inl x" by blast
    from d(2) have "headerEntry qt view h d = Inl x" by (subst (asm) e) simp
    from headerEntry_fails [OF this] d(1) have v: "VOther \<in> set ds" by simp
    have "\<And>i h. VOther \<in> set ds \<Longrightarrow> \<exists>x. applyHeaderDefaults qt view ds i h = Inl x"
    proof (induction ds)
      case Nil
      then show ?case by simp
    next
      case (Cons a ds)
      show ?case
      proof (cases "headerEntry qt view h a")
        case (Inl y)
        then show ?thesis by simp
      next
        case (Inr n)
        with Cons have "a \<noteq> VOther" by (auto simp: headerEntry_def)
        with Cons.prems have "VOther \<in> set ds" by simp
        from Cons.IH [OF this] Inr show ?thesis by simp
      qed
    qed
    from this [OF v, of i h] assms show ?thesis by simp
  next
    case (Inr h'')
    then show ?thesis by simp
  qed
  then obtain h'' where h'': "applyHeaderDefaults qt view ds i h' = Inr h''" by blast
  define F where "F = (\<lambda>c. if i \<le> c \<and> c < i + length ds \<and> c < hv_count h \<and> resizableSection h c
                 then sectionDefault qt view h (ds ! (c - i)) c
                 else hv_sectionSize h c)"
  have eF: "h' = h\<lparr>hv_sectionSize := F\<rparr>"
    using e by (simp add: F_def)
  have "(\<lambda>c. if i \<le> c \<and> c < i + length ds \<and> c < hv_count h' \<and> resizableSection h' c
                 then sectionDefault qt view h' (ds ! (c - i)) c
                 else hv_sectionSize h' c) = F"
    by (rule ext) (simp add: eF, simp add: F_def)
  with applyHeaderDefaults_eq [OF h''] have "h'' = h'\<lparr>hv_sectionSize := F\<rparr>" by simp
  then have "h'' = h'" by (simp add: eF)
  with h'' show ?thesis by simp
qed

lemma headerRestored_idem:
  assumes "headerRestored qt S D r vs h = Inr h'"
  shows "headerRestored qt S D r vs h' = Inr h'"
proof (cases "hv_objectName h = [] \<or> hv_count h = 0")
  case True
  with assms show ?thesis by (auto simp: headerRestored_def)
next
  case named: False
  show ?thesis
  proof (cases "settingsValue S (hv_objectName h @ ''State'') = []")
    case blob: False
    show ?thesis
    proof (cases r)
      case True
      with assms named blob show ?thesis by (simp add: headerRestored_def)
    next
      case False
      with assms named blob
      have "h' = h\<lparr>hv_state := settingsValue S (hv_objectName h @ ''State''),
                     hv_customized := True\<rparr>"
        by (simp add: headerRestored_def)
      with named blob False show ?thesis by (simp add: headerRestored_def)
    qed
  next
    case empty: True
    show ?thesis
    proof (cases "hashValue D (hv_objectName h) = []")
      case True
      with assms named empty show ?thesis by (simp add: headerRestored_def)
    next
      case False
      with assms named empty have
        l: "length (hashValue D (hv_objectName h)) = hv_count h"
        and a: "applyHeaderDefaults qt (vs (hv_view h)) (hashValue D (hv_objectName h)) 0 h = Inr h'"
        by (auto simp: headerRestored_def Let_def split: if_splits)
      note e = applyHeaderDefaults_eq [OF a]
      have f: "hv_objectName h' = hv_objectName h" "hv_count h' = hv_count h"
        "hv_view h' = hv_view h"
        by (subst e, simp)+
      from applyHeaderDefaults_idem [OF a] named empty False l show ?thesis
        by (simp add: headerRestored_def f)
    qed
  qed
qed

lemma restoreWindowState_eq:
  "restoreWindowState st =
     st\<lparr>m_widget := windowRestored (m_stateSettings st) (screen st) (m_resizing st) (m_widget st)\<rparr>"
  by (simp add: restoreWindowState_def windowRestored_def widgetGeometryKey_def widgetStateKey_def
      objectName_simps Let_def)

lemma windowRestored_idem:
  "windowRestored S sc r (windowRestored S sc r w) = windowRestored S sc r w"
  by (simp add: windowRestored_def Let_def)

lemma windowRestored_name [simp]:
  "w_objectName (windowRestored S sc r w) = w_objectName w"
  by (simp add: windowRestored_def Let_def)

lemma restoreSplitterState_idem:
  assumes a: "restoreSplitterState qt None s = Inr s1"
    and t: "splitters t = splitters s1" "m_stateSettings t = m_stateSettings s"
      "m_defaultSplitterSizes t = m_defaultSplitterSizes s" "m_resizing t = m_resizing s"
  shows "\<exists>t1. restoreSplitterState qt None t = Inr t1 \<and> splitters t1 = splitters s1"
proof -
  let ?n = "length (splitters s)"
  from restoreSplitterState_frame [OF a] have len: "length (splitters s1) = ?n" by auto
  have R: "splitterRestored qt (m_stateSettings s) (m_defaultSplitterSizes s) (m_resizing s)
             (splitters s1 ! j) = Inr (splitters s1 ! j)" if "j < ?n" for j
  proof -
    from that have "j \<in> set (splitterTargets None s)" by (simp add: splitterTargets_def)
    with restoreSplitterState_nth [OF a that]
    have "splitterRestored qt (m_stateSettings s) (m_defaultSplitterSizes s) (m_resizing s)
             (splitters s ! j) = Inr (splitters s1 ! j)" by simp
    then show ?thesis by (rule splitterRestored_idem)
  qed
  have tg: "set (splitterTargets None t) = {..<?n}"
    by (auto simp: splitterTargets_def t(1) len)
  obtain t1 where t1: "restoreSplitterState qt None t = Inr t1"
  proof (cases "restoreSplitterState qt None t")
    case (Inl e)
    from restoreSplitterState_fails [OF Inl] tg R show ?thesis
      by (auto simp: t)
  next
    case (Inr t1)
    then show ?thesis by (rule that)
  qed
  from restoreSplitterState_frame [OF t1] have len1: "length (splitters t1) = ?n"
    by (auto simp: t(1) len)
  have "splitters t1 = splitters s1"
  proof (rule nth_equalityI)
    show "length (splitters t1) = length (splitters s1)" by (simp add: len len1)
  next
    fix j assume "j < length (splitters t1)"
    then have j: "j < ?n" by (simp add: len1)
    then have jt: "j < length (splitters t)" "j \<in> set (splitterTargets None t)"
      using tg by (simp_all add: t(1) len)
    from restoreSplitterState_nth [OF t1 jt(1)] jt(2) R [OF j]
    show "splitters t1 ! j = splitters s1 ! j" by (simp add: t)
  qed
  with t1 show ?thesis by blast
qed

lemma restoreHeaderState_idem:
  assumes a: "restoreHeaderState qt None s = Inr s1"
    and t: "headers t = headers s1" "m_stateSettings t = m_stateSettings s"
      "m_defaultHeaderSizes t = m_defaultHeaderSizes s" "m_resizing t = m_resizing s"
      "views t = views s"
  shows "\<exists>t1. restoreHeaderState qt None t = Inr t1 \<and> headers t1 = headers s1"
proof -
  let ?n = "length (headers s)"
  from restoreHeaderState_frame [OF a] have len: "length (headers s1) = ?n" by auto
  have R: "headerRestored qt (m_stateSettings s) (m_defaultHeaderSizes s) (m_resizing s) (views s)
             (headers s1 ! j) = Inr (headers s1 ! j)" if "j < ?n" for j
  proof -
    from that have "j \<in> set (headerTargets None s)" by (simp add: headerTargets_def)
    with restoreHeaderState_nth [OF a that]
    have "headerRestored qt (m_stateSettings s) (m_defaultHeaderSizes s) (m_resizing s) (views s)
             (headers s ! j) = Inr (headers s1 ! j)" by simp
    then show ?thesis by (rule headerRestored_idem)
  qed
  have tg: "set (headerTargets None t) = {..<?n}"
    by (auto simp: headerTargets_def t(1) len)
  obtain t1 where t1: "restoreHeaderState qt None t = Inr t1"
  proof (cases "restoreHeaderState qt None t")
    case (Inl e)
    from restoreHeaderState_fails [OF Inl] tg R show ?thesis
      by (auto simp: t)
  next
    case (Inr t1)
    then show ?thesis by (rule that)
  qed
  from restoreHeaderState_frame [OF t1] have len1: "length (headers t1) = ?n"
    by (auto simp: t(1) len)
  have "headers t1 = headers s1"
  proof (rule nth_equalityI)
    show "length (headers t1) = length (headers s1)" by (simp add: len len1)
  next
    fix j assume "j < length (headers t1)"
    then have j: "j < ?n" by (simp add: len1)
    then have jt: "j < length (headers t)" "j \<in> set (headerTargets None t)"
      using tg by (simp_all add: t(1) len)
    from restoreHeaderState_nth [OF t1 jt(1)] jt(2) R [OF j]
    show "headers t1 ! j = headers s1 ! j" by (simp add: t)
  qed
  with t1 show ?thesis by blast
qed

lemma restoreState_idem:
  assumes r: "restoreState qt s = Inr s'"
    and t: "m_widget t = m_widget s'" "splitters t = splitters s'" "headers t = headers s'"
      "views t = views s" "screen t = screen s" "m_stateSettings t = m_stateSettings s"
      "m_defaultSplitterSizes t = m_defaultSplitterSizes s"
      "m_defaultHeaderSizes t = m_defaultHeaderSizes s" "m_resizing t = m_resizing s"
  shows "\<exists>t'. restoreState qt t = Inr t' \<and> m_widget t' = m_widget s'
           \<and> splitters t' = splitters s' \<and> headers t' = headers s'"
proof -
  from r obtain s1 where a: "restoreSplitterState qt None (restoreWindowState s) = Inr s1"
    and b: "restoreHeaderState qt None s1 = Inr s'"
    by (auto simp: restoreState_def split: sum.splits)
  from restoreSplitterState_frame [OF a] obtain ss ws where
    s1: "s1 = (restoreWindowState s)\<lparr>splitters := ss, warnings := ws\<rparr>" by blast
  from restoreHeaderState_frame [OF b] obtain hs ws' where
    s': "s' = s1\<lparr>headers := hs, warnings := ws'\<rparr>" by blast
  have w: "m_widget s' = windowRestored (m_stateSettings s) (screen s) (m_resizing s) (m_widget s)"
    by (simp add: s' s1 restoreWindowState_eq)
  let ?tw = "restoreWindowState t"
  have tw: "m_widget ?tw = m_widget s'"
    by (simp add: restoreWindowState_eq t w windowRestored_idem)
  have "splitters ?tw = splitters s1"
    by (simp add: restoreWindowState_fields t s')
  from restoreSplitterState_idem [OF a this]
  obtain t1 where t1: "restoreSplitterState qt None ?tw = Inr t1" "splitters t1 = splitters s1"
    by (auto simp: restoreWindowState_fields t)
  from restoreSplitterState_frame [OF t1(1)] obtain ss1 ws1 where
    t1e: "t1 = ?tw\<lparr>splitters := ss1, warnings := ws1\<rparr>" by blast
  have "headers t1 = headers s'" "m_stateSettings t1 = m_stateSettings s1"
    "m_defaultHeaderSizes t1 = m_defaultHeaderSizes s1" "m_resizing t1 = m_resizing s1"
    "views t1 = views s1"
    by (simp_all add: t1e s1 restoreWindowState_fields t)
  from restoreHeaderState_idem [OF b this]
  obtain t' where t': "restoreHeaderState qt None t1 = Inr t'" "headers t' = headers s'"
    by blast
  from restoreHeaderState_frame [OF t'(1)] obtain hs1 ws2 where
    t'e: "t' = t1\<lparr>headers := hs1, warnings := ws2\<rparr>" by blast
  have "restoreState qt t = Inr t'"
    by (simp add: restoreState_def t1(1) t'(1))
  moreover have "m_widget t' = m_widget s'"
    using tw by (simp add: t'e t1e)
  moreover have "splitters t' = splitters s'"
    using t1(2) by (simp add: t'e s')
  ultimately show ?thesis using t'(2) by blast
qed

subsection \<open>From setup to restoreState\<close>

text \<open>What \<open>setup\<close> hands to \<open>restoreState\<close> when the root widget has a name.\<close>

lemma setupManager_named_frame:
  assumes s: "setupManager qt st = Inr st'" and root: "w_objectName (m_widget st) \<noteq> []"
  obtains st4 C C' F ws where
    "st4 = st\<lparr>m_initialized := True,
              m_stateSettings := beginGroup (''UiState/'' @ w_objectName (m_widget st))
                                   (m_stateSettings st),
              splitterConnected := C, headerConnected := C', viewFilters := F,
              warnings := ws\<rparr>"
    and "restoreState qt st4 = Inr st'"
proof -
  from setupManager_named [OF s root] obtain K1 st3 K2 st4 where
    p1: "fold (setupSplitter qt) [0..<length (splitters st)]
           ({qt_toLower qt (w_objectName (m_widget st))},
            st\<lparr>m_initialized := True,
               m_stateSettings := beginGroup (''UiState/'' @ w_objectName (m_widget st))
                                    (m_stateSettings st)\<rparr>) = (K1, st3)"
    and p2: "fold (setupHeader qt) [0..<length (headers st)] (K1, st3) = (K2, st4)"
    and r: "restoreState qt st4 = Inr st'" by metis
  from fold_setupSplitter [OF p1] obtain C ws where
    e3: "st3 = st\<lparr>m_initialized := True,
               m_stateSettings := beginGroup (''UiState/'' @ w_objectName (m_widget st))
                                    (m_stateSettings st),
               splitterConnected := C, warnings := ws\<rparr>"
    by auto
  from fold_setupHeader [OF p2] obtain C' F ws' where
    e4: "st4 = st3\<lparr>headerConnected := C', viewFilters := F, warnings := ws'\<rparr>"
    by auto
  have "st4 = st\<lparr>m_initialized := True,
              m_stateSettings := beginGroup (''UiState/'' @ w_objectName (m_widget st))
                                   (m_stateSettings st),
              splitterConnected := C, headerConnected := C', viewFilters := F,
              warnings := ws'\<rparr>"
    by (simp add: e4 e3)
  then show ?thesis using r by (rule that)
qed

lemma setupManager_total_named:
  assumes root: "w_objectName (m_widget st) \<noteq> []"
  obtains st4 C C' F ws where
    "st4 = st\<lparr>m_initialized := True,
              m_stateSettings := beginGroup (''UiState/'' @ w_objectName (m_widget st))
                                   (m_stateSettings st),
              splitterConnected := C, headerConnected := C', viewFilters := F,
              warnings := ws\<rparr>"
    and "setupManager qt st = restoreState qt st4"
proof -
  let ?st2 = "st\<lparr>m_initialized := True,
               m_stateSettings := beginGroup (''UiState/'' @ w_objectName (m_widget st))
                                    (m_stateSettings st)\<rparr>"
  obtain K1 st3 where p1: "fold (setupSplitter qt) [0..<length (splitters st)]
       ({qt_toLower qt (w_objectName (m_widget st))}, ?st2) = (K1, st3)"
    by (cases "fold (setupSplitter qt) [0..<length (splitters st)]
       ({qt_toLower qt (w_objectName (m_widget st))}, ?st2)")
  obtain K2 st4 where p2: "fold (setupHeader qt) [0..<length (headers st)] (K1, st3) = (K2, st4)"
    by (cases "fold (setupHeader qt) [0..<length (headers st)] (K1, st3)")
  from fold_setupSplitter [OF p1] obtain C ws where
    e3: "st3 = ?st2\<lparr>splitterConnected := C, warnings := ws\<rparr>"
    by auto
  from fold_setupHeader [OF p2] obtain C' F ws' where
    e4: "st4 = st3\<lparr>headerConnected := C', viewFilters := F, warnings := ws'\<rparr>"
    by auto
  have h3: "headers st3 = headers st" by (simp add: e3)
  have a: "st4 = st\<lparr>m_initialized := True,
              m_stateSettings := beginGroup (''UiState/'' @ w_objectName (m_widget st))
                                   (m_stateSettings st),
              splitterConnected := C, headerConnected := C', viewFilters := F,
              warnings := ws'\<rparr>"
    by (simp add: e4 e3)
  from root p1 p2 h3 have b: "setupManager qt st = restoreState qt st4"
    by (simp add: setupManager_def checkWidget_def objectName_simps Let_def)
  from a b show ?thesis by (rule that)
qed

lemma setupManager_values:
  assumes "setupManager qt st = Inr st'"
  shows "qs_values (m_stateSettings st') = qs_values (m_stateSettings st)"
proof (cases "w_objectName (m_widget st) = []")
  case True
  with assms show ?thesis by (auto simp: setupManager_unnamed qWarning_def)
next
  case False
  from setupManager_named_frame [OF assms False] obtain st4 C C' F ws where
    e: "st4 = st\<lparr>m_initialized := True,
              m_stateSettings := beginGroup (''UiState/'' @ w_objectName (m_widget st))
                                   (m_stateSettings st),
              splitterConnected := C, headerConnected := C', viewFilters := F,
              warnings := ws\<rparr>"
    and r: "restoreState qt st4 = Inr st'" by metis
  from restoreState_frame [OF r] have "m_stateSettings st' = m_stateSettings st4" by auto
  then show ?thesis by (simp add: e beginGroup_def)
qed

subsection \<open>The defaults and the state that a restore applies; the headers of a view\<close>

lemma splitterRestored_defaults:
  assumes "splitterRestored qt S D r sp = Inr sp'" "sp_objectName sp \<noteq> []"
    and "settingsValue S (sp_objectName sp @ ''State'') = []"
    and "D (sp_objectName sp) = Some spec" "spec \<noteq> []"
  shows "length spec = sp_count sp
       \<and> (\<exists>rs. splitterEntries qt sp spec = Inr rs
              \<and> sp' = sp\<lparr>sp_sizes :=
                          distributeSpace rs
                            (if sp_orientation sp = Horizontal then sp_width sp else sp_height sp)
                            (sp_handleWidth sp)\<rparr>)"
  using assms
  by (auto simp: splitterRestored_def hashValue_def splitterExtent_def Let_def
      split: if_splits sum.splits)

lemma headerRestored_defaults:
  assumes "headerRestored qt S D r vs h = Inr h'" "hv_objectName h \<noteq> []" "hv_count h \<noteq> 0"
    and "settingsValue S (hv_objectName h @ ''State'') = []"
    and "D (hv_objectName h) = Some spec" "spec \<noteq> []"
  shows "length spec = hv_count h
       \<and> applyHeaderDefaults qt (vs (hv_view h)) spec 0 h = Inr h'"
  using assms
  by (auto simp: headerRestored_def hashValue_def Let_def split: if_splits)

lemma headerRestored_blob:
  assumes "hv_objectName h \<noteq> []" "hv_count h \<noteq> 0"
    and "settingsValue S (hv_objectName h @ ''State'') = b" "b \<noteq> []"
  shows "headerRestored qt S D r vs h =
           Inr (if r then h else h\<lparr>hv_state := b, hv_customized := True\<rparr>)"
  using assms by (simp add: headerRestored_def Let_def)

lemma foldE_restoreHeaderState_Some:
  "\<forall>h\<in>set hs. h < length (headers st) \<Longrightarrow>
     foldE (\<lambda>h. restoreHeaderState qt (Some h)) hs st = foldE (restoreHeader qt) hs st"
proof (induction hs arbitrary: st)
  case Nil
  then show ?case by simp
next
  case (Cons a rest)
  from Cons.prems have a: "a < length (headers st)" by simp
  have e: "restoreHeaderState qt (Some a) st = restoreHeader qt a st"
    using a by (simp add: restoreHeaderState_def headerTargets_def split: sum.splits)
  show ?case
  proof (cases "restoreHeader qt a st")
    case (Inl x)
    then show ?thesis by (simp add: e)
  next
    case (Inr s1)
    then have "length (headers s1) = length (headers st)"
      by (auto simp: restoreHeader_eq split: sum.splits)
    with Cons.prems have "\<forall>h\<in>set rest. h < length (headers s1)" by simp
    from Cons.IH [OF this] Inr show ?thesis by (simp add: e)
  qed
qed

lemma headersOfView_facts:
  "distinct (headersOfView v st)"
  "h \<in> set (headersOfView v st) \<longleftrightarrow> h < length (headers st) \<and> hv_view (headers st ! h) = v"
  by (auto simp: headersOfView_def)

lemma widgetResized_view_nth:
  assumes "foldE (\<lambda>h. restoreHeaderState qt (Some h)) (headersOfView v st) st = Inr st'"
    and "i < length (headers st)"
  shows "(hv_view (headers st ! i) = v \<longrightarrow>
            headerRestored qt (m_stateSettings st) (m_defaultHeaderSizes st) (m_resizing st)
              (views st) (headers st ! i) = Inr (headers st' ! i))
       \<and> (hv_view (headers st ! i) \<noteq> v \<longrightarrow> headers st' ! i = headers st ! i)
       \<and> splitters st' = splitters st \<and> m_widget st' = m_widget st
       \<and> m_stateSettings st' = m_stateSettings st"
proof -
  have "\<forall>h\<in>set (headersOfView v st). h < length (headers st)"
    by (simp add: headersOfView_facts)
  from foldE_restoreHeaderState_Some [OF this] assms(1)
  have "foldE (restoreHeader qt) (headersOfView v st) st = Inr st'" by simp
  from foldE_restoreHeader [OF this headersOfView_facts(1)] obtain hs ws where
    "st' = st\<lparr>headers := hs, warnings := ws\<rparr>"
    "\<forall>j. j \<notin> set (headersOfView v st) \<longrightarrow> hs ! j = headers st ! j"
    "\<forall>j. j \<in> set (headersOfView v st) \<longrightarrow> j < length (headers st) \<longrightarrow>
            headerRestored qt (m_stateSettings st) (m_defaultHeaderSizes st) (m_resizing st)
              (views st) (headers st ! j) = Inr (hs ! j)"
    by blast
  with assms(2) show ?thesis by (simp add: headersOfView_facts)
qed

subsection \<open>When a restore returns\<close>

lemma splitterRestored_total:
  assumes "\<And>spec. D (sp_objectName sp) = Some spec \<Longrightarrow>
             spec = [] \<or> (length spec = sp_count sp \<and> VOther \<notin> set spec)"
  shows "\<exists>sp'. splitterRestored qt S D r sp = Inr sp'"
proof (cases "D (sp_objectName sp)")
  case None
  then show ?thesis by (simp add: splitterRestored_def hashValue_def Let_def)
next
  case (Some spec)
  from assms [OF Some] show ?thesis
  proof
    assume "spec = []"
    with Some show ?thesis by (simp add: splitterRestored_def hashValue_def Let_def)
  next
    assume a: "length spec = sp_count sp \<and> VOther \<notin> set spec"
    then have "\<exists>rs. splitterEntries qt sp spec = Inr rs"
      using splitterEntries_map [of spec qt sp] by simp
    with a Some show ?thesis
      by (auto simp: splitterRestored_def hashValue_def Let_def)
  qed
qed

lemma headerRestored_total:
  assumes "\<And>spec. D (hv_objectName h) = Some spec \<Longrightarrow>
             spec = [] \<or> (length spec = hv_count h \<and> VOther \<notin> set spec)"
  shows "\<exists>h'. headerRestored qt S D r vs h = Inr h'"
proof (cases "D (hv_objectName h)")
  case None
  then show ?thesis by (simp add: headerRestored_def hashValue_def Let_def)
next
  case (Some spec)
  from assms [OF Some] show ?thesis
  proof
    assume "spec = []"
    with Some show ?thesis by (simp add: headerRestored_def hashValue_def Let_def)
  next
    assume a: "length spec = hv_count h \<and> VOther \<notin> set spec"
    then have "\<forall>d\<in>set spec. d \<noteq> VOther" by auto
    from applyHeaderDefaults_total [OF this, of qt "vs (hv_view h)" 0 h] a Some show ?thesis
      by (auto simp: headerRestored_def hashValue_def Let_def)
  qed
qed

lemma restoreState_total:
  assumes s: "\<And>i spec. i < length (splitters st) \<Longrightarrow>
             m_defaultSplitterSizes st (sp_objectName (splitters st ! i)) = Some spec \<Longrightarrow>
             spec = [] \<or> (length spec = sp_count (splitters st ! i) \<and> VOther \<notin> set spec)"
    and h: "\<And>i spec. i < length (headers st) \<Longrightarrow>
             m_defaultHeaderSizes st (hv_objectName (headers st ! i)) = Some spec \<Longrightarrow>
             spec = [] \<or> (length spec = hv_count (headers st ! i) \<and> VOther \<notin> set spec)"
  shows "\<exists>st'. restoreState qt st = Inr st'"
proof -
  let ?w = "restoreWindowState st"
  have a: "\<exists>s1. restoreSplitterState qt None ?w = Inr s1"
  proof (cases "restoreSplitterState qt None ?w")
    case (Inl e)
    from restoreSplitterState_fails [OF Inl] obtain i where
      i: "i < length (splitters st)"
      and f: "splitterRestored qt (m_stateSettings st) (m_defaultSplitterSizes st) (m_resizing st)
             (splitters st ! i) = Inl e"
      by (auto simp: restoreWindowState_fields dest: splitterTargets_less)
    from splitterRestored_total [of "m_defaultSplitterSizes st" "splitters st ! i" qt
        "m_stateSettings st" "m_resizing st"] s [OF i] f
    show ?thesis by auto
  next
    case (Inr s1)
    then show ?thesis by simp
  qed
  then obtain s1 where s1: "restoreSplitterState qt None ?w = Inr s1" by blast
  from restoreSplitterState_frame [OF s1] obtain ss ws where
    e: "s1 = ?w\<lparr>splitters := ss, warnings := ws\<rparr>" by blast
  have b: "\<exists>st'. restoreHeaderState qt None s1 = Inr st'"
  proof (cases "restoreHeaderState qt None s1")
    case (Inl x)
    from restoreHeaderState_fails [OF Inl] obtain i where
      i: "i < length (headers st)"
      and f: "headerRestored qt (m_stateSettings st) (m_defaultHeaderSizes st) (m_resizing st)
             (views st) (headers st ! i) = Inl x"
      by (auto simp: e restoreWindowState_fields dest: headerTargets_less)
    from headerRestored_total [of "m_defaultHeaderSizes st" "headers st ! i" qt
        "m_stateSettings st" "m_resizing st" "views st"] h [OF i] f
    show ?thesis by auto
  next
    case (Inr s2)
    then show ?thesis by simp
  qed
  with s1 show ?thesis by (auto simp: restoreState_def)
qed

section \<open>Properties of the manager\<close>

subsection \<open>Default sizes of a splitter with one wildcard\<close>

text \<open>
  C1. Let the splitter at \<open>i\<close> have a name, no state in the settings, and a registered
  default-size vector \<open>spec\<close> of ints and strings, as long as its pane count N. Let
  \<open>extent\<close> be its width if it is horizontal and its height if it is vertical, and \<open>rs\<close>
  the entries resolved to pixels: an int is taken as it is, a string is \<open>-1\<close> when its
  number is \<open>-1\<close> and \<open>extent * number / 100\<close> otherwise. Let exactly one entry, at
  \<open>w\<close>, be a wildcard, that is, resolve to \<open>-1\<close>, and let \<open>fixed\<close> be the other resolved
  entries. Then restoring this splitter returns, and restoring it alone or with all
  splitters gives \<open>setSizes\<close> the resolved sizes with the wildcard replaced by
  extent - sum of fixed - (N + 1) * handle width, in the arithmetic of \<open>int\<close>. The sizes
  given to \<open>setSizes\<close> and the N + 1 handle widths that \<open>distributeSpace\<close> sets aside
  add up to the extent exactly: with one wildcard the division by the number of wildcards
  does not round. Whenever the value \<open>free\<close> of that expression over the integers fits an
  \<open>int\<close>, the wildcard pane has exactly this size, and the sizes and handle widths add up
  to the extent over the integers as well.
\<close>

theorem wildcard_pane_size:
  assumes i: "i < length (splitters st)"
    and sp: "sp = splitters st ! i"
    and name: "sp_objectName sp \<noteq> []"
    and blob: "settingsValue (m_stateSettings st) (sp_objectName sp @ ''State'') = []"
    and spec: "m_defaultSplitterSizes st (sp_objectName sp) = Some spec"
    and len: "length spec = sp_count sp"
    and other: "VOther \<notin> set spec"
    and extent: "extent = (if sp_orientation sp = Horizontal then sp_width sp else sp_height sp)"
    and rs: "rs = map (\<lambda>entry. case entry of
                         VInt n \<Rightarrow> n
                       | VString s \<Rightarrow>
                           if percentToInt qt s = - 1 then - 1
                           else intDiv (extent * percentToInt qt s) 100
                       | VOther \<Rightarrow> 0) spec"
    and w: "w < length rs" "rs ! w = - 1" "\<forall>j<length rs. j \<noteq> w \<longrightarrow> rs ! j \<noteq> - 1"
    and fixed: "fixed = take w rs @ drop (Suc w) rs"
    and free: "free = sint extent - sum_list (map sint fixed)
                        - (int (sp_count sp) + 1) * sint (sp_handleWidth sp)"
  shows "(\<exists>st'. restoreSplitterState qt (Some i) st = Inr st')
       \<and> (\<forall>st'. restoreSplitterState qt (Some i) st = Inr st'
                \<or> restoreSplitterState qt None st = Inr st' \<longrightarrow>
              sp_sizes (splitters st' ! i) =
                rs[w := extent - sum_list fixed - (of_nat (sp_count sp) + 1) * sp_handleWidth sp]
            \<and> sum_list (sp_sizes (splitters st' ! i))
                + (of_nat (sp_count sp) + 1) * sp_handleWidth sp = extent
            \<and> (- 2147483648 \<le> free \<and> free \<le> 2147483647 \<longrightarrow>
                  sint (sp_sizes (splitters st' ! i) ! w) = free
                \<and> sum_list (map sint (sp_sizes (splitters st' ! i)))
                    + (int (sp_count sp) + 1) * sint (sp_handleWidth sp) = sint extent))"
proof -
  let ?v = "extent - sum_list fixed - (of_nat (sp_count sp) + 1) * sp_handleWidth sp"
  have ent: "splitterEntries qt sp spec = Inr rs"
    unfolding rs extent by (rule splitterEntries_map [OF other])
  have lrs: "length rs = sp_count sp"
    using len by (simp add: rs)
  have ne: "spec \<noteq> []"
    using w(1) by (auto simp: rs)
  have fs: "fixedSum rs w = sum_list fixed"
    by (simp add: fixedSum_def fixed)
  have d: "distributeSpace rs (splitterExtent sp) (sp_handleWidth sp) = rs[w := ?v]"
    using distributeSpace_one [OF w] lrs fs by (simp add: splitterExtent_def extent)
  have R: "splitterRestored qt (m_stateSettings st) (m_defaultSplitterSizes st) (m_resizing st) sp
             = Inr (sp\<lparr>sp_sizes := rs[w := ?v]\<rparr>)"
    using name blob spec len ent ne d
    by (simp add: splitterRestored_def hashValue_def)
  have ex: "\<exists>st'. restoreSplitterState qt (Some i) st = Inr st'"
    using i R sp by (simp add: restoreSplitterState_def splitterTargets_def restoreSplitter_eq)
  have res: "sp_sizes (splitters st' ! i) = rs[w := ?v]"
    if "restoreSplitterState qt sel st = Inr st'"
      and "i \<in> set (splitterTargets sel st)" for sel st'
  proof -
    from restoreSplitterState_nth [OF that(1) i] that(2)
    have "splitterRestored qt (m_stateSettings st) (m_defaultSplitterSizes st)
       (m_resizing st) (splitters st ! i) = Inr (splitters st' ! i)" by blast
    with R sp have "splitters st' ! i = sp\<lparr>sp_sizes := rs[w := ?v]\<rparr>" by simp
    then show ?thesis by simp
  qed
  have sum: "sum_list (rs[w := ?v]) + (of_nat (sp_count sp) + 1) * sp_handleWidth sp = extent"
    using sum_list_update_one [OF w(1), of ?v] fs by simp
  have vw: "?v = word_of_int free"
    by (simp add: free word_of_int_sum_list_sint)
  have msum: "sum_list (map sint (rs[w := ?v])) = sum_list (map sint fixed) + sint ?v"
    unfolding fixed by (rule sum_list_sint_update_one [OF w(1)])
  have int: "sint (rs[w := ?v] ! w) = free
       \<and> sum_list (map sint (rs[w := ?v])) + (int (sp_count sp) + 1) * sint (sp_handleWidth sp)
           = sint extent"
    if "- 2147483648 \<le> free \<and> free \<le> 2147483647"
  proof -
    from that have "sint ?v = free"
      unfolding vw by (simp add: sint_word_of_int_range)
    then show ?thesis
      using w(1) by (simp add: msum) (simp add: free)
  qed
  have t1: "i \<in> set (splitterTargets (Some i) st)" "i \<in> set (splitterTargets None st)"
    using i by (simp_all add: splitterTargets_def)
  have all: "sp_sizes (splitters st' ! i) = rs[w := ?v]
            \<and> sum_list (sp_sizes (splitters st' ! i))
                + (of_nat (sp_count sp) + 1) * sp_handleWidth sp = extent
            \<and> (- 2147483648 \<le> free \<and> free \<le> 2147483647 \<longrightarrow>
                  sint (sp_sizes (splitters st' ! i) ! w) = free
                \<and> sum_list (map sint (sp_sizes (splitters st' ! i)))
                    + (int (sp_count sp) + 1) * sint (sp_handleWidth sp) = sint extent)"
    if "restoreSplitterState qt (Some i) st = Inr st'
                \<or> restoreSplitterState qt None st = Inr st'" for st'
  proof -
    from that res [of "Some i" st'] res [of None st'] t1
    have e: "sp_sizes (splitters st' ! i) = rs[w := ?v]" by blast
    show ?thesis
      unfolding e using sum int by blast
  qed
  from ex all show ?thesis by blast
qed


theorem wildcard_pane_size_witness:
  "(\<exists>st'. restoreSplitterState exampleQt (Some 0) exampleState = Inr st'
       \<and> sp_sizes (splitters st' ! 0) = [200, 480, 300]
       \<and> sint (sp_sizes (splitters st' ! 0) ! 1) = 1000 - (200 + 300) - 4 * 5
       \<and> sum_list (map sint (sp_sizes (splitters st' ! 0))) + 4 * 5 = 1000)
   \<and> (\<exists>st'. restoreSplitterState exampleQt (Some 0) exampleVertical = Inr st'
       \<and> sp_sizes (splitters st' ! 0) = [200, 200, 180]
       \<and> sint (sp_sizes (splitters st' ! 0) ! 1) = 600 - (200 + 180) - 4 * 5
       \<and> sum_list (map sint (sp_sizes (splitters st' ! 0))) + 4 * 5 = 600)
   \<and> (\<exists>st'. restoreSplitterState exampleQt (Some 0) exampleOverflow = Inr st'
       \<and> sp_sizes (splitters st' ! 0) = [2147483647, 2147483647, 2])"
proof -
  have p: "percentToInt exampleQt ''-1%'' = - 1" "percentToInt exampleQt ''30%'' = 30"
    by (simp_all add: percentToInt_def exampleQt_def decimalToInt_def digitValue_def)
  have a1: "0 < length (splitters exampleState)"
    and a2: "exampleSplitter = splitters exampleState ! 0"
    and a3: "sp_objectName exampleSplitter \<noteq> []"
    and a4: "settingsValue (m_stateSettings exampleState) (sp_objectName exampleSplitter @ ''State'') = []"
    and a5: "m_defaultSplitterSizes exampleState (sp_objectName exampleSplitter) = Some exampleSplitterSizes"
    and a6: "length exampleSplitterSizes = sp_count exampleSplitter"
    and a7: "VOther \<notin> set exampleSplitterSizes"
    and a8: "1000 = (if sp_orientation exampleSplitter = Horizontal then sp_width exampleSplitter
                     else sp_height exampleSplitter)"
    by (simp_all add: exampleState_def exampleSplitter_def exampleSplitterSizes_def
        settingsValue_def fullKey_def groupPrefix_def)
  have a9: "[200, - 1, 300] =
      map (\<lambda>entry. case entry of
                         VInt n \<Rightarrow> n
                       | VString s \<Rightarrow>
                           if percentToInt exampleQt s = - 1 then - 1
                           else intDiv (1000 * percentToInt exampleQt s) 100
                       | VOther \<Rightarrow> 0) exampleSplitterSizes"
    by (simp add: exampleSplitterSizes_def p intDiv_def)
  have a10: "1 < length [200, - 1, 300 :: int32]" "[200, - 1, 300 :: int32] ! 1 = - 1"
    "\<forall>j<length [200, - 1, 300 :: int32]. j \<noteq> 1 \<longrightarrow> [200, - 1, 300 :: int32] ! j \<noteq> - 1"
    by (simp_all add: nth_Cons' less_Suc_eq)
  have a11: "[200, 300] = take 1 [200, - 1, 300 :: int32] @ drop (Suc 1) [200, - 1, 300]"
    by simp
  have a12: "480 = sint (1000 :: int32) - sum_list (map sint [200, 300 :: int32])
                    - (int (sp_count exampleSplitter) + 1) * sint (sp_handleWidth exampleSplitter)"
    by (simp add: exampleSplitter_def)
  note A = wildcard_pane_size [OF a1 a2 a3 a4 a5 a6 a7 a8 a9 a10 a11 a12]
  from A obtain st' where r: "restoreSplitterState exampleQt (Some 0) exampleState = Inr st'"
    by blast
  from A [THEN conjunct2, rule_format, OF disjI1 [OF r]] have "sp_sizes (splitters st' ! 0) = [200, 480, 300]
       \<and> sint (sp_sizes (splitters st' ! 0) ! 1) = 1000 - (200 + 300) - 4 * 5
       \<and> sum_list (map sint (sp_sizes (splitters st' ! 0))) + 4 * 5 = 1000"
    by (simp add: exampleSplitter_def)
  with r have R1: "\<exists>st'. restoreSplitterState exampleQt (Some 0) exampleState = Inr st'
       \<and> sp_sizes (splitters st' ! 0) = [200, 480, 300]
       \<and> sint (sp_sizes (splitters st' ! 0) ! 1) = 1000 - (200 + 300) - 4 * 5
       \<and> sum_list (map sint (sp_sizes (splitters st' ! 0))) + 4 * 5 = 1000"
    by blast
  let ?sv = "exampleSplitter\<lparr>sp_orientation := Vertical\<rparr>"
  have b1: "0 < length (splitters exampleVertical)"
    and b2: "?sv = splitters exampleVertical ! 0"
    and b3: "sp_objectName ?sv \<noteq> []"
    and b4: "settingsValue (m_stateSettings exampleVertical) (sp_objectName ?sv @ ''State'') = []"
    and b5: "m_defaultSplitterSizes exampleVertical (sp_objectName ?sv) = Some exampleSplitterSizes"
    and b6: "length exampleSplitterSizes = sp_count ?sv"
    and b8: "600 = (if sp_orientation ?sv = Horizontal then sp_width ?sv else sp_height ?sv)"
    by (simp_all add: exampleVertical_def exampleState_def exampleSplitter_def
        exampleSplitterSizes_def settingsValue_def fullKey_def groupPrefix_def)
  have b9: "[200, - 1, 180] =
      map (\<lambda>entry. case entry of
                         VInt n \<Rightarrow> n
                       | VString s \<Rightarrow>
                           if percentToInt exampleQt s = - 1 then - 1
                           else intDiv (600 * percentToInt exampleQt s) 100
                       | VOther \<Rightarrow> 0) exampleSplitterSizes"
    by (simp add: exampleSplitterSizes_def p intDiv_def)
  have b10: "1 < length [200, - 1, 180 :: int32]" "[200, - 1, 180 :: int32] ! 1 = - 1"
    "\<forall>j<length [200, - 1, 180 :: int32]. j \<noteq> 1 \<longrightarrow> [200, - 1, 180 :: int32] ! j \<noteq> - 1"
    by (simp_all add: nth_Cons' less_Suc_eq)
  have b11: "[200, 180] = take 1 [200, - 1, 180 :: int32] @ drop (Suc 1) [200, - 1, 180]"
    by simp
  have b12: "200 = sint (600 :: int32) - sum_list (map sint [200, 180 :: int32])
                    - (int (sp_count ?sv) + 1) * sint (sp_handleWidth ?sv)"
    by (simp add: exampleSplitter_def)
  note B = wildcard_pane_size [OF b1 b2 b3 b4 b5 b6 a7 b8 b9 b10 b11 b12]
  from B obtain sv' where rv: "restoreSplitterState exampleQt (Some 0) exampleVertical = Inr sv'"
    by blast
  from B [THEN conjunct2, rule_format, OF disjI1 [OF rv]] have "sp_sizes (splitters sv' ! 0) = [200, 200, 180]
       \<and> sint (sp_sizes (splitters sv' ! 0) ! 1) = 600 - (200 + 180) - 4 * 5
       \<and> sum_list (map sint (sp_sizes (splitters sv' ! 0))) + 4 * 5 = 600"
    by (simp add: exampleSplitter_def)
  with rv have R2: "\<exists>st'. restoreSplitterState exampleQt (Some 0) exampleVertical = Inr st'
       \<and> sp_sizes (splitters st' ! 0) = [200, 200, 180]
       \<and> sint (sp_sizes (splitters st' ! 0) ! 1) = 600 - (200 + 180) - 4 * 5
       \<and> sum_list (map sint (sp_sizes (splitters st' ! 0))) + 4 * 5 = 600"
    by blast
  let ?so = "exampleSplitter\<lparr>sp_width := 0, sp_handleWidth := 0\<rparr>"
  let ?spec = "[VInt 2147483647, VInt 2147483647, VInt (- 1)]"
  have c1: "0 < length (splitters exampleOverflow)"
    and c2: "?so = splitters exampleOverflow ! 0"
    and c3: "sp_objectName ?so \<noteq> []"
    and c4: "settingsValue (m_stateSettings exampleOverflow) (sp_objectName ?so @ ''State'') = []"
    and c5: "m_defaultSplitterSizes exampleOverflow (sp_objectName ?so) = Some ?spec"
    and c6: "length ?spec = sp_count ?so"
    and c7: "VOther \<notin> set ?spec"
    and c8: "0 = (if sp_orientation ?so = Horizontal then sp_width ?so else sp_height ?so)"
    by (simp_all add: exampleOverflow_def exampleState_def exampleSplitter_def
        settingsValue_def fullKey_def groupPrefix_def)
  have c9: "[2147483647, 2147483647, - 1] =
      map (\<lambda>entry. case entry of
                         VInt n \<Rightarrow> n
                       | VString s \<Rightarrow>
                           if percentToInt exampleQt s = - 1 then - 1
                           else intDiv (0 * percentToInt exampleQt s) 100
                       | VOther \<Rightarrow> 0) ?spec"
    by simp
  have c10: "2 < length [2147483647, 2147483647, - 1 :: int32]"
    "[2147483647, 2147483647, - 1 :: int32] ! 2 = - 1"
    "\<forall>j<length [2147483647, 2147483647, - 1 :: int32].
        j \<noteq> 2 \<longrightarrow> [2147483647, 2147483647, - 1 :: int32] ! j \<noteq> - 1"
    by (simp_all add: nth_Cons' less_Suc_eq)
  have c11: "[2147483647, 2147483647] =
      take 2 [2147483647, 2147483647, - 1 :: int32] @ drop (Suc 2) [2147483647, 2147483647, - 1]"
    by simp
  have c12: "- 4294967294 = sint (0 :: int32) - sum_list (map sint [2147483647, 2147483647 :: int32])
                    - (int (sp_count ?so) + 1) * sint (sp_handleWidth ?so)"
    by (simp add: exampleSplitter_def)
  note C = wildcard_pane_size [OF c1 c2 c3 c4 c5 c6 c7 c8 c9 c10 c11 c12]
  from C obtain so' where ro: "restoreSplitterState exampleQt (Some 0) exampleOverflow = Inr so'"
    by blast
  from C [THEN conjunct2, rule_format, OF disjI1 [OF ro]] have "sp_sizes (splitters so' ! 0) = [2147483647, 2147483647, 2]"
    by (simp add: exampleSplitter_def)
  with ro have R3: "\<exists>st'. restoreSplitterState exampleQt (Some 0) exampleOverflow = Inr st'
       \<and> sp_sizes (splitters st' ! 0) = [2147483647, 2147483647, 2]"
    by blast
  from R1 R2 R3 show ?thesis by blast
qed

subsection \<open>reset\<close>

text \<open>
  C2, as amended. \<open>reset()\<close> does not clear the persisted state: it marks the manager
  uninitialised, closes the settings group and runs \<open>setup\<close> again, and the values in
  the settings after it are the values before it. Run on the state that a \<open>setup\<close> of a
  named root widget has left, \<open>reset()\<close> returns and yields the same layout again: the
  same root widget, splitters and headers, under the same settings group.

  \<open>reset()\<close> returns whenever every registered vector of default sizes of a splitter or a
  header is empty or has the length of the count of the widget and only ints and strings.
  When \<open>reset()\<close> of the manager of a named root widget returns, the manager is initialised,
  the settings are the former settings with the group closed and the group of the root
  widget opened, and the widgets are restored from these settings as on the first show: the
  root widget is what \<open>restoreWindowState\<close> makes of it; a named splitter (a named header
  with sections) whose state key holds a blob gets this blob as its state and is marked
  customized, unless the resize guard is set; a named splitter whose state key holds
  nothing gets its registered default sizes, resolved and distributed on its extent at the
  time of the reset, and a named header with sections gets the result of the loop over its
  registered default sizes. So the defaults are applied again only where the settings hold
  no state.
\<close>

theorem reset_keeps_persisted_state:
  "(\<forall>st'. reset qt st = Inr st' \<longrightarrow>
        qs_values (m_stateSettings st') = qs_values (m_stateSettings st))
   \<and> (\<forall>st0. w_objectName (m_widget st0) \<noteq> [] \<and> setupManager qt st0 = Inr st \<longrightarrow>
        (\<exists>st'. reset qt st = Inr st' \<and> m_initialized st'
           \<and> m_stateSettings st' = m_stateSettings st
           \<and> m_widget st' = m_widget st \<and> splitters st' = splitters st
           \<and> headers st' = headers st))
   \<and> ((\<forall>i spec. i < length (splitters st)
            \<and> m_defaultSplitterSizes st (sp_objectName (splitters st ! i)) = Some spec
            \<and> spec \<noteq> [] \<longrightarrow>
            length spec = sp_count (splitters st ! i) \<and> VOther \<notin> set spec)
        \<and> (\<forall>i spec. i < length (headers st)
            \<and> m_defaultHeaderSizes st (hv_objectName (headers st ! i)) = Some spec
            \<and> spec \<noteq> [] \<longrightarrow>
            length spec = hv_count (headers st ! i) \<and> VOther \<notin> set spec) \<longrightarrow>
        (\<exists>st'. reset qt st = Inr st'))
   \<and> (\<forall>st'. w_objectName (m_widget st) \<noteq> [] \<and> reset qt st = Inr st' \<longrightarrow>
          m_initialized st'
        \<and> m_stateSettings st' =
            beginGroup (''UiState/'' @ w_objectName (m_widget st)) (endGroup (m_stateSettings st))
        \<and> m_widget st' = m_widget (restoreWindowState (st\<lparr>m_stateSettings := m_stateSettings st'\<rparr>))
        \<and> length (splitters st') = length (splitters st)
        \<and> length (headers st') = length (headers st)
        \<and> (\<forall>i sp b. i < length (splitters st) \<and> sp = splitters st ! i \<and> sp_objectName sp \<noteq> []
               \<and> b = settingsValue (m_stateSettings st') (sp_objectName sp @ ''State'') \<longrightarrow>
             (b \<noteq> [] \<longrightarrow>
                splitters st' ! i =
                  (if m_resizing st then sp else sp\<lparr>sp_state := b, sp_customized := True\<rparr>))
           \<and> (b = [] \<longrightarrow>
                (\<forall>spec. m_defaultSplitterSizes st (sp_objectName sp) = Some spec \<and> spec \<noteq> [] \<longrightarrow>
                   (\<exists>rs. splitterEntries qt sp spec = Inr rs
                      \<and> splitters st' ! i =
                          sp\<lparr>sp_sizes :=
                               distributeSpace rs
                                 (if sp_orientation sp = Horizontal then sp_width sp
                                  else sp_height sp)
                                 (sp_handleWidth sp)\<rparr>))))
        \<and> (\<forall>i h b. i < length (headers st) \<and> h = headers st ! i \<and> hv_objectName h \<noteq> []
               \<and> hv_count h \<noteq> 0
               \<and> b = settingsValue (m_stateSettings st') (hv_objectName h @ ''State'') \<longrightarrow>
             (b \<noteq> [] \<longrightarrow>
                headers st' ! i =
                  (if m_resizing st then h else h\<lparr>hv_state := b, hv_customized := True\<rparr>))
           \<and> (b = [] \<longrightarrow>
                (\<forall>spec. m_defaultHeaderSizes st (hv_objectName h) = Some spec \<and> spec \<noteq> [] \<longrightarrow>
                   applyHeaderDefaults qt (views st (hv_view h)) spec 0 h
                     = Inr (headers st' ! i)))))"
proof -
  have A: "qs_values (m_stateSettings st') = qs_values (m_stateSettings st)"
    if "reset qt st = Inr st'" for st'
    using setupManager_values [of qt _ st'] that
    by (simp add: reset_def endGroup_def)
  have B: "\<exists>st'. reset qt st = Inr st' \<and> m_initialized st'
           \<and> m_stateSettings st' = m_stateSettings st
           \<and> m_widget st' = m_widget st \<and> splitters st' = splitters st
           \<and> headers st' = headers st"
    if root: "w_objectName (m_widget st0) \<noteq> []" and s: "setupManager qt st0 = Inr st" for st0
  proof -
    let ?g = "''UiState/'' @ w_objectName (m_widget st0)"
    from setupManager_named_frame [OF s root] obtain st4 C C' F ws where
      e4: "st4 = st0\<lparr>m_initialized := True,
              m_stateSettings := beginGroup ?g (m_stateSettings st0),
              splitterConnected := C, headerConnected := C', viewFilters := F,
              warnings := ws\<rparr>"
      and r: "restoreState qt st4 = Inr st" by metis
    from restoreState_frame [OF r] obtain w ss hs ws' where
      e: "st = st4\<lparr>m_widget := w, splitters := ss, headers := hs, warnings := warnings st4 @ ws'\<rparr>"
      by blast
    from restoreState_parts [OF r] have "m_widget st = m_widget (restoreWindowState st4)"
      by metis
    then have n: "w_objectName (m_widget st) = w_objectName (m_widget st0)"
      by (simp add: restoreWindowState_eq e4)
    let ?sr = "st\<lparr>m_initialized := False, m_stateSettings := endGroup (m_stateSettings st)\<rparr>"
    have rn: "w_objectName (m_widget ?sr) \<noteq> []" using n root by simp
    from setupManager_total_named [OF rn, of qt] obtain t C1 C1' F1 ws1 where
      t: "t = ?sr\<lparr>m_initialized := True,
              m_stateSettings := beginGroup (''UiState/'' @ w_objectName (m_widget ?sr))
                                   (m_stateSettings ?sr),
              splitterConnected := C1, headerConnected := C1', viewFilters := F1,
              warnings := ws1\<rparr>"
      and q: "setupManager qt ?sr = restoreState qt t" by metis
    have g: "m_stateSettings t = m_stateSettings st"
      using n by (simp add: t e e4 beginGroup_def endGroup_def)
    have f1: "m_widget t = m_widget st" "splitters t = splitters st" "headers t = headers st"
      by (simp_all add: t)
    have f2: "views t = views st4" "screen t = screen st4"
      by (simp_all add: t e)
    have f3: "m_stateSettings t = m_stateSettings st4"
      using g by (simp add: e)
    have f4: "m_defaultSplitterSizes t = m_defaultSplitterSizes st4"
      "m_defaultHeaderSizes t = m_defaultHeaderSizes st4" "m_resizing t = m_resizing st4"
      by (simp_all add: t e)
    have "\<exists>t'. restoreState qt t = Inr t' \<and> m_widget t' = m_widget st
           \<and> splitters t' = splitters st \<and> headers t' = headers st"
      by (rule restoreState_idem [OF r f1 f2 f3 f4])
    then obtain t' where t': "restoreState qt t = Inr t'" "m_widget t' = m_widget st"
      "splitters t' = splitters st" "headers t' = headers st" by blast
    from restoreState_frame [OF t'(1)] have "m_stateSettings t' = m_stateSettings t"
      "m_initialized t' = m_initialized t" by auto
    with g t have "m_stateSettings t' = m_stateSettings st" "m_initialized t'" by simp_all
    moreover have "reset qt st = Inr t'" by (simp add: reset_def q t'(1))
    ultimately show ?thesis using t' by blast
  qed
  let ?sr = "st\<lparr>m_initialized := False, m_stateSettings := endGroup (m_stateSettings st)\<rparr>"
  let ?S = "beginGroup (''UiState/'' @ w_objectName (m_widget st)) (endGroup (m_stateSettings st))"
  have T: "\<exists>st'. reset qt st = Inr st'"
    if s: "\<forall>i spec. i < length (splitters st)
            \<and> m_defaultSplitterSizes st (sp_objectName (splitters st ! i)) = Some spec
            \<and> spec \<noteq> [] \<longrightarrow>
            length spec = sp_count (splitters st ! i) \<and> VOther \<notin> set spec"
      and h: "\<forall>i spec. i < length (headers st)
            \<and> m_defaultHeaderSizes st (hv_objectName (headers st ! i)) = Some spec
            \<and> spec \<noteq> [] \<longrightarrow>
            length spec = hv_count (headers st ! i) \<and> VOther \<notin> set spec"
  proof (cases "w_objectName (m_widget st) = []")
    case True
    then show ?thesis by (simp add: reset_def setupManager_unnamed)
  next
    case False
    then have rn: "w_objectName (m_widget ?sr) \<noteq> []" by simp
    from setupManager_total_named [OF rn, of qt] obtain t C1 C1' F1 ws1 where
      t: "t = ?sr\<lparr>m_initialized := True,
              m_stateSettings := beginGroup (''UiState/'' @ w_objectName (m_widget ?sr))
                                   (m_stateSettings ?sr),
              splitterConnected := C1, headerConnected := C1', viewFilters := F1,
              warnings := ws1\<rparr>"
      and q: "setupManager qt ?sr = restoreState qt t" by metis
    have "\<exists>st'. restoreState qt t = Inr st'"
    proof (rule restoreState_total)
      fix i spec
      assume "i < length (splitters t)"
        "m_defaultSplitterSizes t (sp_objectName (splitters t ! i)) = Some spec"
      with s show "spec = [] \<or> (length spec = sp_count (splitters t ! i) \<and> VOther \<notin> set spec)"
        unfolding t by (cases "spec = []") simp_all
    next
      fix i spec
      assume "i < length (headers t)"
        "m_defaultHeaderSizes t (hv_objectName (headers t ! i)) = Some spec"
      with h show "spec = [] \<or> (length spec = hv_count (headers t ! i) \<and> VOther \<notin> set spec)"
        unfolding t by (cases "spec = []") simp_all
    qed
    then show ?thesis by (simp add: reset_def q)
  qed
  have E: "m_initialized st'
        \<and> m_stateSettings st' = ?S
        \<and> m_widget st' = m_widget (restoreWindowState (st\<lparr>m_stateSettings := m_stateSettings st'\<rparr>))
        \<and> length (splitters st') = length (splitters st)
        \<and> length (headers st') = length (headers st)
        \<and> (\<forall>i sp b. i < length (splitters st) \<and> sp = splitters st ! i \<and> sp_objectName sp \<noteq> []
               \<and> b = settingsValue (m_stateSettings st') (sp_objectName sp @ ''State'') \<longrightarrow>
             (b \<noteq> [] \<longrightarrow>
                splitters st' ! i =
                  (if m_resizing st then sp else sp\<lparr>sp_state := b, sp_customized := True\<rparr>))
           \<and> (b = [] \<longrightarrow>
                (\<forall>spec. m_defaultSplitterSizes st (sp_objectName sp) = Some spec \<and> spec \<noteq> [] \<longrightarrow>
                   (\<exists>rs. splitterEntries qt sp spec = Inr rs
                      \<and> splitters st' ! i =
                          sp\<lparr>sp_sizes :=
                               distributeSpace rs
                                 (if sp_orientation sp = Horizontal then sp_width sp
                                  else sp_height sp)
                                 (sp_handleWidth sp)\<rparr>))))
        \<and> (\<forall>i h b. i < length (headers st) \<and> h = headers st ! i \<and> hv_objectName h \<noteq> []
               \<and> hv_count h \<noteq> 0
               \<and> b = settingsValue (m_stateSettings st') (hv_objectName h @ ''State'') \<longrightarrow>
             (b \<noteq> [] \<longrightarrow>
                headers st' ! i =
                  (if m_resizing st then h else h\<lparr>hv_state := b, hv_customized := True\<rparr>))
           \<and> (b = [] \<longrightarrow>
                (\<forall>spec. m_defaultHeaderSizes st (hv_objectName h) = Some spec \<and> spec \<noteq> [] \<longrightarrow>
                   applyHeaderDefaults qt (views st (hv_view h)) spec 0 h
                     = Inr (headers st' ! i))))"
    if root: "w_objectName (m_widget st) \<noteq> []" and r: "reset qt st = Inr st'" for st'
  proof -
    from root have rn: "w_objectName (m_widget ?sr) \<noteq> []" by simp
    from setupManager_total_named [OF rn, of qt] obtain t C1 C1' F1 ws1 where
      t: "t = ?sr\<lparr>m_initialized := True,
              m_stateSettings := beginGroup (''UiState/'' @ w_objectName (m_widget ?sr))
                                   (m_stateSettings ?sr),
              splitterConnected := C1, headerConnected := C1', viewFilters := F1,
              warnings := ws1\<rparr>"
      and q: "setupManager qt ?sr = restoreState qt t" by metis
    from r q have rt: "restoreState qt t = Inr st'" by (simp add: reset_def)
    have tf: "m_stateSettings t = ?S" "m_initialized t" "splitters t = splitters st"
      "headers t = headers st" "views t = views st" "m_resizing t = m_resizing st"
      "m_defaultSplitterSizes t = m_defaultSplitterSizes st"
      "m_defaultHeaderSizes t = m_defaultHeaderSizes st" "m_widget t = m_widget st"
      "screen t = screen st"
      by (simp_all add: t)
    from restoreState_frame [OF rt] obtain w ss hs ws' where
      e: "st' = t\<lparr>m_widget := w, splitters := ss, headers := hs, warnings := warnings t @ ws'\<rparr>"
      and ls: "length ss = length (splitters t)" and lh: "length hs = length (headers t)"
      by blast
    have f1: "m_initialized st'" "m_stateSettings st' = ?S"
      "length (splitters st') = length (splitters st)"
      "length (headers st') = length (headers st)"
      using ls lh by (simp_all add: e tf)
    from restoreState_parts [OF rt] obtain s1 where
      a: "restoreSplitterState qt None (restoreWindowState t) = Inr s1"
      and b: "restoreHeaderState qt None s1 = Inr st'"
      and p: "headers s1 = headers t" "splitters st' = splitters s1"
        "m_widget st' = m_widget (restoreWindowState t)"
        "m_stateSettings s1 = m_stateSettings t"
        "m_defaultHeaderSizes s1 = m_defaultHeaderSizes t"
        "m_resizing s1 = m_resizing t" "views s1 = views t"
      by blast
    have f2: "m_widget st' = m_widget (restoreWindowState (st\<lparr>m_stateSettings := m_stateSettings st'\<rparr>))"
      by (simp add: p(3) restoreWindowState_eq tf f1)
    have SR: "splitterRestored qt ?S (m_defaultSplitterSizes st) (m_resizing st) (splitters st ! i)
               = Inr (splitters st' ! i)" if "i < length (splitters st)" for i
    proof -
      from that have "i < length (splitters (restoreWindowState t))"
        by (simp add: restoreWindowState_fields tf)
      from restoreSplitterState_nth [OF a this] that show ?thesis
        by (simp add: splitterTargets_def restoreWindowState_fields tf p(2))
    qed
    have HR: "headerRestored qt ?S (m_defaultHeaderSizes st) (m_resizing st) (views st)
               (headers st ! i) = Inr (headers st' ! i)" if "i < length (headers st)" for i
    proof -
      from that have "i < length (headers s1)" by (simp add: p tf)
      from restoreHeaderState_nth [OF b this] that show ?thesis
        by (simp add: headerTargets_def p tf)
    qed
    have f3: "(b \<noteq> [] \<longrightarrow>
                splitters st' ! i =
                  (if m_resizing st then sp else sp\<lparr>sp_state := b, sp_customized := True\<rparr>))
           \<and> (b = [] \<longrightarrow>
                (\<forall>spec. m_defaultSplitterSizes st (sp_objectName sp) = Some spec \<and> spec \<noteq> [] \<longrightarrow>
                   (\<exists>rs. splitterEntries qt sp spec = Inr rs
                      \<and> splitters st' ! i =
                          sp\<lparr>sp_sizes :=
                               distributeSpace rs
                                 (if sp_orientation sp = Horizontal then sp_width sp
                                  else sp_height sp)
                                 (sp_handleWidth sp)\<rparr>)))"
      if h: "i < length (splitters st) \<and> sp = splitters st ! i \<and> sp_objectName sp \<noteq> []
               \<and> b = settingsValue (m_stateSettings st') (sp_objectName sp @ ''State'')"
      for i sp b
    proof -
      from h have i: "i < length (splitters st)" and sp: "sp = splitters st ! i"
        and n: "sp_objectName sp \<noteq> []"
        and bv0: "b = settingsValue (m_stateSettings st') (sp_objectName sp @ ''State'')"
        by blast+
      from bv0 have bv: "settingsValue ?S (sp_objectName sp @ ''State'') = b"
        unfolding f1(2) by simp
      from SR [OF i] sp
      have R: "splitterRestored qt ?S (m_defaultSplitterSizes st) (m_resizing st) sp
                 = Inr (splitters st' ! i)" by simp
      have x: "splitters st' ! i =
                  (if m_resizing st then sp else sp\<lparr>sp_state := b, sp_customized := True\<rparr>)"
        if "b \<noteq> []"
        using splitterRestored_blob [OF n bv that, of qt "m_defaultSplitterSizes st" "m_resizing st"] R
        by simp
      have y: "\<exists>rs. splitterEntries qt sp spec = Inr rs
                      \<and> splitters st' ! i =
                          sp\<lparr>sp_sizes :=
                               distributeSpace rs
                                 (if sp_orientation sp = Horizontal then sp_width sp
                                  else sp_height sp)
                                 (sp_handleWidth sp)\<rparr>"
        if "b = []" "m_defaultSplitterSizes st (sp_objectName sp) = Some spec \<and> spec \<noteq> []" for spec
      proof -
        from that bv have bl: "settingsValue ?S (sp_objectName sp @ ''State'') = []" by simp
        from that have d: "m_defaultSplitterSizes st (sp_objectName sp) = Some spec"
          and ne: "spec \<noteq> []" by blast+
        from splitterRestored_defaults [OF R n bl d ne] show ?thesis by blast
      qed
      from x y show ?thesis by blast
    qed
    have f4: "(b \<noteq> [] \<longrightarrow>
                headers st' ! i =
                  (if m_resizing st then h else h\<lparr>hv_state := b, hv_customized := True\<rparr>))
           \<and> (b = [] \<longrightarrow>
                (\<forall>spec. m_defaultHeaderSizes st (hv_objectName h) = Some spec \<and> spec \<noteq> [] \<longrightarrow>
                   applyHeaderDefaults qt (views st (hv_view h)) spec 0 h
                     = Inr (headers st' ! i)))"
      if g: "i < length (headers st) \<and> h = headers st ! i \<and> hv_objectName h \<noteq> []
               \<and> hv_count h \<noteq> 0
               \<and> b = settingsValue (m_stateSettings st') (hv_objectName h @ ''State'')"
      for i h b
    proof -
      from g have i: "i < length (headers st)" and hh: "h = headers st ! i"
        and n: "hv_objectName h \<noteq> []" and c: "hv_count h \<noteq> 0"
        and bv0: "b = settingsValue (m_stateSettings st') (hv_objectName h @ ''State'')"
        by blast+
      from bv0 have bv: "settingsValue ?S (hv_objectName h @ ''State'') = b"
        unfolding f1(2) by simp
      from HR [OF i] hh
      have R: "headerRestored qt ?S (m_defaultHeaderSizes st) (m_resizing st) (views st) h
                 = Inr (headers st' ! i)" by simp
      have x: "headers st' ! i =
                  (if m_resizing st then h else h\<lparr>hv_state := b, hv_customized := True\<rparr>)"
        if "b \<noteq> []"
        using headerRestored_blob [OF n c bv that, of qt "m_defaultHeaderSizes st" "m_resizing st"
            "views st"] R
        by simp
      have y: "applyHeaderDefaults qt (views st (hv_view h)) spec 0 h = Inr (headers st' ! i)"
        if "b = []" "m_defaultHeaderSizes st (hv_objectName h) = Some spec \<and> spec \<noteq> []" for spec
      proof -
        from that bv have bl: "settingsValue ?S (hv_objectName h @ ''State'') = []" by simp
        from that have d: "m_defaultHeaderSizes st (hv_objectName h) = Some spec"
          and ne: "spec \<noteq> []" by blast+
        from headerRestored_defaults [OF R n c bl d ne] show ?thesis by blast
      qed
      from x y show ?thesis by blast
    qed
    show ?thesis
      apply (intro conjI)
            apply (rule f1(1))
           apply (rule f1(2))
          apply (rule f2)
         apply (rule f1(3))
        apply (rule f1(4))
       apply (intro allI impI, erule f3)
      apply (intro allI impI, erule f4)
      done
  qed
  show ?thesis
    apply (intro conjI)
       apply (intro allI impI, erule A)
      apply (intro allI impI, erule conjE, rule B, assumption, assumption)
     apply (intro impI, erule conjE, rule T, assumption, assumption)
    apply (intro allI impI, erule conjE, rule E, assumption, assumption)
    done
qed

theorem reset_keeps_persisted_state_witness:
  "(\<exists>st st'. setupManager exampleQt exampleState = Inr st \<and> reset exampleQt st = Inr st'
     \<and> m_widget st' = m_widget st \<and> splitters st' = splitters st \<and> headers st' = headers st
     \<and> sp_sizes (splitters st' ! 0) = [200, 480, 300]
     \<and> qs_values (m_stateSettings st') = Map.empty)
   \<and> (\<exists>st'. reset exampleQt exampleWidened = Inr st' \<and> m_initialized st'
     \<and> qs_groupStack (m_stateSettings st') = [''UiState/MainWindow'']
     \<and> sp_sizes (splitters exampleWidened ! 0) = [200, 480, 300]
     \<and> sp_sizes (splitters st' ! 0) = [200, 1180, 600])
   \<and> (\<exists>st'. reset exampleQt exampleMovedWidened = Inr st' \<and> m_initialized st'
     \<and> qs_values (m_stateSettings st') ''UiState/MainWindow/mainSplitterState'' = Some [1, 2, 3]
     \<and> splitters st' ! 0 =
         (splitters exampleMovedWidened ! 0)\<lparr>sp_state := [1, 2, 3], sp_customized := True\<rparr>)"
proof -
  obtain st where s: "setupManager exampleQt exampleState = Inr st"
    and z: "sp_sizes (splitters st ! 0) = [200, 480, 300]"
      "qs_values (m_stateSettings st) = Map.empty"
    by (simp add: model_defs example_defs)
  have n: "w_objectName (m_widget exampleState) \<noteq> []"
    by (simp add: example_defs)
  from reset_keeps_persisted_state [of exampleQt st, THEN conjunct2, THEN conjunct1,
      rule_format, OF conjI, OF n s]
  obtain st' where
    "reset exampleQt st = Inr st'" "m_widget st' = m_widget st" "splitters st' = splitters st"
    "headers st' = headers st" "m_stateSettings st' = m_stateSettings st"
    by blast
  with s z have R1: "\<exists>st st'. setupManager exampleQt exampleState = Inr st
     \<and> reset exampleQt st = Inr st'
     \<and> m_widget st' = m_widget st \<and> splitters st' = splitters st \<and> headers st' = headers st
     \<and> sp_sizes (splitters st' ! 0) = [200, 480, 300]
     \<and> qs_values (m_stateSettings st') = Map.empty"
    by auto
  let ?w = "exampleSplitter\<lparr>sp_width := 2000, sp_sizes := [200, 480, 300]\<rparr>"
  obtain sw where rw: "reset exampleQt exampleWidened = Inr sw"
    by (simp add: model_defs example_defs exampleWide_def exampleWidened_def)
  have nw: "w_objectName (m_widget exampleWidened) \<noteq> []"
    by (simp add: example_defs exampleWide_def exampleWidened_def)
  note W = reset_keeps_persisted_state [of exampleQt exampleWidened, THEN conjunct2,
      THEN conjunct2, THEN conjunct2, rule_format, OF conjI, OF nw rw]
  from W have wi: "m_initialized sw"
    and ws: "m_stateSettings sw =
      beginGroup (''UiState/'' @ w_objectName (m_widget exampleWidened))
        (endGroup (m_stateSettings exampleWidened))"
    by blast+
  have wg: "qs_groupStack (m_stateSettings sw) = [''UiState/MainWindow'']"
    unfolding ws
    by (simp add: beginGroup_def endGroup_def example_defs exampleWide_def exampleWidened_def)
  have wh: "0 < length (splitters exampleWidened) \<and> ?w = splitters exampleWidened ! 0
      \<and> sp_objectName ?w \<noteq> []
      \<and> [] = settingsValue (m_stateSettings sw) (sp_objectName ?w @ ''State'')"
    unfolding ws
    by (simp add: beginGroup_def endGroup_def settingsValue_def fullKey_def groupPrefix_def
        example_defs exampleWide_def exampleWidened_def)
  have wd: "m_defaultSplitterSizes exampleWidened (sp_objectName ?w) = Some exampleSplitterSizes
      \<and> exampleSplitterSizes \<noteq> []"
    by (simp add: example_defs exampleWide_def exampleWidened_def)
  from W [THEN conjunct2, THEN conjunct2, THEN conjunct2, THEN conjunct2, THEN conjunct2,
      THEN conjunct1, rule_format, OF wh, THEN conjunct2, rule_format, OF refl wd]
  have "\<exists>rs. splitterEntries exampleQt ?w exampleSplitterSizes = Inr rs
          \<and> splitters sw ! 0 =
              ?w\<lparr>sp_sizes :=
                   distributeSpace rs
                     (if sp_orientation ?w = Horizontal then sp_width ?w else sp_height ?w)
                     (sp_handleWidth ?w)\<rparr>" .
  moreover have "splitterEntries exampleQt ?w exampleSplitterSizes = Inr [200, - 1, 600]"
    by (simp add: exampleSplitterSizes_def splitterEntry_def percentToInt_def exampleQt_def
        decimalToInt_def digitValue_def exampleSplitter_def intDiv_def)
  ultimately have "splitters sw ! 0 =
              ?w\<lparr>sp_sizes :=
                   distributeSpace [200, - 1, 600]
                     (if sp_orientation ?w = Horizontal then sp_width ?w else sp_height ?w)
                     (sp_handleWidth ?w)\<rparr>"
    by auto
  then have "sp_sizes (splitters sw ! 0) = [200, 1180, 600]"
    by (simp add: exampleSplitter_def distributeSpace_def intDiv_def)
  moreover have "sp_sizes (splitters exampleWidened ! 0) = [200, 480, 300]"
    by (simp add: exampleWidened_def)
  ultimately have R2: "\<exists>st'. reset exampleQt exampleWidened = Inr st' \<and> m_initialized st'
     \<and> qs_groupStack (m_stateSettings st') = [''UiState/MainWindow'']
     \<and> sp_sizes (splitters exampleWidened ! 0) = [200, 480, 300]
     \<and> sp_sizes (splitters st' ! 0) = [200, 1180, 600]"
    using rw wi wg by blast
  let ?m = "splitters exampleMovedWidened ! 0"
  obtain sm where rm: "reset exampleQt exampleMovedWidened = Inr sm"
    by (simp add: model_defs example_defs exampleMoved_def exampleMovedWidened_def)
  have nm: "w_objectName (m_widget exampleMovedWidened) \<noteq> []"
    by (simp add: example_defs exampleMoved_def exampleMovedWidened_def setSplitter_def)
  note M = reset_keeps_persisted_state [of exampleQt exampleMovedWidened, THEN conjunct2,
      THEN conjunct2, THEN conjunct2, rule_format, OF conjI, OF nm rm]
  from M have mi: "m_initialized sm"
    and ms: "m_stateSettings sm =
      beginGroup (''UiState/'' @ w_objectName (m_widget exampleMovedWidened))
        (endGroup (m_stateSettings exampleMovedWidened))"
    by blast+
  have mv: "qs_values (m_stateSettings sm) ''UiState/MainWindow/mainSplitterState'' = Some [1, 2, 3]"
    unfolding ms
    by (simp add: beginGroup_def endGroup_def example_defs exampleMoved_def
        exampleMovedWidened_def setSplitter_def)
  have mh: "0 < length (splitters exampleMovedWidened) \<and> ?m = splitters exampleMovedWidened ! 0
      \<and> sp_objectName ?m \<noteq> []
      \<and> [1, 2, 3] = settingsValue (m_stateSettings sm) (sp_objectName ?m @ ''State'')"
    unfolding ms
    by (simp add: beginGroup_def endGroup_def settingsValue_def fullKey_def groupPrefix_def
        example_defs exampleMoved_def exampleMovedWidened_def setSplitter_def)
  have mb: "[1, 2, 3] \<noteq> ([] :: QByteArray)" by simp
  from M [THEN conjunct2, THEN conjunct2, THEN conjunct2, THEN conjunct2, THEN conjunct2,
      THEN conjunct1, rule_format, OF mh, THEN conjunct1, rule_format, OF mb]
  have "splitters sm ! 0 =
      (if m_resizing exampleMovedWidened then ?m
       else ?m\<lparr>sp_state := [1, 2, 3], sp_customized := True\<rparr>)" .
  moreover have "\<not> m_resizing exampleMovedWidened"
    by (simp add: example_defs exampleMoved_def exampleMovedWidened_def setSplitter_def)
  ultimately have "splitters sm ! 0 = ?m\<lparr>sp_state := [1, 2, 3], sp_customized := True\<rparr>"
    by simp
  with rm mi mv have R3: "\<exists>st'. reset exampleQt exampleMovedWidened = Inr st' \<and> m_initialized st'
     \<and> qs_values (m_stateSettings st') ''UiState/MainWindow/mainSplitterState'' = Some [1, 2, 3]
     \<and> splitters st' ! 0 = ?m\<lparr>sp_state := [1, 2, 3], sp_customized := True\<rparr>"
    by blast
  from R1 R2 R3 show ?thesis by blast
qed

theorem reset_does_not_clear_counterexample:
  "\<not> isl exampleResetRun \<and> \<not> isl exampleFirstRun
   \<and> qs_values (m_stateSettings (projr exampleResetRun))
        ''UiState/MainWindow/mainSplitterState'' = Some [1, 2, 3]
   \<and> sp_customized (splitters (projr exampleResetRun) ! 0)
   \<and> sp_sizes (splitters (projr exampleResetRun) ! 0) = [200, 480, 300]
   \<and> sp_sizes (splitters (projr exampleFirstRun) ! 0) = [200, 1180, 600]"
proof -
  obtain st' where e: "exampleResetRun = Inr st'"
    and f: "qs_values (m_stateSettings st') ''UiState/MainWindow/mainSplitterState''
              = Some [1, 2, 3]"
      "sp_customized (splitters st' ! 0)" "sp_sizes (splitters st' ! 0) = [200, 480, 300]"
    by (simp add: exampleResetRun_def model_defs example_defs exampleMoved_def)
  obtain st0 where e0: "exampleFirstRun = Inr st0"
    and f0: "sp_sizes (splitters st0 ! 0) = [200, 1180, 600]"
    by (simp add: exampleFirstRun_def model_defs example_defs)
  show ?thesis unfolding e e0 using f f0 by simp
qed

subsection \<open>Widgets without a name, and duplicate names\<close>

text \<open>
  C3, as amended. Let the root widget have a name (the manager can be initialised). A
  splitter or header without a name is logged by every save cycle and every restore;
  a save cycle leaves the value of its state key as it is, so that the key is never
  written; a restore leaves the widget as it is. A splitter or header whose name is, in
  lower case, that of the root widget or of a named widget visited before it is logged
  by \<open>setup\<close> as a duplicate, and \<open>setup\<close> does not connect its signals. Nothing more is
  said about a duplicate: the save and restore functions do not look for duplicates.
\<close>

theorem unnamed_widget_not_persisted:
  assumes root: "w_objectName (m_widget st) \<noteq> []"
  shows
    "(\<forall>i<length (splitters st). sp_objectName (splitters st ! i) = [] \<longrightarrow>
        qs_values (m_stateSettings (saveState st))
            (fullKey (m_stateSettings st) (widgetStateKey st (SplitterRef i)))
          = qs_values (m_stateSettings st)
              (fullKey (m_stateSettings st) (widgetStateKey st (SplitterRef i)))
        \<and> WidgetWithNoName (SplitterRef i) \<in> set (warnings (saveState st))
        \<and> (\<forall>st'. restoreState qt st = Inr st' \<longrightarrow>
              splitters st' ! i = splitters st ! i
              \<and> WidgetWithNoName (SplitterRef i) \<in> set (warnings st')))
     \<and> (\<forall>i<length (headers st). hv_objectName (headers st ! i) = [] \<longrightarrow>
        qs_values (m_stateSettings (saveState st))
            (fullKey (m_stateSettings st) (widgetStateKey st (HeaderRef i)))
          = qs_values (m_stateSettings st)
              (fullKey (m_stateSettings st) (widgetStateKey st (HeaderRef i)))
        \<and> WidgetWithNoName (HeaderRef i) \<in> set (warnings (saveState st))
        \<and> (\<forall>st'. restoreState qt st = Inr st' \<longrightarrow>
              headers st' ! i = headers st ! i
              \<and> WidgetWithNoName (HeaderRef i) \<in> set (warnings st')))
     \<and> (\<forall>st' j. setupManager qt st = Inr st' \<and> j < length (splitters st)
            \<and> duplicateSplitterName qt st j \<longrightarrow>
          DuplicateWidgetName (qt_toLower qt (sp_objectName (splitters st ! j)))
            \<in> set (warnings st')
          \<and> (j \<in> splitterConnected st' \<longleftrightarrow> j \<in> splitterConnected st))
     \<and> (\<forall>st' j. setupManager qt st = Inr st' \<and> j < length (headers st)
            \<and> duplicateHeaderName qt st j \<longrightarrow>
          DuplicateWidgetName (qt_toLower qt (hv_objectName (headers st ! j)))
            \<in> set (warnings st')
          \<and> (j \<in> headerConnected st' \<longleftrightarrow> j \<in> headerConnected st))"
proof -
  have A: "qs_values (m_stateSettings (saveState st))
            (fullKey (m_stateSettings st) (widgetStateKey st (SplitterRef i)))
          = qs_values (m_stateSettings st)
              (fullKey (m_stateSettings st) (widgetStateKey st (SplitterRef i)))
        \<and> WidgetWithNoName (SplitterRef i) \<in> set (warnings (saveState st))
        \<and> (\<forall>st'. restoreState qt st = Inr st' \<longrightarrow>
              splitters st' ! i = splitters st ! i
              \<and> WidgetWithNoName (SplitterRef i) \<in> set (warnings st'))"
    if "i < length (splitters st)" "sp_objectName (splitters st ! i) = []" for i
    using that saveState_unnamed_key [OF root]
      noName_in_concat [of i "length (splitters st)" "\<lambda>i. sp_objectName (splitters st ! i)" SplitterRef]
      restoreState_unnamed_splitter [of qt st _ i]
    by (simp add: widgetStateKey_def objectName_simps saveState_warnings)
  have B: "qs_values (m_stateSettings (saveState st))
            (fullKey (m_stateSettings st) (widgetStateKey st (HeaderRef i)))
          = qs_values (m_stateSettings st)
              (fullKey (m_stateSettings st) (widgetStateKey st (HeaderRef i)))
        \<and> WidgetWithNoName (HeaderRef i) \<in> set (warnings (saveState st))
        \<and> (\<forall>st'. restoreState qt st = Inr st' \<longrightarrow>
              headers st' ! i = headers st ! i
              \<and> WidgetWithNoName (HeaderRef i) \<in> set (warnings st'))"
    if "i < length (headers st)" "hv_objectName (headers st ! i) = []" for i
    using that saveState_unnamed_key [OF root]
      noName_in_concat [of i "length (headers st)" "\<lambda>i. hv_objectName (headers st ! i)" HeaderRef]
      restoreState_unnamed_header [of qt st _ i]
    by (simp add: widgetStateKey_def objectName_simps saveState_warnings)
  from A B setupManager_duplicate_splitter [of qt st, OF _ root]
    setupManager_duplicate_header [of qt st, OF _ root]
  show ?thesis by blast
qed

theorem unnamed_widget_not_persisted_witness:
  "(\<exists>st'. setupManager exampleQt exampleDuplicate = Inr st'
        \<and> DuplicateWidgetName ''mainsplitter'' \<in> set (warnings st')
        \<and> 1 \<notin> splitterConnected st')
   \<and> WidgetWithNoName (HeaderRef 0) \<in> set (warnings (saveState exampleDuplicate))
   \<and> qs_values (m_stateSettings (saveState exampleDuplicate)) ''State'' = None"
proof -
  obtain st' where s: "setupManager exampleQt exampleDuplicate = Inr st'"
    by (simp add: model_defs example_defs exampleDuplicate_def)
  have h: "w_objectName (m_widget exampleDuplicate) \<noteq> []"
    "1 < length (splitters exampleDuplicate)" "duplicateSplitterName exampleQt exampleDuplicate 1"
    "0 < length (headers exampleDuplicate)" "hv_objectName (headers exampleDuplicate ! 0) = []"
    by (simp_all add: duplicateSplitterName_def example_defs exampleDuplicate_def)
  have e: "qt_toLower exampleQt (sp_objectName (splitters exampleDuplicate ! 1)) = ''mainsplitter''"
    "1 \<notin> splitterConnected exampleDuplicate"
    "fullKey (m_stateSettings exampleDuplicate) (widgetStateKey exampleDuplicate (HeaderRef 0))
       = ''State''"
    "qs_values (m_stateSettings exampleDuplicate) ''State'' = None"
    by (simp_all add: model_defs example_defs exampleDuplicate_def)
  from unnamed_widget_not_persisted [OF h(1), of exampleQt] s h(2-5)
  have "DuplicateWidgetName (qt_toLower exampleQt (sp_objectName (splitters exampleDuplicate ! 1)))
          \<in> set (warnings st')
        \<and> (1 \<in> splitterConnected st' \<longleftrightarrow> 1 \<in> splitterConnected exampleDuplicate)"
    "WidgetWithNoName (HeaderRef 0) \<in> set (warnings (saveState exampleDuplicate))"
    "qs_values (m_stateSettings (saveState exampleDuplicate))
            (fullKey (m_stateSettings exampleDuplicate) (widgetStateKey exampleDuplicate (HeaderRef 0)))
          = qs_values (m_stateSettings exampleDuplicate)
              (fullKey (m_stateSettings exampleDuplicate) (widgetStateKey exampleDuplicate (HeaderRef 0)))"
    by blast+
  with s e show ?thesis by auto
qed

theorem duplicate_name_persisted_counterexample:
  "\<not> isl exampleDuplicateRun
   \<and> DuplicateWidgetName ''mainsplitter'' \<in> set (warnings (projr exampleDuplicateRun))
   \<and> 1 \<notin> splitterConnected (projr exampleDuplicateRun)
   \<and> qs_values (m_stateSettings (projr exampleDuplicateRun))
        (fullKey (m_stateSettings (projr exampleDuplicateRun))
           (widgetStateKey (projr exampleDuplicateRun) (SplitterRef 1))) = Some [1, 2, 3]
   \<and> sp_state (splitters exampleDuplicate ! 1) = [7]
   \<and> sp_state (splitters (projr exampleDuplicateRun) ! 1) = [1, 2, 3]
   \<and> sp_customized (splitters (projr exampleDuplicateRun) ! 1)"
proof -
  obtain st' where e: "exampleDuplicateRun = Inr st'"
    and f: "DuplicateWidgetName ''mainsplitter'' \<in> set (warnings st')"
      "1 \<notin> splitterConnected st'"
      "qs_values (m_stateSettings st')
         (fullKey (m_stateSettings st') (widgetStateKey st' (SplitterRef 1))) = Some [1, 2, 3]"
      "sp_state (splitters st' ! 1) = [1, 2, 3]" "sp_customized (splitters st' ! 1)"
    by (simp add: exampleDuplicateRun_def model_defs example_defs exampleDuplicate_def)
  have g: "sp_state (splitters exampleDuplicate ! 1) = [7]"
    by (simp add: exampleDuplicate_def exampleState_def)
  show ?thesis unfolding e using f g by simp
qed

subsection \<open>The guard against nested resizes\<close>

text \<open>
  C4. A resize event that reaches the event filter while the guard flag is set changes
  nothing: \<open>widgetResized\<close>, and with it the restore functions, is not called.
  \<open>widgetResized\<close> keeps the flag set for all of its body and puts the previous value
  back at its end: after a resize handled by an initialised manager whose guard was
  clear, the guard is clear again, and the next resize event is passed to
  \<open>widgetResized\<close>.

  What a handled resize event does: for the root widget, the event filter of an initialised
  manager whose guard is clear runs \<open>restoreSplitterState\<close> and then
  \<open>restoreHeaderState\<close>, both for all widgets and with the guard set, and clears the guard;
  for a view, it runs \<open>restoreHeaderState\<close> for each header of that view. The restore
  functions leave the guard as it is. The restore reaches the widgets: a resize event of the
  root widget gives a named splitter without state in the settings its registered default
  sizes, resolved and distributed on its extent at the time of the event (its width if it
  is horizontal, its height if it is vertical); a resize event of the root widget or of the
  view of a named header with sections and without state in the settings runs the loop over
  its registered default sizes on that header.
\<close>

theorem resize_guard:
  "(m_resizing st \<longrightarrow> eventFilter qt object Resize st = Inr st)
   \<and> (\<forall>s s'. widgetResizedBody qt object s = Inr s' \<longrightarrow> m_resizing s' = m_resizing s)
   \<and> widgetResized qt object st =
       (case widgetResizedBody qt object (st\<lparr>m_resizing := True\<rparr>) of
          Inl e \<Rightarrow> Inl e
        | Inr s \<Rightarrow> Inr (s\<lparr>m_resizing := m_resizing st\<rparr>))
   \<and> (\<forall>st'. m_initialized st \<and> \<not> m_resizing st \<and> eventFilter qt object Resize st = Inr st' \<longrightarrow>
          m_initialized st' \<and> \<not> m_resizing st'
        \<and> eventFilter qt object' Resize st' = widgetResized qt object' st')
   \<and> (m_initialized st \<and> \<not> m_resizing st \<longrightarrow>
          eventFilter qt RootObject Resize st =
            (case restoreSplitterState qt None (st\<lparr>m_resizing := True\<rparr>) of
               Inl e \<Rightarrow> Inl e
             | Inr s1 \<Rightarrow>
                 (case restoreHeaderState qt None s1 of
                    Inl e \<Rightarrow> Inl e
                  | Inr s2 \<Rightarrow> Inr (s2\<lparr>m_resizing := False\<rparr>)))
        \<and> (\<forall>v. eventFilter qt (ViewObject v) Resize st =
            (case foldE (\<lambda>h. restoreHeaderState qt (Some h))
                    (filter (\<lambda>h. hv_view (headers st ! h) = v) [0..<length (headers st)])
                    (st\<lparr>m_resizing := True\<rparr>) of
               Inl e \<Rightarrow> Inl e
             | Inr s \<Rightarrow> Inr (s\<lparr>m_resizing := False\<rparr>))))
   \<and> (\<forall>sel s s'. restoreSplitterState qt sel s = Inr s' \<or> restoreHeaderState qt sel s = Inr s' \<longrightarrow>
          m_resizing s' = m_resizing s)
   \<and> (\<forall>st' i sp spec.
          m_initialized st \<and> \<not> m_resizing st \<and> eventFilter qt RootObject Resize st = Inr st'
          \<and> i < length (splitters st) \<and> sp = splitters st ! i \<and> sp_objectName sp \<noteq> []
          \<and> settingsValue (m_stateSettings st) (sp_objectName sp @ ''State'') = []
          \<and> m_defaultSplitterSizes st (sp_objectName sp) = Some spec \<and> spec \<noteq> [] \<longrightarrow>
          (\<exists>rs. splitterEntries qt sp spec = Inr rs
             \<and> splitters st' ! i =
                 sp\<lparr>sp_sizes :=
                      distributeSpace rs
                        (if sp_orientation sp = Horizontal then sp_width sp else sp_height sp)
                        (sp_handleWidth sp)\<rparr>))
   \<and> (\<forall>st' i h spec.
          m_initialized st \<and> \<not> m_resizing st
          \<and> (eventFilter qt RootObject Resize st = Inr st'
               \<or> eventFilter qt (ViewObject (hv_view h)) Resize st = Inr st')
          \<and> i < length (headers st) \<and> h = headers st ! i
          \<and> hv_objectName h \<noteq> [] \<and> hv_count h \<noteq> 0
          \<and> settingsValue (m_stateSettings st) (hv_objectName h @ ''State'') = []
          \<and> m_defaultHeaderSizes st (hv_objectName h) = Some spec \<and> spec \<noteq> [] \<longrightarrow>
          applyHeaderDefaults qt (views st (hv_view h)) spec 0 h = Inr (headers st' ! i))"
proof -
  have A: "m_resizing st \<longrightarrow> eventFilter qt object Resize st = Inr st"
    by (simp add: eventFilter_def)
  have B: "\<forall>s s'. widgetResizedBody qt object s = Inr s' \<longrightarrow> m_resizing s' = m_resizing s"
    by (simp add: widgetResizedBody_flags)
  have C: "widgetResized qt object st =
       (case widgetResizedBody qt object (st\<lparr>m_resizing := True\<rparr>) of
          Inl e \<Rightarrow> Inl e
        | Inr s \<Rightarrow> Inr (s\<lparr>m_resizing := m_resizing st\<rparr>))" for object
    by (simp add: widgetResized_def setTempValue_def releaseTempValue_def split: sum.splits)
  have D: "m_initialized st' \<and> \<not> m_resizing st'
        \<and> eventFilter qt object' Resize st' = widgetResized qt object' st'"
    if a: "m_initialized st \<and> \<not> m_resizing st \<and> eventFilter qt object Resize st = Inr st'"
    for st'
  proof -
    from a have "widgetResized qt object st = Inr st'"
      by (auto simp: eventFilter_def)
    then obtain s where b: "widgetResizedBody qt object (st\<lparr>m_resizing := True\<rparr>) = Inr s"
      and e: "st' = s\<lparr>m_resizing := m_resizing st\<rparr>"
      by (auto simp: widgetResized_def setTempValue_def releaseTempValue_def split: sum.splits)
    from widgetResizedBody_flags [OF b] a e
    have f: "m_initialized st'" "\<not> m_resizing st'" by simp_all
    then have "eventFilter qt object' Resize st' = widgetResized qt object' st'"
      by (simp add: eventFilter_def)
    with f show ?thesis by simp
  qed
  have ER: "eventFilter qt RootObject Resize st =
            (case restoreSplitterState qt None (st\<lparr>m_resizing := True\<rparr>) of
               Inl e \<Rightarrow> Inl e
             | Inr s1 \<Rightarrow>
                 (case restoreHeaderState qt None s1 of
                    Inl e \<Rightarrow> Inl e
                  | Inr s2 \<Rightarrow> Inr (s2\<lparr>m_resizing := False\<rparr>)))"
    if "m_initialized st \<and> \<not> m_resizing st"
    using that by (simp add: eventFilter_def C widgetResizedBody_def split: sum.splits)
  have EV: "eventFilter qt (ViewObject v) Resize st =
            (case foldE (\<lambda>h. restoreHeaderState qt (Some h))
                    (filter (\<lambda>h. hv_view (headers st ! h) = v) [0..<length (headers st)])
                    (st\<lparr>m_resizing := True\<rparr>) of
               Inl e \<Rightarrow> Inl e
             | Inr s \<Rightarrow> Inr (s\<lparr>m_resizing := False\<rparr>))"
    if "m_initialized st \<and> \<not> m_resizing st" for v
    using that
    by (simp add: eventFilter_def C widgetResizedBody_def headersOfView_def split: sum.splits)
  have F: "\<forall>sel s s'. restoreSplitterState qt sel s = Inr s' \<or> restoreHeaderState qt sel s = Inr s' \<longrightarrow>
          m_resizing s' = m_resizing s"
    using restoreSplitterState_flags restoreHeaderState_flags by blast
  let ?g = "st\<lparr>m_resizing := True\<rparr>"
  have root: "\<exists>s1 s2. restoreSplitterState qt None ?g = Inr s1
        \<and> restoreHeaderState qt None s1 = Inr s2 \<and> st' = s2\<lparr>m_resizing := False\<rparr>"
    if "m_initialized st \<and> \<not> m_resizing st" "eventFilter qt RootObject Resize st = Inr st'"
    for st'
    using that(2) unfolding ER [OF that(1)] by (auto split: sum.splits)
  have G: "\<exists>rs. splitterEntries qt sp spec = Inr rs
             \<and> splitters st' ! i =
                 sp\<lparr>sp_sizes :=
                      distributeSpace rs
                        (if sp_orientation sp = Horizontal then sp_width sp else sp_height sp)
                        (sp_handleWidth sp)\<rparr>"
    if h: "m_initialized st \<and> \<not> m_resizing st \<and> eventFilter qt RootObject Resize st = Inr st'
          \<and> i < length (splitters st) \<and> sp = splitters st ! i \<and> sp_objectName sp \<noteq> []
          \<and> settingsValue (m_stateSettings st) (sp_objectName sp @ ''State'') = []
          \<and> m_defaultSplitterSizes st (sp_objectName sp) = Some spec \<and> spec \<noteq> []"
    for st' i sp spec
  proof -
    from root [of st'] h obtain s1 s2 where a: "restoreSplitterState qt None ?g = Inr s1"
      and b: "restoreHeaderState qt None s1 = Inr s2" and e: "st' = s2\<lparr>m_resizing := False\<rparr>"
      by blast
    from h have i: "i < length (splitters ?g)" by simp
    from restoreSplitterState_nth [OF a i] h
    have r: "splitterRestored qt (m_stateSettings st) (m_defaultSplitterSizes st) True sp
               = Inr (splitters s1 ! i)"
      by (simp add: splitterTargets_def)
    from restoreHeaderState_frame [OF b] e have eq: "splitters st' = splitters s1" by auto
    from h have n: "sp_objectName sp \<noteq> []"
      and bl: "settingsValue (m_stateSettings st) (sp_objectName sp @ ''State'') = []"
      and d: "m_defaultSplitterSizes st (sp_objectName sp) = Some spec" and ne: "spec \<noteq> []"
      by blast+
    from splitterRestored_defaults [OF r n bl d ne] show ?thesis
      unfolding eq by blast
  qed
  have H: "applyHeaderDefaults qt (views st (hv_view h)) spec 0 h = Inr (headers st' ! i)"
    if h: "m_initialized st \<and> \<not> m_resizing st
          \<and> (eventFilter qt RootObject Resize st = Inr st'
               \<or> eventFilter qt (ViewObject (hv_view h)) Resize st = Inr st')
          \<and> i < length (headers st) \<and> h = headers st ! i
          \<and> hv_objectName h \<noteq> [] \<and> hv_count h \<noteq> 0
          \<and> settingsValue (m_stateSettings st) (hv_objectName h @ ''State'') = []
          \<and> m_defaultHeaderSizes st (hv_objectName h) = Some spec \<and> spec \<noteq> []"
    for st' i h spec
  proof -
    have r: "headerRestored qt (m_stateSettings st) (m_defaultHeaderSizes st) True (views st) h
               = Inr (headers st' ! i)"
    proof (cases "eventFilter qt RootObject Resize st = Inr st'")
      case True
      from root [of st'] h True obtain s1 s2 where a: "restoreSplitterState qt None ?g = Inr s1"
        and b: "restoreHeaderState qt None s1 = Inr s2" and e: "st' = s2\<lparr>m_resizing := False\<rparr>"
        by blast
      from restoreSplitterState_frame [OF a] obtain ss ws where
        s1: "s1 = ?g\<lparr>splitters := ss, warnings := ws\<rparr>" by blast
      from h have i: "i < length (headers s1)" by (simp add: s1)
      from restoreHeaderState_nth [OF b i] h
      show ?thesis by (simp add: headerTargets_def s1 e)
    next
      case False
      with h have ev: "eventFilter qt (ViewObject (hv_view h)) Resize st = Inr st'" by blast
      from h have g: "m_initialized st \<and> \<not> m_resizing st" by simp
      from ev obtain s where
        a: "foldE (\<lambda>h. restoreHeaderState qt (Some h)) (headersOfView (hv_view h) ?g) ?g = Inr s"
        and e: "st' = s\<lparr>m_resizing := False\<rparr>"
        unfolding EV [OF g] by (auto simp: headersOfView_def split: sum.splits)
      from h have i: "i < length (headers ?g)" by simp
      from widgetResized_view_nth [OF a i] h show ?thesis by (simp add: e)
    qed
    from h have n: "hv_objectName h \<noteq> []" and c: "hv_count h \<noteq> 0"
      and bl: "settingsValue (m_stateSettings st) (hv_objectName h @ ''State'') = []"
      and d: "m_defaultHeaderSizes st (hv_objectName h) = Some spec" and ne: "spec \<noteq> []"
      by blast+
    from headerRestored_defaults [OF r n c bl d ne] show ?thesis by blast
  qed
  from A B C D ER EV F G H show ?thesis by blast
qed


theorem resize_guard_witness:
  "eventFilter exampleQt RootObject Resize (exampleWide\<lparr>m_resizing := True\<rparr>)
     = Inr (exampleWide\<lparr>m_resizing := True\<rparr>)
   \<and> sp_sizes (splitters exampleWide ! 0) = []
   \<and> eventFilter exampleQt RootObject Resize exampleWide = Inr exampleWideResized
   \<and> sp_sizes (splitters exampleWideResized ! 0) = [200, 1180, 600]
   \<and> hv_sectionSize (headers exampleWideResized ! 0) 0 = 200
   \<and> \<not> m_resizing exampleWideResized
   \<and> (\<exists>st'. eventFilter exampleQt RootObject Resize
               (setSplitter 0 (exampleSplitter\<lparr>sp_width := 3000\<rparr>) exampleWideResized) = Inr st'
          \<and> sp_sizes (splitters st' ! 0) = [200, 1880, 900])"
proof -
  have a: "eventFilter exampleQt RootObject Resize (exampleWide\<lparr>m_resizing := True\<rparr>)
     = Inr (exampleWide\<lparr>m_resizing := True\<rparr>)"
    using resize_guard [of "exampleWide\<lparr>m_resizing := True\<rparr>" exampleQt RootObject]
    by simp
  have b: "eventFilter exampleQt RootObject Resize exampleWide = Inr exampleWideResized"
    by (simp add: model_defs example_defs exampleWide_def exampleWideResized_def fun_eq_iff)
  have c: "sp_sizes (splitters exampleWide ! 0) = []"
    "sp_sizes (splitters exampleWideResized ! 0) = [200, 1180, 600]"
    "hv_sectionSize (headers exampleWideResized ! 0) 0 = 200"
    "\<not> m_resizing exampleWideResized"
    by (simp_all add: example_defs exampleWide_def exampleWideResized_def)
  let ?s = "setSplitter 0 (exampleSplitter\<lparr>sp_width := 3000\<rparr>) exampleWideResized"
  let ?sp = "exampleSplitter\<lparr>sp_width := 3000\<rparr>"
  obtain st' where d: "eventFilter exampleQt RootObject Resize ?s = Inr st'"
    by (simp add: model_defs example_defs exampleWide_def exampleWideResized_def)
  have h: "m_initialized ?s \<and> \<not> m_resizing ?s \<and> eventFilter exampleQt RootObject Resize ?s = Inr st'
          \<and> 0 < length (splitters ?s) \<and> ?sp = splitters ?s ! 0 \<and> sp_objectName ?sp \<noteq> []
          \<and> settingsValue (m_stateSettings ?s) (sp_objectName ?sp @ ''State'') = []
          \<and> m_defaultSplitterSizes ?s (sp_objectName ?sp) = Some exampleSplitterSizes
          \<and> exampleSplitterSizes \<noteq> []"
    using d
    by (simp add: setSplitter_def exampleWideResized_def exampleWide_def exampleState_def
        exampleSplitter_def exampleSplitterSizes_def settingsValue_def fullKey_def groupPrefix_def)
  from resize_guard [of ?s exampleQt] h
  have "\<exists>rs. splitterEntries exampleQt ?sp exampleSplitterSizes = Inr rs
             \<and> splitters st' ! 0 =
                 ?sp\<lparr>sp_sizes :=
                      distributeSpace rs
                        (if sp_orientation ?sp = Horizontal then sp_width ?sp else sp_height ?sp)
                        (sp_handleWidth ?sp)\<rparr>"
    by blast
  moreover have "splitterEntries exampleQt ?sp exampleSplitterSizes = Inr [200, - 1, 900]"
    by (simp add: exampleSplitterSizes_def splitterEntry_def percentToInt_def exampleQt_def
        decimalToInt_def digitValue_def exampleSplitter_def intDiv_def)
  ultimately have "splitters st' ! 0 =
                 ?sp\<lparr>sp_sizes :=
                      distributeSpace [200, - 1, 900]
                        (if sp_orientation ?sp = Horizontal then sp_width ?sp else sp_height ?sp)
                        (sp_handleWidth ?sp)\<rparr>"
    by auto
  then have "sp_sizes (splitters st' ! 0) = [200, 1880, 900]"
    by (simp add: exampleSplitter_def distributeSpace_def intDiv_def)
  with a b c d show ?thesis by blast
qed

subsection \<open>What a save cycle writes\<close>

text \<open>
  C5. A save cycle changes the value of a key only if the key is the geometry or state
  key of a root widget that is a main window, or the state key of a named splitter
  that is marked customized, or the state key of a named header with sections that is
  marked customized. Saving a single splitter or header that is not marked customized
  leaves the settings as they are. Restoring a splitter or header that has no state in
  the settings (which applies the default sizes, if any) does not change the mark: a
  widget that was only laid out by its defaults stays unmarked, and is not saved.
\<close>

theorem saved_only_if_customized:
  "(\<forall>k. qs_values (m_stateSettings (saveState st)) k \<noteq> qs_values (m_stateSettings st) k \<longrightarrow>
        (w_isMainWindow (m_widget st)
           \<and> (k = fullKey (m_stateSettings st) (widgetGeometryKey st RootWidget)
              \<or> k = fullKey (m_stateSettings st) (widgetStateKey st RootWidget)))
        \<or> (\<exists>i<length (splitters st). sp_objectName (splitters st ! i) \<noteq> []
              \<and> sp_customized (splitters st ! i)
              \<and> k = fullKey (m_stateSettings st) (widgetStateKey st (SplitterRef i)))
        \<or> (\<exists>i<length (headers st). hv_objectName (headers st ! i) \<noteq> []
              \<and> hv_count (headers st ! i) \<noteq> 0 \<and> hv_customized (headers st ! i)
              \<and> k = fullKey (m_stateSettings st) (widgetStateKey st (HeaderRef i))))
   \<and> (\<forall>i<length (splitters st). \<not> sp_customized (splitters st ! i) \<longrightarrow>
          m_stateSettings (saveSplitterState (Some i) st) = m_stateSettings st)
   \<and> (\<forall>i<length (headers st). \<not> hv_customized (headers st ! i) \<longrightarrow>
          m_stateSettings (saveHeaderState (Some i) st) = m_stateSettings st)
   \<and> (\<forall>sel st' i. restoreSplitterState qt sel st = Inr st' \<and> i < length (splitters st)
          \<and> settingsValue (m_stateSettings st) (widgetStateKey st (SplitterRef i)) = [] \<longrightarrow>
          sp_customized (splitters st' ! i) = sp_customized (splitters st ! i))
   \<and> (\<forall>sel st' i. restoreHeaderState qt sel st = Inr st' \<and> i < length (headers st)
          \<and> settingsValue (m_stateSettings st) (widgetStateKey st (HeaderRef i)) = [] \<longrightarrow>
          hv_customized (headers st' ! i) = hv_customized (headers st ! i))"
proof -
  have A: "\<forall>i<length (splitters st). \<not> sp_customized (splitters st ! i) \<longrightarrow>
          m_stateSettings (saveSplitterState (Some i) st) = m_stateSettings st"
    by (simp add: saveSplitterState_eq splitterTargets_def splitterSaved_def)
  have B: "\<forall>i<length (headers st). \<not> hv_customized (headers st ! i) \<longrightarrow>
          m_stateSettings (saveHeaderState (Some i) st) = m_stateSettings st"
    by (simp add: saveHeaderState_eq headerTargets_def headerSaved_def)
  have C: "sp_customized (splitters st' ! i) = sp_customized (splitters st ! i)"
    if "restoreSplitterState qt sel st = Inr st' \<and> i < length (splitters st)
          \<and> settingsValue (m_stateSettings st) (widgetStateKey st (SplitterRef i)) = []"
    for sel st' i
  proof (cases "i \<in> set (splitterTargets sel st)")
    case True
    with that restoreSplitterState_nth [of qt sel st st' i]
    have "splitterRestored qt (m_stateSettings st) (m_defaultSplitterSizes st) (m_resizing st)
              (splitters st ! i) = Inr (splitters st' ! i)" by simp
    from splitterRestored_customized [OF this] that show ?thesis
      by (simp add: widgetStateKey_def objectName_simps)
  next
    case False
    with that restoreSplitterState_nth [of qt sel st st' i] show ?thesis by simp
  qed
  have D: "hv_customized (headers st' ! i) = hv_customized (headers st ! i)"
    if "restoreHeaderState qt sel st = Inr st' \<and> i < length (headers st)
          \<and> settingsValue (m_stateSettings st) (widgetStateKey st (HeaderRef i)) = []"
    for sel st' i
  proof (cases "i \<in> set (headerTargets sel st)")
    case True
    with that restoreHeaderState_nth [of qt sel st st' i]
    have "headerRestored qt (m_stateSettings st) (m_defaultHeaderSizes st) (m_resizing st)
              (views st) (headers st ! i) = Inr (headers st' ! i)" by simp
    from headerRestored_customized [OF this] that show ?thesis
      by (simp add: widgetStateKey_def objectName_simps)
  next
    case False
    with that restoreHeaderState_nth [of qt sel st st' i] show ?thesis by simp
  qed
  from saveState_changes [of st] A B C D show ?thesis by blast
qed

theorem saved_only_if_customized_witness:
  "m_stateSettings (saveSplitterState (Some 0) exampleState) = m_stateSettings exampleState
   \<and> m_stateSettings (saveHeaderState (Some 0) exampleState) = m_stateSettings exampleState
   \<and> (\<exists>st'. restoreSplitterState exampleQt None exampleState = Inr st'
          \<and> \<not> sp_customized (splitters st' ! 0))"
proof -
  obtain st' where r: "restoreSplitterState exampleQt None exampleState = Inr st'"
    by (simp add: model_defs example_defs)
  have h: "0 < length (splitters exampleState)" "0 < length (headers exampleState)"
    "\<not> sp_customized (splitters exampleState ! 0)" "\<not> hv_customized (headers exampleState ! 0)"
    "settingsValue (m_stateSettings exampleState)
       (widgetStateKey exampleState (SplitterRef 0)) = []"
    by (simp_all add: model_defs example_defs)
  from saved_only_if_customized [of exampleState exampleQt] r h
  have "m_stateSettings (saveSplitterState (Some 0) exampleState) = m_stateSettings exampleState"
    "m_stateSettings (saveHeaderState (Some 0) exampleState) = m_stateSettings exampleState"
    "sp_customized (splitters st' ! 0) = sp_customized (splitters exampleState ! 0)"
    by blast+
  with r h show ?thesis by blast
qed

subsection \<open>Saving and restoring a customized splitter\<close>

text \<open>
  C6, as amended. Let the splitter at \<open>i\<close> have a name that no other splitter and no
  header shares, be marked customized, and have a serialised state that is not empty.
  After a save cycle the settings hold exactly that state under the state key of the
  splitter. A restore that runs on these settings while the guard flag is clear gives
  the splitter of that name exactly this state and marks it customized; while the guard
  flag is set (a restore triggered by a resize) the splitter is left as it is. The
  restore of the splitter alone returns.
\<close>

theorem customized_splitter_round_trip:
  assumes i: "i < length (splitters st)" and sp: "sp = splitters st ! i"
    and name: "sp_objectName sp \<noteq> []" and cust: "sp_customized sp"
    and blob: "sp_state sp \<noteq> []"
    and us: "\<forall>j<length (splitters st). j \<noteq> i \<longrightarrow> sp_objectName (splitters st ! j) \<noteq> sp_objectName sp"
    and uh: "\<forall>j<length (headers st). hv_objectName (headers st ! j) \<noteq> sp_objectName sp"
    and s: "m_stateSettings s = m_stateSettings (saveState st)"
    and j: "j < length (splitters s)" "sp_objectName (splitters s ! j) = sp_objectName sp"
  shows "settingsValue (m_stateSettings (saveState st)) (widgetStateKey st (SplitterRef i))
           = sp_state sp
     \<and> (\<exists>s'. restoreSplitterState qt (Some j) s = Inr s')
     \<and> (\<forall>s'. restoreSplitterState qt (Some j) s = Inr s'
              \<or> restoreSplitterState qt None s = Inr s' \<longrightarrow>
            splitters s' ! j =
              (if m_resizing s then splitters s ! j
               else (splitters s ! j)\<lparr>sp_state := sp_state sp, sp_customized := True\<rparr>))"
proof -
  have A: "settingsValue (m_stateSettings (saveState st)) (widgetStateKey st (SplitterRef i))
           = sp_state sp"
    using saveState_own_splitter [OF i] name cust us uh sp by simp
  then have v: "settingsValue (m_stateSettings s) (sp_objectName (splitters s ! j) @ ''State'')
           = sp_state sp"
    using s j(2) sp by (simp add: widgetStateKey_def objectName_simps)
  have R: "splitterRestored qt (m_stateSettings s) (m_defaultSplitterSizes s) (m_resizing s)
             (splitters s ! j)
           = Inr (if m_resizing s then splitters s ! j
                  else (splitters s ! j)\<lparr>sp_state := sp_state sp, sp_customized := True\<rparr>)"
    using splitterRestored_blob [OF _ v blob] name j(2) by simp
  have B: "\<exists>s'. restoreSplitterState qt (Some j) s = Inr s'"
    using j(1) R by (simp add: restoreSplitterState_def splitterTargets_def restoreSplitter_eq)
  have C: "splitters s' ! j =
              (if m_resizing s then splitters s ! j
               else (splitters s ! j)\<lparr>sp_state := sp_state sp, sp_customized := True\<rparr>)"
    if "restoreSplitterState qt sel s = Inr s'" "j \<in> set (splitterTargets sel s)" for sel s'
    using restoreSplitterState_nth [OF that(1) j(1)] that(2) R by simp
  have t: "j \<in> set (splitterTargets (Some j) s)" "j \<in> set (splitterTargets None s)"
    using j(1) by (simp_all add: splitterTargets_def)
  from A B C [of "Some j"] C [of None] t show ?thesis by blast
qed

theorem customized_splitter_round_trip_witness:
  "settingsValue (m_stateSettings (saveState exampleMoved)) ''mainSplitterState'' = [1, 2, 3]
   \<and> (\<exists>s'. restoreSplitterState exampleQt (Some 0)
              (setSplitter 0 (exampleSplitter\<lparr>sp_state := [9]\<rparr>) (saveState exampleMoved))
            = Inr s'
          \<and> sp_state (splitters s' ! 0) = [1, 2, 3] \<and> sp_customized (splitters s' ! 0))"
proof -
  let ?s = "setSplitter 0 (exampleSplitter\<lparr>sp_state := [9]\<rparr>) (saveState exampleMoved)"
  have h: "0 < length (splitters exampleMoved)"
    "sp_objectName (splitters exampleMoved ! 0) \<noteq> []"
    "sp_customized (splitters exampleMoved ! 0)"
    "sp_state (splitters exampleMoved ! 0) \<noteq> []"
    "\<forall>j<length (splitters exampleMoved). j \<noteq> 0 \<longrightarrow>
       sp_objectName (splitters exampleMoved ! j) \<noteq> sp_objectName (splitters exampleMoved ! 0)"
    "\<forall>j<length (headers exampleMoved).
       hv_objectName (headers exampleMoved ! j) \<noteq> sp_objectName (splitters exampleMoved ! 0)"
    "m_stateSettings ?s = m_stateSettings (saveState exampleMoved)"
    "0 < length (splitters ?s)"
    "sp_objectName (splitters ?s ! 0) = sp_objectName (splitters exampleMoved ! 0)"
    by (simp_all add: exampleMoved_def exampleState_def exampleSplitter_def exampleHeader_def
        setSplitter_def saveState_widgets)
  have e: "\<not> m_resizing ?s" "sp_state (splitters exampleMoved ! 0) = [1, 2, 3]"
    "widgetStateKey exampleMoved (SplitterRef 0) = ''mainSplitterState''"
    by (simp_all add: model_defs example_defs exampleMoved_def)
  from customized_splitter_round_trip [OF h(1) refl h(2-9), of exampleQt] e
  show ?thesis by auto
qed

theorem restore_under_guard_counterexample:
  "\<not> isl exampleResizedAfterSave
   \<and> settingsValue (m_stateSettings (projr exampleResizedAfterSave)) ''mainSplitterState''
       = [1, 2, 3]
   \<and> sp_customized (splitters (projr exampleResizedAfterSave) ! 0)
   \<and> sp_state (splitters (projr exampleResizedAfterSave) ! 0) = [9]"
proof -
  obtain s' where e: "exampleResizedAfterSave = Inr s'"
    and f: "settingsValue (m_stateSettings s') ''mainSplitterState'' = [1, 2, 3]"
      "sp_customized (splitters s' ! 0)" "sp_state (splitters s' ! 0) = [9]"
    by (simp add: exampleResizedAfterSave_def model_defs example_defs exampleMoved_def)
  show ?thesis unfolding e using f by simp
qed

subsection \<open>Default sizes of a header\<close>

text \<open>
  C7. Let the header at \<open>i\<close> have a name, at least one section, no state in the
  settings, and a registered default-size vector as long as its section count. When
  the header is restored, alone or with all headers, the sections whose resize mode is
  neither interactive nor fixed keep their size; each existing section whose resize
  mode is interactive or fixed is resized to what its entry says (pixels, a percentage
  of the extent of the view, or the size hint of the section for \<open>-1\<close>); the resize
  modes are unchanged. The restore of the header returns when every entry is an int or
  a string.
\<close>

theorem header_defaults_only_resizable:
  assumes i: "i < length (headers st)" and h: "h = headers st ! i"
    and name: "hv_objectName h \<noteq> []" and cnt: "hv_count h \<noteq> 0"
    and blob: "settingsValue (m_stateSettings st) (hv_objectName h @ ''State'') = []"
    and spec: "m_defaultHeaderSizes st (hv_objectName h) = Some spec" "length spec = hv_count h"
  shows "((\<forall>d\<in>set spec. d \<noteq> VOther) \<longrightarrow> (\<exists>st'. restoreHeaderState qt (Some i) st = Inr st'))
     \<and> (\<forall>st'. restoreHeaderState qt (Some i) st = Inr st'
              \<or> restoreHeaderState qt None st = Inr st' \<longrightarrow>
          (\<forall>c. \<not> resizableSection h c \<longrightarrow>
                hv_sectionSize (headers st' ! i) c = hv_sectionSize h c)
        \<and> (\<forall>c<hv_count h. resizableSection h c \<longrightarrow>
                hv_sectionSize (headers st' ! i) c =
                  sectionDefault qt (views st (hv_view h)) h (spec ! c) c)
        \<and> hv_sectionResizeMode (headers st' ! i) = hv_sectionResizeMode h)"
proof -
  let ?R = "headerRestored qt (m_stateSettings st) (m_defaultHeaderSizes st) (m_resizing st)
              (views st) h"
  have R: "?R = applyHeaderDefaults qt (views st (hv_view h)) spec 0 h"
    using name cnt blob spec
    by (rule headerRestored_default [where D = "m_defaultHeaderSizes st"])
  have A: "\<exists>st'. restoreHeaderState qt (Some i) st = Inr st'" if "\<forall>d\<in>set spec. d \<noteq> VOther"
  proof -
    from applyHeaderDefaults_total [OF that] R obtain h' where "?R = Inr h'" by metis
    with i h show ?thesis
      by (simp add: restoreHeaderState_def headerTargets_def restoreHeader_eq)
  qed
  have B: "(\<forall>c. \<not> resizableSection h c \<longrightarrow>
                hv_sectionSize (headers st' ! i) c = hv_sectionSize h c)
        \<and> (\<forall>c<hv_count h. resizableSection h c \<longrightarrow>
                hv_sectionSize (headers st' ! i) c =
                  sectionDefault qt (views st (hv_view h)) h (spec ! c) c)
        \<and> hv_sectionResizeMode (headers st' ! i) = hv_sectionResizeMode h"
    if r: "restoreHeaderState qt sel st = Inr st'" and t: "i \<in> set (headerTargets sel st)"
    for sel st'
  proof -
    from restoreHeaderState_nth [OF r i] t h have "?R = Inr (headers st' ! i)" by simp
    with R have "applyHeaderDefaults qt (views st (hv_view h)) spec 0 h = Inr (headers st' ! i)"
      by simp
    from applyHeaderDefaults_eq [OF this] spec(2) show ?thesis by simp
  qed
  have t: "i \<in> set (headerTargets (Some i) st)" "i \<in> set (headerTargets None st)"
    using i by (simp_all add: headerTargets_def)
  from A B [of "Some i"] B [of None] t show ?thesis by blast
qed

theorem header_defaults_only_resizable_witness:
  "\<exists>st'. restoreHeaderState exampleQt (Some 0) exampleState = Inr st'
     \<and> hv_sectionSize (headers st' ! 0) 0 = 200
     \<and> hv_sectionSize (headers st' ! 0) 1 = 100
     \<and> hv_sectionSize (headers st' ! 0) 2 = 80"
proof -
  have "((\<forall>d\<in>set exampleHeaderSizes. d \<noteq> VOther)
           \<longrightarrow> (\<exists>st'. restoreHeaderState exampleQt (Some 0) exampleState = Inr st'))
     \<and> (\<forall>st'. restoreHeaderState exampleQt (Some 0) exampleState = Inr st'
              \<or> restoreHeaderState exampleQt None exampleState = Inr st' \<longrightarrow>
          (\<forall>c. \<not> resizableSection exampleHeader c \<longrightarrow>
                hv_sectionSize (headers st' ! 0) c = hv_sectionSize exampleHeader c)
        \<and> (\<forall>c<hv_count exampleHeader. resizableSection exampleHeader c \<longrightarrow>
                hv_sectionSize (headers st' ! 0) c =
                  sectionDefault exampleQt (views exampleState (hv_view exampleHeader))
                    exampleHeader (exampleHeaderSizes ! c) c)
        \<and> hv_sectionResizeMode (headers st' ! 0) = hv_sectionResizeMode exampleHeader)"
    by (rule header_defaults_only_resizable)
       (simp_all add: exampleState_def exampleHeader_def exampleHeaderSizes_def settingsValue_def
          fullKey_def groupPrefix_def)
  moreover have "\<forall>d\<in>set exampleHeaderSizes. d \<noteq> VOther"
    by (simp add: exampleHeaderSizes_def)
  moreover have "\<not> resizableSection exampleHeader 1" "resizableSection exampleHeader 0"
    "resizableSection exampleHeader 2" "hv_count exampleHeader = 3"
    "hv_sectionSize exampleHeader 1 = 100"
    by (simp_all add: resizableSection_def exampleHeader_def)
  moreover have
    "sectionDefault exampleQt (views exampleState (hv_view exampleHeader)) exampleHeader
       (exampleHeaderSizes ! 0) 0 = 200"
    "sectionDefault exampleQt (views exampleState (hv_view exampleHeader)) exampleHeader
       (exampleHeaderSizes ! 2) 2 = 80"
    by (simp_all add: sectionDefault_def model_defs example_defs)
  ultimately show ?thesis
    by (metis (no_types, lifting) numeral_2_eq_2 lessI less_SucI numeral_3_eq_3 zero_less_Suc)
qed

subsection \<open>Headers without sections\<close>

text \<open>
  C8. Let the header at \<open>i\<close> have no sections. Whatever the settings hold, restoring
  it, alone or with all headers, leaves it as it is: the result does not depend on the
  store, which is read only after the check of the section count; and the restore of
  this header alone returns. Saving it alone leaves the settings as they are, and when
  all headers are saved every key whose value changes is the state key of another
  header, one that has sections.
\<close>

theorem zero_column_header_skipped:
  assumes i: "i < length (headers st)" and z: "hv_count (headers st ! i) = 0"
  shows "(\<forall>S sel st'. restoreHeaderState qt sel (st\<lparr>m_stateSettings := S\<rparr>) = Inr st' \<longrightarrow>
            headers st' ! i = headers st ! i)
       \<and> (\<exists>st'. restoreHeaderState qt (Some i) st = Inr st')
       \<and> m_stateSettings (saveHeaderState (Some i) st) = m_stateSettings st
       \<and> (\<forall>k. qs_values (m_stateSettings (saveHeaderState None st)) k
                  \<noteq> qs_values (m_stateSettings st) k \<longrightarrow>
              (\<exists>j<length (headers st). j \<noteq> i \<and> hv_count (headers st ! j) \<noteq> 0
                 \<and> k = fullKey (m_stateSettings st) (widgetStateKey st (HeaderRef j))))"
proof -
  have A: "headers st' ! i = headers st ! i"
    if r: "restoreHeaderState qt sel (st\<lparr>m_stateSettings := S\<rparr>) = Inr st'" for S sel st'
  proof -
    from i have "i < length (headers (st\<lparr>m_stateSettings := S\<rparr>))" by simp
    from restoreHeaderState_nth [OF r this] z show ?thesis
      by (cases "i \<in> set (headerTargets sel (st\<lparr>m_stateSettings := S\<rparr>))")
         (simp_all add: headerRestored_zero)
  qed
  have B: "\<exists>st'. restoreHeaderState qt (Some i) st = Inr st'"
    using i z by (simp add: restoreHeaderState_def headerTargets_def restoreHeader_eq
        headerRestored_zero)
  have C: "m_stateSettings (saveHeaderState (Some i) st) = m_stateSettings st"
    using i z by (simp add: saveHeaderState_eq headerTargets_def headerSaved_def)
  have D: "\<exists>j<length (headers st). j \<noteq> i \<and> hv_count (headers st ! j) \<noteq> 0
                 \<and> k = fullKey (m_stateSettings st) (widgetStateKey st (HeaderRef j))"
    if "qs_values (m_stateSettings (saveHeaderState None st)) k
          \<noteq> qs_values (m_stateSettings st) k" for k
  proof -
    from that have "qs_values (fold (\<lambda>i. headerSaved (headers st ! i)) [0..<length (headers st)]
                      (m_stateSettings st)) k \<noteq> qs_values (m_stateSettings st) k"
      by (simp add: saveHeaderState_eq headerTargets_def)
    from fold_headerSaved_changes [OF this] obtain j where
      "j < length (headers st)" "hv_count (headers st ! j) \<noteq> 0"
      "k = fullKey (m_stateSettings st) (hv_objectName (headers st ! j) @ ''State'')"
      by auto
    with z show ?thesis
      by (auto simp: widgetStateKey_def objectName_simps)
  qed
  from A B C D show ?thesis by blast
qed

theorem zero_column_header_skipped_witness:
  "(\<exists>st'. restoreHeaderState exampleQt (Some 0)
            (setHeader 0 (exampleHeader\<lparr>hv_count := 0, hv_customized := True\<rparr>) exampleState)
          = Inr st')
   \<and> m_stateSettings (saveHeaderState (Some 0)
        (setHeader 0 (exampleHeader\<lparr>hv_count := 0, hv_customized := True\<rparr>) exampleState))
     = m_stateSettings exampleState"
proof -
  let ?st = "setHeader 0 (exampleHeader\<lparr>hv_count := 0, hv_customized := True\<rparr>) exampleState"
  have h: "0 < length (headers ?st)" "hv_count (headers ?st ! 0) = 0"
    "m_stateSettings ?st = m_stateSettings exampleState"
    by (simp_all add: setHeader_def exampleState_def)
  from zero_column_header_skipped [OF h(1,2), of exampleQt] h(3) show ?thesis by simp
qed

subsection \<open>The assertion on the length of the default sizes\<close>

text \<open>
  C9. When a restore returns, every default-size vector it applied to a splitter or a
  header is as long as the pane or section count of the widget. A vector of another
  length is not recovered from: the restore of that widget ends in the failed assertion
  \<open>SizesCountMismatch\<close>. That assertion is out of reach when the vectors to apply have
  the length of the counts: a restore of everything that ends in it has a splitter or
  a header whose vector has another length.
\<close>

theorem default_sizes_count_assertion:
  "(\<forall>sel st' i d. restoreSplitterState qt sel st = Inr st' \<and> i \<in> set (splitterTargets sel st)
        \<and> appliedSplitterDefaults st i = Some d \<longrightarrow> length d = sp_count (splitters st ! i))
   \<and> (\<forall>sel st' i d. restoreHeaderState qt sel st = Inr st' \<and> i \<in> set (headerTargets sel st)
        \<and> appliedHeaderDefaults st i = Some d \<longrightarrow> length d = hv_count (headers st ! i))
   \<and> (\<forall>i d. i < length (splitters st) \<and> appliedSplitterDefaults st i = Some d
        \<and> length d \<noteq> sp_count (splitters st ! i) \<longrightarrow>
        restoreSplitterState qt (Some i) st = Inl SizesCountMismatch)
   \<and> (\<forall>i d. i < length (headers st) \<and> appliedHeaderDefaults st i = Some d
        \<and> length d \<noteq> hv_count (headers st ! i) \<longrightarrow>
        restoreHeaderState qt (Some i) st = Inl SizesCountMismatch)
   \<and> (restoreState qt st = Inl SizesCountMismatch \<longrightarrow>
        (\<exists>i<length (splitters st). \<exists>d. appliedSplitterDefaults st i = Some d
            \<and> length d \<noteq> sp_count (splitters st ! i))
        \<or> (\<exists>i<length (headers st). \<exists>d. appliedHeaderDefaults st i = Some d
            \<and> length d \<noteq> hv_count (headers st ! i)))"
proof -
  have A: "length d = sp_count (splitters st ! i)"
    if "restoreSplitterState qt sel st = Inr st' \<and> i \<in> set (splitterTargets sel st)
        \<and> appliedSplitterDefaults st i = Some d" for sel st' i d
  proof -
    from that have i: "i < length (splitters st)" by (auto dest: splitterTargets_less)
    from that restoreSplitterState_nth [of qt sel st st' i] i
    have "splitterRestored qt (m_stateSettings st) (m_defaultSplitterSizes st) (m_resizing st)
            (splitters st ! i) = Inr (splitters st' ! i)" by simp
    from splitterRestored_applied [OF this] that show ?thesis by simp
  qed
  have B: "length d = hv_count (headers st ! i)"
    if "restoreHeaderState qt sel st = Inr st' \<and> i \<in> set (headerTargets sel st)
        \<and> appliedHeaderDefaults st i = Some d" for sel st' i d
  proof -
    from that have i: "i < length (headers st)" by (auto dest: headerTargets_less)
    from that restoreHeaderState_nth [of qt sel st st' i] i
    have "headerRestored qt (m_stateSettings st) (m_defaultHeaderSizes st) (m_resizing st)
            (views st) (headers st ! i) = Inr (headers st' ! i)" by simp
    from headerRestored_applied [OF this] that show ?thesis by simp
  qed
  have C: "restoreSplitterState qt (Some i) st = Inl SizesCountMismatch"
    if "i < length (splitters st) \<and> appliedSplitterDefaults st i = Some d
        \<and> length d \<noteq> sp_count (splitters st ! i)" for i d
  proof -
    from that have "splitterRestored qt (m_stateSettings st) (m_defaultSplitterSizes st)
        (m_resizing st) (splitters st ! i) = Inl SizesCountMismatch"
      by (simp add: splitterRestored_mismatch)
    with that show ?thesis
      by (simp add: restoreSplitterState_def splitterTargets_def restoreSplitter_eq)
  qed
  have D: "restoreHeaderState qt (Some i) st = Inl SizesCountMismatch"
    if "i < length (headers st) \<and> appliedHeaderDefaults st i = Some d
        \<and> length d \<noteq> hv_count (headers st ! i)" for i d
  proof -
    from that have "headerRestored qt (m_stateSettings st) (m_defaultHeaderSizes st)
        (m_resizing st) (views st) (headers st ! i) = Inl SizesCountMismatch"
      by (simp add: headerRestored_mismatch)
    with that show ?thesis
      by (simp add: restoreHeaderState_def headerTargets_def restoreHeader_eq)
  qed
  have E: "(\<exists>i<length (splitters st). \<exists>d. appliedSplitterDefaults st i = Some d
            \<and> length d \<noteq> sp_count (splitters st ! i))
        \<or> (\<exists>i<length (headers st). \<exists>d. appliedHeaderDefaults st i = Some d
            \<and> length d \<noteq> hv_count (headers st ! i))"
    if f: "restoreState qt st = Inl SizesCountMismatch"
  proof (cases "restoreSplitterState qt None (restoreWindowState st)")
    case (Inl e)
    with f have e: "e = SizesCountMismatch" by (simp add: restoreState_def)
    let ?w = "restoreWindowState st"
    from restoreSplitterState_fails [OF Inl] e obtain i where
      i: "i \<in> set (splitterTargets None ?w)"
      and r: "splitterRestored qt (m_stateSettings ?w) (m_defaultSplitterSizes ?w) (m_resizing ?w)
             (splitters ?w ! i) = Inl SizesCountMismatch" by blast
    from r obtain d where "appliedSplitterDefaults ?w i = Some d"
      "length d \<noteq> sp_count (splitters ?w ! i)"
      by (auto simp: splitterRestored_mismatch)
    moreover have "appliedSplitterDefaults ?w i = appliedSplitterDefaults st i"
      by (rule appliedSplitterDefaults_cong) (simp_all add: restoreWindowState_fields)
    moreover from i have "i < length (splitters st)"
      using splitterTargets_less [of i None ?w] by (simp add: restoreWindowState_fields)
    ultimately show ?thesis by (auto simp: restoreWindowState_fields)
  next
    case (Inr s1)
    with f have h: "restoreHeaderState qt None s1 = Inl SizesCountMismatch"
      by (simp add: restoreState_def)
    from restoreSplitterState_frame [OF Inr] obtain ss ws where
      s1: "s1 = (restoreWindowState st)\<lparr>splitters := ss, warnings := ws\<rparr>" by blast
    from restoreHeaderState_fails [OF h] obtain i where
      i: "i \<in> set (headerTargets None s1)"
      and r: "headerRestored qt (m_stateSettings s1) (m_defaultHeaderSizes s1) (m_resizing s1)
             (views s1) (headers s1 ! i) = Inl SizesCountMismatch" by blast
    from r obtain d where "appliedHeaderDefaults s1 i = Some d"
      "length d \<noteq> hv_count (headers s1 ! i)"
      by (auto simp: headerRestored_mismatch)
    moreover have "appliedHeaderDefaults s1 i = appliedHeaderDefaults st i"
      by (rule appliedHeaderDefaults_cong) (simp_all add: s1 restoreWindowState_fields)
    moreover from i have "i < length (headers st)"
      using headerTargets_less [of i None s1] by (simp add: s1 restoreWindowState_fields)
    moreover have "headers s1 = headers st" by (simp add: s1 restoreWindowState_fields)
    ultimately show ?thesis by auto
  qed
  from A B C D E show ?thesis by blast
qed

theorem default_sizes_count_assertion_witness:
  "restoreSplitterState exampleQt (Some 0)
     (exampleState\<lparr>m_defaultSplitterSizes := [''mainSplitter'' \<mapsto> [VInt 200, VInt 300]]\<rparr>)
     = Inl SizesCountMismatch
   \<and> (\<exists>st'. restoreSplitterState exampleQt None exampleState = Inr st')
   \<and> length exampleSplitterSizes = sp_count (splitters exampleState ! 0)"
proof -
  let ?bad = "exampleState\<lparr>m_defaultSplitterSizes := [''mainSplitter'' \<mapsto> [VInt 200, VInt 300]]\<rparr>"
  have b: "0 < length (splitters ?bad)"
    "appliedSplitterDefaults ?bad 0 = Some [VInt 200, VInt 300]"
    "length [VInt 200, VInt 300] \<noteq> sp_count (splitters ?bad ! 0)"
    by (simp_all add: appliedSplitterDefaults_def model_defs example_defs)
  from default_sizes_count_assertion [of exampleQt ?bad] b
  have 1: "restoreSplitterState exampleQt (Some 0) ?bad = Inl SizesCountMismatch" by blast
  obtain st' where r: "restoreSplitterState exampleQt None exampleState = Inr st'"
    by (simp add: model_defs example_defs)
  have g: "0 \<in> set (splitterTargets None exampleState)"
    "appliedSplitterDefaults exampleState 0 = Some exampleSplitterSizes"
    by (simp_all add: appliedSplitterDefaults_def model_defs example_defs)
  from default_sizes_count_assertion [of exampleQt exampleState] r g
  have 2: "length exampleSplitterSizes = sp_count (splitters exampleState ! 0)" by blast
  from 1 r 2 show ?thesis by blast
qed

subsection \<open>A root widget without a name\<close>

text \<open>
  C10. Let the root widget have no name, and let the manager be as its constructor
  leaves it: not initialised, with no signal connected. Then \<open>setup\<close> only logs the
  missing name and returns, without marking the manager initialised. Whatever reaches
  the manager afterwards (events of the root widget and of the views, signals, \<open>reset\<close>,
  registrations of default sizes), every call returns, the manager is never
  initialised, no signal gets connected, and the values in the settings, the splitters,
  the headers and the root widget are what they were: nothing is saved and nothing is
  restored.
\<close>

theorem unnamed_root_inert:
  assumes "w_objectName (m_widget st) = []" "\<not> m_initialized st"
    and "splitterConnected st = {}" "headerConnected st = {}"
  shows "setupManager qt st = Inr (qWarning (WidgetWithNoName RootWidget) st)
     \<and> (\<exists>st'. run qt as st = Inr st' \<and> \<not> m_initialized st'
            \<and> splitterConnected st' = {} \<and> headerConnected st' = {}
            \<and> qs_values (m_stateSettings st') = qs_values (m_stateSettings st)
            \<and> splitters st' = splitters st \<and> headers st' = headers st
            \<and> m_widget st' = m_widget st)"
proof -
  from assms have i: "inert st" by (simp add: inert_def)
  from run_inert [OF i, of qt as] show ?thesis
    using assms(1) by (auto simp: inert_def sameWidgetsAndValues_def setupManager_unnamed)
qed

theorem unnamed_root_inert_witness:
  "\<exists>st'. run exampleQt [Event RootObject Show, SplitterMoved 0, Event RootObject Resize,
                       Event RootObject Hide, Reset, Event RootObject Show]
            (exampleState\<lparr>m_widget := exampleRoot\<lparr>w_objectName := []\<rparr>\<rparr>) = Inr st'
     \<and> \<not> m_initialized st'
     \<and> qs_values (m_stateSettings st') = Map.empty
     \<and> splitters st' = [exampleSplitter] \<and> headers st' = [exampleHeader]"
proof -
  let ?st = "exampleState\<lparr>m_widget := exampleRoot\<lparr>w_objectName := []\<rparr>\<rparr>"
  have h: "w_objectName (m_widget ?st) = []" "\<not> m_initialized ?st"
    "splitterConnected ?st = {}" "headerConnected ?st = {}"
    by (simp_all add: exampleState_def)
  have e: "qs_values (m_stateSettings ?st) = Map.empty" "splitters ?st = [exampleSplitter]"
    "headers ?st = [exampleHeader]"
    by (simp_all add: exampleState_def)
  from unnamed_root_inert [OF h, of exampleQt
      "[Event RootObject Show, SplitterMoved 0, Event RootObject Resize,
        Event RootObject Hide, Reset, Event RootObject Show]"] e
  show ?thesis by auto
qed

end
